(* ===== verification/Prelude.thy ===== *)
theory Prelude
  imports Main "HOL-Library.Char_ord" "HOL-Library.List_Lexorder" "HOL-Library.Multiset"
    "HOL-Library.Code_Target_Nat"
begin

text \<open>
  What every component shares: the Go notions that occur everywhere in the program (strings as
  byte lists, error values, the functions of package strings the code calls) and the generic
  lemmas on lists and sorting the component theories use.

  A Go string is a sequence of bytes, and so is a \<open>string\<close> here (a list of 8-bit \<open>char\<close>s), so
  \<open>len\<close> is \<open>length\<close> and slicing is \<open>take\<close> and \<open>drop\<close>. The functions that look at letters
  (\<open>to_lower\<close>) or white space (\<open>trim_space\<close>) treat the ASCII range, as Go's fast paths do.
\<close>

named_theorems go_simps \<open>equations of the Go string and error helpers\<close>

section \<open>Error values\<close>

text \<open>
  A Go \<open>error\<close> is \<open>nil\<close> or a value. A package-level variable made by \<open>errors.New\<close> is a
  \<open>Sentinel\<close> (compared by identity, which its text stands for), any other \<open>errors.New\<close> or
  \<open>fmt.Errorf\<close> without \<open>%w\<close> an \<open>ErrNew\<close>, and \<open>fmt.Errorf\<close> with \<open>%w\<close> an \<open>ErrWrap\<close> that
  carries the whole formatted message and the wrapped error.
\<close>

datatype go_error = Sentinel string | ErrNew string | ErrWrap string go_error

fun error_text :: "go_error \<Rightarrow> string" where
  "error_text (Sentinel s) = s"
| "error_text (ErrNew s) = s"
| "error_text (ErrWrap s _) = s"

text \<open>The standard library's \<open>errors.Is\<close>: the target or something it wraps.\<close>

fun errors_is :: "go_error \<Rightarrow> go_error \<Rightarrow> bool" where
  "errors_is (ErrWrap s e) t = (ErrWrap s e = t \<or> errors_is e t)"
| "errors_is e t = (e = t)"

text \<open>\<open>fmt.Errorf("%w: %s", e, s)\<close> and \<open>fmt.Errorf("s: %w", e)\<close>.\<close>

definition errorf_suffix :: "go_error \<Rightarrow> string \<Rightarrow> go_error" where
  "errorf_suffix e s = ErrWrap (error_text e @ '': '' @ s) e"

definition errorf_prefix :: "string \<Rightarrow> go_error \<Rightarrow> go_error" where
  "errorf_prefix s e = ErrWrap (s @ '': '' @ error_text e) e"

lemma errors_is_refl [simp, intro]: "errors_is e e"
  by (cases e) auto

lemma errors_is_suffix [simp]: "errors_is (errorf_suffix e s) e"
  by (simp add: errorf_suffix_def)

lemma errors_is_prefix [simp]: "errors_is (errorf_prefix s e) e"
  by (simp add: errorf_prefix_def)

lemma errors_is_suffix_Sentinel [simp]:
  "errors_is (errorf_suffix e s) (Sentinel t) \<longleftrightarrow> errors_is e (Sentinel t)"
  by (simp add: errorf_suffix_def)

lemma errors_is_prefix_Sentinel [simp]:
  "errors_is (errorf_prefix s e) (Sentinel t) \<longleftrightarrow> errors_is e (Sentinel t)"
  by (simp add: errorf_prefix_def)

section \<open>Package strings\<close>

fun has_prefix :: "string \<Rightarrow> string \<Rightarrow> bool" where
  "has_prefix s [] = True"
| "has_prefix [] (c # p) = False"
| "has_prefix (d # s) (c # p) = (d = c \<and> has_prefix s p)"

definition trim_prefix :: "string \<Rightarrow> string \<Rightarrow> string" where
  "trim_prefix s p = (if has_prefix s p then drop (length p) s else s)"

definition has_suffix :: "string \<Rightarrow> string \<Rightarrow> bool" where
  "has_suffix s p = has_prefix (rev s) (rev p)"

fun str_contains :: "string \<Rightarrow> string \<Rightarrow> bool" where
  "str_contains [] sub = (sub = [])"
| "str_contains (c # s) sub = (has_prefix (c # s) sub \<or> str_contains s sub)"

fun split_on :: "char \<Rightarrow> string \<Rightarrow> string list" where
  "split_on c [] = [[]]"
| "split_on c (d # s) =
     (if d = c then [] # split_on c s
      else (case split_on c s of [] \<Rightarrow> [[d]] | l # ls \<Rightarrow> (d # l) # ls))"

fun join :: "string \<Rightarrow> string list \<Rightarrow> string" where
  "join sep [] = []"
| "join sep [x] = x"
| "join sep (x # y # xs) = x @ sep @ join sep (y # xs)"

definition is_space :: "char \<Rightarrow> bool" where
  "is_space c = (let n = (of_char c :: nat) in (9 \<le> n \<and> n \<le> 13) \<or> n = 32)"

definition trim_space :: "string \<Rightarrow> string" where
  "trim_space s = rev (dropWhile is_space (rev (dropWhile is_space s)))"

definition to_lower_char :: "char \<Rightarrow> char" where
  "to_lower_char c =
     (let n = (of_char c :: nat) in if 65 \<le> n \<and> n \<le> 90 then char_of (n + 32) else c)"

definition to_lower :: "string \<Rightarrow> string" where
  "to_lower s = map to_lower_char s"

definition newline :: string where "newline = [CHR 0x0A]"

text \<open>The non-ASCII characters of the program's texts, as their UTF-8 bytes.\<close>

definition ellipsis :: string where "ellipsis = [CHR 0xE2, CHR 0x80, CHR 0xA6]"
definition em_dash :: string where "em_dash = [CHR 0xE2, CHR 0x80, CHR 0x94]"
definition right_arrow :: string where "right_arrow = [CHR 0xE2, CHR 0x86, CHR 0x92]"

text \<open>\<open>%d\<close>\<close>

fun show_nat :: "nat \<Rightarrow> string" where
  "show_nat n =
     (if n < 10 then [char_of (48 + n)] else show_nat (n div 10) @ [char_of (48 + n mod 10)])"

declare show_nat.simps [simp del]

definition show_int :: "int \<Rightarrow> string" where
  "show_int i = (if i < 0 then ''-'' @ show_nat (nat (- i)) else show_nat (nat i))"

lemma of_char_less_256: "(of_char c :: nat) < 256"
  using of_char_of [where ?'a = nat, of "of_char c"] by (metis char_of_char mod_less_divisor zero_less_numeral)

lemma has_prefix_append [simp]: "has_prefix (p @ s) p"
  by (induction p) auto

lemma has_prefix_iff: "has_prefix s p \<longleftrightarrow> (\<exists>r. s = p @ r)"
  by (induction s p rule: has_prefix.induct) auto

lemma trim_prefix_append [simp]: "trim_prefix (p @ s) p = s"
  by (simp add: trim_prefix_def)

lemma str_contains_iff: "str_contains s sub \<longleftrightarrow> (\<exists>a b. s = a @ sub @ b)"
proof (induction s)
  case Nil
  then show ?case by auto
next
  case (Cons c s)
  have "(\<exists>a b. c # s = a @ sub @ b) \<longleftrightarrow> has_prefix (c # s) sub \<or> (\<exists>a b. s = a @ sub @ b)"
    by (auto simp: has_prefix_iff Cons_eq_append_conv; metis append_Cons)
  with Cons show ?case by simp
qed

lemma split_on_nonempty [simp]: "split_on c s \<noteq> []"
  by (induction s) (auto split: list.splits)

lemma split_on_no_sep: "l \<in> set (split_on c s) \<Longrightarrow> c \<notin> set l"
proof (induction s arbitrary: l)
  case (Cons d s)
  then show ?case
    by (cases "split_on c s") (auto split: if_splits)
qed simp

lemma join_split_on: "join [c] (split_on c s) = s"
proof (induction s)
  case (Cons d s)
  obtain l ls where sp: "split_on c s = l # ls"
    by (cases "split_on c s") auto
  with Cons have "join [c] (l # ls) = s" by simp
  with sp show ?case by (cases ls) auto
qed simp

section \<open>Lists\<close>

text \<open>
  Go's map iteration visits the keys in an unspecified order and the code then sorts by key. On
  an association list with distinct keys the result does not depend on the order.
\<close>

lemma sort_key_perm_eq:
  assumes "mset xs = mset ys" and "inj_on f (set xs)"
  shows "sort_key f xs = sort_key f ys"
  using assms by (metis mset_sort sort_key_inj_key_eq sorted_sort_key)

lemma distinct_map_filter' [intro]: "distinct (map f xs) \<Longrightarrow> distinct (map f (filter P xs))"
  by (rule distinct_map_filter)

lemma sorted_distinct_map_sort_key:
  "distinct (map f xs) \<Longrightarrow> sorted (map f (sort_key f xs)) \<and> distinct (map f (sort_key f xs))"
  by (metis distinct_map distinct_sort set_sort sorted_sort_key)

text \<open>A key at least as large as all others goes to the end.\<close>

lemma sort_key_snoc:
  assumes "\<And>x. x \<in> set xs \<Longrightarrow> f x \<le> f y"
  shows "sort_key f (xs @ [y]) = sort_key f xs @ [y]"
proof (rule properties_for_sort_key)
  show "filter (\<lambda>x. f k = f x) (sort_key f xs @ [y]) = filter (\<lambda>x. f k = f x) (xs @ [y])" for k
    using sort_key_stable [of f "f k" xs] by (simp add: eq_commute [of "f k"])
  show "sorted (map f (sort_key f xs @ [y]))"
    using assms by (simp add: sorted_append)
qed simp

text \<open>A search loop that returns an error for the first offender.\<close>

lemma case_find_None_iff [simp]:
  "(case find P xs of Some x \<Rightarrow> Some (f x) | None \<Rightarrow> r) = None \<longleftrightarrow>
     (\<forall>x \<in> set xs. \<not> P x) \<and> r = None"
  by (induction xs) auto

text \<open>Absence of events of one kind in a list of events.\<close>

lemma filter_emptyI: "(\<And>x. x \<in> set xs \<Longrightarrow> \<not> P x) \<Longrightarrow> filter P xs = []"
  by (simp add: filter_empty_conv)

end
