(* ===== verification/Ai.thy ===== *)
theory Ai
  imports Prelude Complex_Main
begin

text \<open>
  The provider-neutral messages of internal/ai/provider.go and the cost estimate. Costs are exact
  rationals here; the program rounds them to float64.
\<close>

type_synonym Role = string

abbreviation RoleSystem :: Role where "RoleSystem \<equiv> ''system''"
abbreviation RoleUser :: Role where "RoleUser \<equiv> ''user''"
abbreviation RoleAssistant :: Role where "RoleAssistant \<equiv> ''assistant''"
abbreviation RoleTool :: Role where "RoleTool \<equiv> ''tool''"

record ToolCall =
  tc_ID :: string
  tc_Name :: string
  tc_Args :: string

record Message =
  m_Role :: Role
  m_Content :: string
  m_ToolCalls :: "ToolCall list"
  m_ToolCallID :: string
  m_Name :: string

definition msg :: "Role \<Rightarrow> string \<Rightarrow> Message" where
  "msg role content =
     \<lparr>m_Role = role, m_Content = content, m_ToolCalls = [], m_ToolCallID = [], m_Name = []\<rparr>"

lemma msg_simps [simp]:
  "m_Role (msg r c) = r" "m_Content (msg r c) = c" "m_ToolCalls (msg r c) = []"
  "m_ToolCallID (msg r c) = []" "m_Name (msg r c) = []"
  by (simp_all add: msg_def)

record Usage =
  u_InputTokens :: int
  u_OutputTokens :: int
  u_CostCents :: rat
  u_Model :: string

record ModelInfo =
  mi_Ref :: string
  mi_ContextWindow :: int
  mi_InputCentsPerMTok :: rat
  mi_OutputCentsPerMTok :: rat
  mi_Tier :: string

definition ref_matches :: "string \<Rightarrow> ModelInfo \<Rightarrow> bool" where
  "ref_matches model mi =
     (mi_Ref mi = model \<or> has_suffix (mi_Ref mi) (''/'' @ model) \<or> has_suffix (mi_Ref mi) model)"

definition EstimateCost :: "ModelInfo list \<Rightarrow> string \<Rightarrow> int \<Rightarrow> int \<Rightarrow> rat" where
  "EstimateCost models model inTok outTok =
     (case find (ref_matches model) models of
        Some mi \<Rightarrow> of_int inTok / 1000000 * mi_InputCentsPerMTok mi
                   + of_int outTok / 1000000 * mi_OutputCentsPerMTok mi
      | None \<Rightarrow> 0)"

end
