(* ===== verification/Crypto.thy ===== *)
theory Crypto
  imports Prelude
begin

text \<open>
  Field-level encryption (internal/security/crypto.go). The AEAD (AES-256-GCM) and SHA-256 are
  parameters; base64 (the standard encoding with padding) is written out. A nonce is an argument:
  \<open>None\<close> stands for a failing random source. \<open>encryptor\<close> is the interface the store depends on.
\<close>

section \<open>Base64\<close>

definition b64_char :: "nat \<Rightarrow> char" where
  "b64_char n =
     (if n < 26 then char_of (65 + n) else if n < 52 then char_of (71 + n)
      else if n < 62 then char_of (n - 4) else if n = 62 then CHR ''+'' else CHR ''/'')"

definition b64_val :: "char \<Rightarrow> nat option" where
  "b64_val c =
     (let n = (of_char c :: nat) in
      if 65 \<le> n \<and> n \<le> 90 then Some (n - 65) else if 97 \<le> n \<and> n \<le> 122 then Some (n - 71)
      else if 48 \<le> n \<and> n \<le> 57 then Some (n + 4) else if c = CHR ''+'' then Some 62
      else if c = CHR ''/'' then Some 63 else None)"

abbreviation byte :: "char \<Rightarrow> nat" where "byte c \<equiv> of_char c"

fun b64_encode :: "string \<Rightarrow> string" where
  "b64_encode [] = []"
| "b64_encode [a] =
     (let n = byte a * 65536
      in [b64_char (n div 262144), b64_char (n div 4096 mod 64), CHR ''='', CHR ''=''])"
| "b64_encode [a, b] =
     (let n = byte a * 65536 + byte b * 256
      in [b64_char (n div 262144), b64_char (n div 4096 mod 64), b64_char (n div 64 mod 64), CHR ''=''])"
| "b64_encode (a # b # c # s) =
     (let n = byte a * 65536 + byte b * 256 + byte c
      in b64_char (n div 262144) # b64_char (n div 4096 mod 64) # b64_char (n div 64 mod 64)
         # b64_char (n mod 64) # b64_encode s)"

text \<open>Decoding skips line breaks, wants full quanta and accepts padding at the end only.\<close>

fun b64_quanta :: "string \<Rightarrow> string option" where
  "b64_quanta [] = Some []"
| "b64_quanta (w # x # y # z # s) =
     (case (b64_val w, b64_val x) of
        (Some i, Some j) \<Rightarrow>
          (if y = CHR ''='' then
             (if z = CHR ''='' \<and> s = [] then Some [char_of ((i * 262144 + j * 4096) div 65536)] else None)
           else
             (case b64_val y of
                None \<Rightarrow> None
              | Some k \<Rightarrow>
                  (if z = CHR ''='' then
                     (if s = [] then
                        (let n = i * 262144 + j * 4096 + k * 64
                         in Some [char_of (n div 65536), char_of (n div 256 mod 256)])
                      else None)
                   else
                     (case b64_val z of
                        None \<Rightarrow> None
                      | Some l \<Rightarrow>
                          (let n = i * 262144 + j * 4096 + k * 64 + l
                           in map_option (\<lambda>r. char_of (n div 65536) # char_of (n div 256 mod 256)
                                              # char_of (n mod 256) # r) (b64_quanta s))))))
      | _ \<Rightarrow> None)"
| "b64_quanta s = None"

definition b64_decode :: "string \<Rightarrow> string option" where
  "b64_decode s = b64_quanta (filter (\<lambda>c. c \<noteq> CHR 0x0A \<and> c \<noteq> CHR 0x0D) s)"

lemma b64_table:
  "list_all (\<lambda>n. b64_val (b64_char n) = Some n \<and> b64_char n \<noteq> CHR ''='' \<and>
     b64_char n \<noteq> CHR 0x0A \<and> b64_char n \<noteq> CHR 0x0D) [0..<64]"
  by code_simp

lemma b64_char_simps [simp]:
  assumes "n < 64"
  shows "b64_val (b64_char n) = Some n" "b64_char n \<noteq> CHR ''=''" "b64_char n \<noteq> CHR 0x0A"
    "b64_char n \<noteq> CHR 0x0D"
  using b64_table assms by (auto simp: list_all_iff)

lemma byte_less [simp]: "byte c < 256"
  by (metis nat_of_char_less_256)

lemma sextets:
  fixes n :: nat
  assumes "n < 16777216"
  shows "n div 262144 < 64"
    and "n div 262144 * 262144 + n div 4096 mod 64 * 4096 + n div 64 mod 64 * 64 + n mod 64 = n"
proof -
  show "n div 262144 < 64" using assms by (simp add: less_mult_imp_div_less)
  define q1 q2 q3 where "q1 = n div 64" and "q2 = q1 div 64" and "q3 = q2 div 64"
  have eqs: "n div 4096 = q2" "n div 262144 = q3"
    by (simp_all add: q1_def q2_def q3_def flip: div_mult2_eq)
  have "n = q1 * 64 + n mod 64" "q1 = q2 * 64 + q1 mod 64" "q2 = q3 * 64 + q2 mod 64"
    by (simp_all add: q1_def q2_def q3_def)
  then show "n div 262144 * 262144 + n div 4096 mod 64 * 4096 + n div 64 mod 64 * 64 + n mod 64 = n"
    unfolding eqs q1_def [symmetric] by linarith
qed

lemma octets:
  fixes a b c :: nat
  assumes "a < 256" "b < 256" "c < 256"
  shows "a * 65536 + b * 256 + c < 16777216"
    and "(a * 65536 + b * 256 + c) div 65536 = a"
    and "(a * 65536 + b * 256 + c) div 256 mod 256 = b"
    and "(a * 65536 + b * 256 + c) mod 256 = c"
proof -
  from assms have le: "a \<le> 255" "b \<le> 255" "c \<le> 255" by simp_all
  then show "a * 65536 + b * 256 + c < 16777216" by linarith
  show "(a * 65536 + b * 256 + c) div 65536 = a"
  proof (rule div_nat_eqI)
    show "a * 65536 + b * 256 + c < 65536 * Suc a" using le by (simp only: mult_Suc_right)
  qed simp
  have "(a * 65536 + b * 256 + c) div 256 = a * 256 + b"
  proof (rule div_nat_eqI)
    show "256 * (a * 256 + b) \<le> a * 65536 + b * 256 + c" by simp
    show "a * 65536 + b * 256 + c < 256 * Suc (a * 256 + b)" using le(3) by simp
  qed
  then show "(a * 65536 + b * 256 + c) div 256 mod 256 = b" using assms by simp
  have "a * 65536 + b * 256 + c = c + 256 * (a * 256 + b)" by simp
  then show "(a * 65536 + b * 256 + c) mod 256 = c" using assms by (metis mod_less mod_mult_self2)
qed

lemma b64_quanta_encode: "b64_quanta (b64_encode s) = Some s"
proof (induction s rule: b64_encode.induct)
  case (2 a)
  let ?n = "byte a * 65536 + 0 * 256 + 0"
  have "?n = 64 * (64 * (16 * byte a))" by simp
  then have "?n div 64 mod 64 = 0" "?n mod 64 = 0"
    by (metis mod_mult_self1_is_0 nonzero_mult_div_cancel_left zero_neq_numeral)+
  then have "?n div 262144 * 262144 + ?n div 4096 mod 64 * 4096 = ?n"
    using sextets(2) [OF octets(1) [of "byte a" 0 0]] by simp
  with sextets(1) [OF octets(1) [of "byte a" 0 0]] octets(2) [of "byte a" 0 0] show ?case
    by (simp add: Let_def)
next
  case (3 a b)
  let ?n = "byte a * 65536 + byte b * 256 + 0"
  have "?n = 64 * (1024 * byte a + 4 * byte b)" by simp
  then have "?n mod 64 = 0" by (metis mod_mult_self1_is_0)
  then have "?n div 262144 * 262144 + ?n div 4096 mod 64 * 4096 + ?n div 64 mod 64 * 64 = ?n"
    using sextets(2) [OF octets(1) [of "byte a" "byte b" 0]] by simp
  with sextets(1) [OF octets(1) [of "byte a" "byte b" 0]] octets(2,3) [of "byte a" "byte b" 0] show ?case
    by (simp add: Let_def del: char_of_mod_256)
next
  case (4 a b c s)
  let ?n = "byte a * 65536 + byte b * 256 + byte c"
  have "?n div 262144 * 262144 + ?n div 4096 mod 64 * 4096 + ?n div 64 mod 64 * 64 + ?n mod 64 = ?n"
    using sextets(2) [OF octets(1) [of "byte a" "byte b" "byte c"]] by simp
  with 4 sextets(1) [OF octets(1) [of "byte a" "byte b" "byte c"]]
    octets(2-4) [of "byte a" "byte b" "byte c"] show ?case
    by (simp add: Let_def del: char_of_mod_256)
qed simp

lemma b64_encode_no_breaks:
  "c \<in> set (b64_encode s) \<Longrightarrow> c \<noteq> CHR 0x0A \<and> c \<noteq> CHR 0x0D"
proof (induction s rule: b64_encode.induct)
  case (2 a)
  have "byte a * 65536 div 262144 < 64" using byte_less [of a] by linarith
  with 2 show ?case by (auto simp: Let_def)
next
  case (3 a b)
  have "(byte a * 65536 + byte b * 256) div 262144 < 64"
    using byte_less [of a] byte_less [of b] by linarith
  with 3 show ?case by (auto simp: Let_def)
next
  case (4 a b d s)
  have "(byte a * 65536 + byte b * 256 + byte d) div 262144 < 64"
    using byte_less [of a] byte_less [of b] byte_less [of d] by linarith
  with 4 show ?case by (auto simp: Let_def)
qed simp

lemma b64_decode_encode [simp]: "b64_decode (b64_encode s) = Some s"
proof -
  have "filter (\<lambda>c. c \<noteq> CHR 0x0A \<and> c \<noteq> CHR 0x0D) (b64_encode s) = b64_encode s"
    using b64_encode_no_breaks by (simp add: filter_id_conv)
  then show ?thesis by (simp add: b64_decode_def b64_quanta_encode)
qed

section \<open>The cipher (crypto.go)\<close>

definition encPrefix :: string where "encPrefix = ''enc:v1:''"

record AEAD =
  aead_NonceSize :: nat
  aead_Seal :: "string \<Rightarrow> string \<Rightarrow> string" \<comment> \<open>nonce, plaintext\<close>
  aead_Open :: "string \<Rightarrow> string \<Rightarrow> string option"

text \<open>What an AEAD promises a legitimate reader: opening undoes sealing under the same nonce.\<close>

definition aead_laws :: "AEAD \<Rightarrow> bool" where
  "aead_laws A \<longleftrightarrow>
     (\<forall>nonce pt. length nonce = aead_NonceSize A \<longrightarrow> aead_Open A nonce (aead_Seal A nonce pt) = Some pt)"

text \<open>The system's random source: a stream of bytes, or a failure.\<close>

type_synonym rand = "(nat \<Rightarrow> char) option"

text \<open>\<open>mk\<close> builds the AEAD from a key (\<open>aes.NewCipher\<close> and \<open>cipher.NewGCM\<close>).\<close>

definition NewCipher :: "(string \<Rightarrow> go_error + AEAD) \<Rightarrow> string \<Rightarrow> go_error + AEAD" where
  "NewCipher mk key =
     (if length key \<noteq> 32 then Inl (ErrNew (''key must be 32 bytes, got '' @ show_nat (length key)))
      else mk key)"

definition DeriveKey :: "(string \<Rightarrow> string) \<Rightarrow> string \<Rightarrow> string" where
  "DeriveKey sha256 passphrase = sha256 passphrase"

definition rand_error :: go_error where "rand_error = ErrNew ''random source failed''"

definition Encrypt :: "AEAD \<Rightarrow> rand \<Rightarrow> string \<Rightarrow> go_error + string" where
  "Encrypt A rd plaintext =
     (case rd of
        None \<Rightarrow> Inl rand_error
      | Some f \<Rightarrow>
          (let nonce = map f [0..<aead_NonceSize A];
               sealed = nonce @ aead_Seal A nonce plaintext
           in Inr (encPrefix @ b64_encode sealed)))"

definition Decrypt :: "AEAD \<Rightarrow> string \<Rightarrow> go_error + string" where
  "Decrypt A s =
     (if \<not> has_prefix s encPrefix then Inr s
      else
        (case b64_decode (trim_prefix s encPrefix) of
           None \<Rightarrow> Inl (ErrNew ''illegal base64 data'')
         | Some raw \<Rightarrow>
             (let ns = aead_NonceSize A in
              if length raw < ns then Inl (ErrNew ''ciphertext too short'')
              else
                (case aead_Open A (take ns raw) (drop ns raw) of
                   None \<Rightarrow> Inl (errorf_prefix ''decrypt'' (ErrNew ''cipher: message authentication failed''))
                 | Some pt \<Rightarrow> Inr pt))))"

lemma Decrypt_Encrypt:
  assumes "aead_laws A" and "Encrypt A rd p = Inr c"
  shows "Decrypt A c = Inr p"
proof -
  obtain f where f: "rd = Some f" using assms(2) by (auto simp: Encrypt_def split: option.splits)
  define nonce where "nonce = map f [0..<aead_NonceSize A]"
  have len: "length nonce = aead_NonceSize A" by (simp add: nonce_def)
  with assms f show ?thesis
    by (auto simp: Encrypt_def Decrypt_def aead_laws_def Let_def simp flip: nonce_def)
qed

text \<open>Text without the tag passes through: rows written before a key was set stay readable.\<close>

lemma Decrypt_plain: "\<not> has_prefix s encPrefix \<Longrightarrow> Decrypt A s = Inr s"
  by (simp add: Decrypt_def)

section \<open>The interface the store uses\<close>

text \<open>
  \<open>store.Encryptor\<close>: what is encrypted decrypts to itself. The store's own wrappers \<open>enc\<close> and
  \<open>dec\<close> (a nil cipher stores plaintext) are a provider of it, with or without a cipher.
\<close>

record Encryptor =
  e_Encrypt :: "rand \<Rightarrow> string \<Rightarrow> go_error + string"
  e_Decrypt :: "string \<Rightarrow> go_error + string"

definition Cipher_Encryptor :: "AEAD \<Rightarrow> Encryptor" where
  "Cipher_Encryptor A = \<lparr>e_Encrypt = Encrypt A, e_Decrypt = Decrypt A\<rparr>"

definition store_enc :: "Encryptor option \<Rightarrow> rand \<Rightarrow> string \<Rightarrow> go_error + string" where
  "store_enc cph rd plaintext = (case cph of None \<Rightarrow> Inr plaintext | Some e \<Rightarrow> e_Encrypt e rd plaintext)"

definition store_dec :: "Encryptor option \<Rightarrow> string \<Rightarrow> go_error + string" where
  "store_dec cph ciphertext = (case cph of None \<Rightarrow> Inr ciphertext | Some e \<Rightarrow> e_Decrypt e ciphertext)"

locale encryptor =
  fixes enc :: "rand \<Rightarrow> string \<Rightarrow> go_error + string"
    and dec :: "string \<Rightarrow> go_error + string"
  assumes dec_enc: "enc rd p = Inr c \<Longrightarrow> dec c = Inr p"
begin

lemma enc_inj: "enc rd p = Inr c \<Longrightarrow> enc rd' p' = Inr c \<Longrightarrow> p = p'"
  using dec_enc [of rd p c] dec_enc [of rd' p' c] by simp

end

interpretation plain: encryptor "store_enc None" "store_dec None"
  by unfold_locales (simp add: store_enc_def store_dec_def)

lemma cipher_encryptor:
  assumes "aead_laws A"
  shows "encryptor (store_enc (Some (Cipher_Encryptor A))) (store_dec (Some (Cipher_Encryptor A)))"
  by unfold_locales (use Decrypt_Encrypt [OF assms] in \<open>simp add: store_enc_def store_dec_def Cipher_Encryptor_def\<close>)

text \<open>How the program sets a store up: without a cipher, or with \<open>security.Cipher\<close>.\<close>

definition cipher_ok :: "Encryptor option \<Rightarrow> bool" where
  "cipher_ok cph \<longleftrightarrow> (case cph of None \<Rightarrow> True | Some e \<Rightarrow> (\<exists>A. e = Cipher_Encryptor A \<and> aead_laws A))"

lemma cipher_ok_encryptor: "cipher_ok cph \<Longrightarrow> encryptor (store_enc cph) (store_dec cph)"
  using cipher_encryptor plain.encryptor_axioms by (auto simp: cipher_ok_def split: option.splits)

section \<open>Properties\<close>

text \<open>C40: Decrypting what the cipher encrypted gives the plaintext back, whatever it is and whatever nonce was
  drawn (base64, the tag and the nonce prefix included); the only other outcome of encrypting is an
  error of the random source.\<close>

theorem decrypt_after_encrypt:
  assumes "aead_laws A"
  shows "(\<exists>c. Encrypt A rd p = Inr c \<and> Decrypt A c = Inr p) \<or> (rd = None \<and> Encrypt A rd p = Inl rand_error)"
proof (cases rd)
  case None
  then show ?thesis by (simp add: Encrypt_def)
next
  case (Some f)
  then obtain c where "Encrypt A rd p = Inr c" by (simp add: Encrypt_def Let_def)
  with Decrypt_Encrypt [OF assms] show ?thesis by blast
qed

text \<open>An AEAD for the witness: the tag is the nonce itself.\<close>

definition demo_aead :: AEAD where
  "demo_aead =
     \<lparr>aead_NonceSize = 2, aead_Seal = (\<lambda>nonce pt. pt @ nonce),
      aead_Open = (\<lambda>nonce ct. if length nonce = 2 \<and> 2 \<le> length ct \<and> drop (length ct - 2) ct = nonce
                             then Some (take (length ct - 2) ct) else None)\<rparr>"

lemma demo_aead_laws: "aead_laws demo_aead"
  by (simp add: aead_laws_def demo_aead_def)

lemma demo_cipher_ok: "cipher_ok None" "cipher_ok (Some (Cipher_Encryptor demo_aead))"
  using demo_aead_laws by (auto simp: cipher_ok_def)

theorem decrypt_after_encrypt_witness:
  "\<exists>c. Encrypt demo_aead (Some (\<lambda>i. CHR ''n'')) ''secret'' = Inr c \<and> Decrypt demo_aead c = Inr ''secret''"
  using decrypt_after_encrypt [OF demo_aead_laws, of "Some (\<lambda>i. CHR ''n'')" "''secret''"] by simp

end
