(* ===== verification/GoJson.thy ===== *)
theory GoJson
  imports Prelude
begin

text \<open>
  The part of Go's encoding/json the program uses, as an executable model over bytes: the parser
  of a JSON text (\<open>json.Unmarshal\<close> into \<open>any\<close>), the decoding into \<open>map[string]any\<close> and into
  struct fields of type string, bool and the integers, the quoting of strings by \<open>json.Marshal\<close>
  and the compaction of a \<open>json.RawMessage\<close>.

  Details kept because the safety of the tool calls depends on them: of duplicate members the
  last one counts; a struct field matches a member whose name is equal up to case folding (with
  the two non-ASCII runes that fold to ASCII letters); a type error leaves the field as it was,
  goes on with the other members and is reported at the end; null is a no-op. Input is taken to
  be valid UTF-8 (Go would replace an invalid byte by U+FFFD) and nested less than 10000 deep.
\<close>

section \<open>JSON values and the parser\<close>

datatype json =
    JNull
  | JBool bool
  | JNum string \<comment> \<open>the literal as written\<close>
  | JStr string
  | JArr "json list"
  | JObj "(string \<times> json) list" \<comment> \<open>members in order, duplicates kept\<close>

definition json_ws :: "char \<Rightarrow> bool" where
  "json_ws c = (c = CHR '' '' \<or> c = CHR 0x09 \<or> c = CHR 0x0A \<or> c = CHR 0x0D)"

definition skip_ws :: "string \<Rightarrow> string" where
  "skip_ws s = dropWhile json_ws s"

definition is_digit :: "char \<Rightarrow> bool" where
  "is_digit c = (let n = (of_char c :: nat) in 48 \<le> n \<and> n \<le> 57)"

definition hex_val :: "char \<Rightarrow> nat option" where
  "hex_val c = (let n = (of_char c :: nat) in
     if 48 \<le> n \<and> n \<le> 57 then Some (n - 48)
     else if 97 \<le> n \<and> n \<le> 102 then Some (n - 87)
     else if 65 \<le> n \<and> n \<le> 70 then Some (n - 55)
     else None)"

definition hex4 :: "char \<Rightarrow> char \<Rightarrow> char \<Rightarrow> char \<Rightarrow> nat option" where
  "hex4 a b c d =
     (case (hex_val a, hex_val b, hex_val c, hex_val d) of
        (Some i, Some j, Some k, Some l) \<Rightarrow> Some (((i * 16 + j) * 16 + k) * 16 + l)
      | _ \<Rightarrow> None)"

definition utf8_encode :: "nat \<Rightarrow> string" where
  "utf8_encode u =
     (if u < 128 then [char_of u]
      else if u < 2048 then [char_of (192 + u div 64), char_of (128 + u mod 64)]
      else if u < 65536 then
        [char_of (224 + u div 4096), char_of (128 + u div 64 mod 64), char_of (128 + u mod 64)]
      else
        [char_of (240 + u div 262144), char_of (128 + u div 4096 mod 64),
         char_of (128 + u div 64 mod 64), char_of (128 + u mod 64)])"

definition simple_escape :: "char \<Rightarrow> char option" where
  "simple_escape e =
     (if e = CHR 0x22 \<or> e = CHR 0x5C \<or> e = CHR ''/'' then Some e
      else if e = CHR ''b'' then Some (CHR 0x08)
      else if e = CHR ''f'' then Some (CHR 0x0C)
      else if e = CHR ''n'' then Some (CHR 0x0A)
      else if e = CHR ''r'' then Some (CHR 0x0D)
      else if e = CHR ''t'' then Some (CHR 0x09)
      else None)"

text \<open>The text after a backslash: what the escape stands for and the rest.\<close>

definition parse_escape :: "string \<Rightarrow> (string \<times> string) option" where
  "parse_escape s =
     (case s of
        h0 # h1 # h2 # h3 # h4 # s2 \<Rightarrow>
          (if h0 = CHR ''u'' then
             (case hex4 h1 h2 h3 h4 of
                None \<Rightarrow> None
              | Some u \<Rightarrow>
                  (if 55296 \<le> u \<and> u < 56320 then
                     (case s2 of
                        b # v # k1 # k2 # k3 # k4 # s3 \<Rightarrow>
                          (case (if b = CHR 0x5C \<and> v = CHR ''u'' then hex4 k1 k2 k3 k4 else None) of
                             None \<Rightarrow> Some (utf8_encode 65533, s2)
                           | Some w \<Rightarrow>
                               (if 56320 \<le> w \<and> w < 57344 then
                                  Some (utf8_encode (65536 + (u - 55296) * 1024 + (w - 56320)), s3)
                                else Some (utf8_encode 65533, s2)))
                      | _ \<Rightarrow> Some (utf8_encode 65533, s2))
                   else if 56320 \<le> u \<and> u < 57344 then Some (utf8_encode 65533, s2)
                   else Some (utf8_encode u, s2)))
           else map_option (\<lambda>d. ([d], tl s)) (simple_escape h0))
      | h0 # s1 \<Rightarrow> map_option (\<lambda>d. ([d], s1)) (simple_escape h0)
      | [] \<Rightarrow> None)"

lemma parse_escape_length [termination_simp]:
  "parse_escape s = Some (x, r) \<Longrightarrow> length r < length s"
  by (auto simp: parse_escape_def split: list.splits option.splits if_splits)

text \<open>The text after an opening quote: the decoded string and the rest after the closing one.\<close>

fun parse_str :: "string \<Rightarrow> (string \<times> string) option" where
  "parse_str [] = None"
| "parse_str (c # s) =
     (if c = CHR 0x22 then Some ([], s)
      else if c = CHR 0x5C then
        (case parse_escape s of
           None \<Rightarrow> None
         | Some (d, r) \<Rightarrow> map_option (\<lambda>(a, b). (d @ a, b)) (parse_str r))
      else if (of_char c :: nat) < 32 then None
      else map_option (\<lambda>(a, b). (c # a, b)) (parse_str s))"

text \<open>The parts of a number literal: each splits its text off the input.\<close>

definition num_sign :: "string \<Rightarrow> string \<times> string" where
  "num_sign s = (if take 1 s = ''-'' then (''-'', drop 1 s) else ([], s))"

definition num_int :: "string \<Rightarrow> (string \<times> string) option" where
  "num_int s =
     (let ip = takeWhile is_digit s
      in if ip = [] \<or> (1 < length ip \<and> take 1 ip = ''0'') then None
         else Some (ip, dropWhile is_digit s))"

definition num_frac :: "string \<Rightarrow> (string \<times> string) option" where
  "num_frac s =
     (if take 1 s = ''.'' then
        (let fp = takeWhile is_digit (drop 1 s)
         in if fp = [] then None else Some (''.'' @ fp, dropWhile is_digit (drop 1 s)))
      else Some ([], s))"

definition num_exp :: "string \<Rightarrow> (string \<times> string) option" where
  "num_exp s =
     (if take 1 s = ''e'' \<or> take 1 s = ''E'' then
        (let t = drop 1 s;
             es = (if take 1 t = ''+'' \<or> take 1 t = ''-'' then take 1 t else []);
             ep = takeWhile is_digit (drop (length es) t)
         in if ep = [] then None
            else Some (take 1 s @ es @ ep, dropWhile is_digit (drop (length es) t)))
      else Some ([], s))"

definition parse_num :: "string \<Rightarrow> (string \<times> string) option" where
  "parse_num s =
     (let (sg, s1) = num_sign s
      in case num_int s1 of
           None \<Rightarrow> None
         | Some (ip, s2) \<Rightarrow>
             (case num_frac s2 of
                None \<Rightarrow> None
              | Some (fr, s3) \<Rightarrow>
                  (case num_exp s3 of
                     None \<Rightarrow> None
                   | Some (ex, s4) \<Rightarrow> Some (sg @ ip @ fr @ ex, s4))))"

text \<open>
  The recursive descent. Fuel bounds the recursion; \<open>parse_json\<close> gives twice the length of the
  text and two more, which \<open>pvalue_fuel\<close> below shows to be enough.
\<close>

fun pvalue :: "nat \<Rightarrow> string \<Rightarrow> (json \<times> string) option"
  and pelems :: "nat \<Rightarrow> string \<Rightarrow> (json list \<times> string) option"
  and pmembers :: "nat \<Rightarrow> string \<Rightarrow> ((string \<times> json) list \<times> string) option" where
  "pvalue 0 s = None"
| "pvalue (Suc n) s =
     (case skip_ws s of
        [] \<Rightarrow> None
      | c # t \<Rightarrow>
          (if c = CHR ''{'' then
             (if take 1 (skip_ws t) = ''}'' then Some (JObj [], drop 1 (skip_ws t))
              else map_option (\<lambda>(kvs, r). (JObj kvs, r)) (pmembers n t))
           else if c = CHR ''['' then
             (if take 1 (skip_ws t) = '']'' then Some (JArr [], drop 1 (skip_ws t))
              else map_option (\<lambda>(vs, r). (JArr vs, r)) (pelems n t))
           else if c = CHR 0x22 then map_option (\<lambda>(x, r). (JStr x, r)) (parse_str t)
           else if has_prefix (c # t) ''true'' then Some (JBool True, drop 3 t)
           else if has_prefix (c # t) ''false'' then Some (JBool False, drop 4 t)
           else if has_prefix (c # t) ''null'' then Some (JNull, drop 3 t)
           else map_option (\<lambda>(x, r). (JNum x, r)) (parse_num (c # t))))"
| "pelems 0 s = None"
| "pelems (Suc n) s =
     (case pvalue n s of
        None \<Rightarrow> None
      | Some (v, r) \<Rightarrow>
          (case skip_ws r of
             [] \<Rightarrow> None
           | c # r' \<Rightarrow>
               (if c = CHR '','' then map_option (\<lambda>(vs, q). (v # vs, q)) (pelems n r')
                else if c = CHR '']'' then Some ([v], r')
                else None)))"
| "pmembers 0 s = None"
| "pmembers (Suc n) s =
     (case skip_ws s of
        [] \<Rightarrow> None
      | c # t \<Rightarrow>
          (if c = CHR 0x22 then
             (case parse_str t of
                None \<Rightarrow> None
              | Some (k, r) \<Rightarrow>
                  (case skip_ws r of
                     [] \<Rightarrow> None
                   | d # r1 \<Rightarrow>
                       (if d = CHR '':'' then
                          (case pvalue n r1 of
                             None \<Rightarrow> None
                           | Some (v, r2) \<Rightarrow>
                               (case skip_ws r2 of
                                  [] \<Rightarrow> None
                                | e # r3 \<Rightarrow>
                                    (if e = CHR '','' then
                                       map_option (\<lambda>(kvs, q). ((k, v) # kvs, q)) (pmembers n r3)
                                     else if e = CHR ''}'' then Some ([(k, v)], r3)
                                     else None)))
                        else None)))
           else None))"

definition parse_json :: "string \<Rightarrow> json option" where
  "parse_json s =
     (case pvalue (2 * length s + 2) s of
        Some (v, r) \<Rightarrow> if skip_ws r = [] then Some v else None
      | None \<Rightarrow> None)"

subsection \<open>The fuel is enough\<close>

lemma skip_ws_length [simp]: "length (skip_ws s) \<le> length s"
  by (simp add: skip_ws_def length_dropWhile_le)

lemma skip_ws_Cons_length: "skip_ws s = c # t \<Longrightarrow> length t < length s"
  by (metis skip_ws_length length_Cons less_eq_Suc_le)

lemma parse_str_length: "parse_str s = Some (x, r) \<Longrightarrow> length r < length s"
proof (induction s arbitrary: x r rule: parse_str.induct)
  case (2 c s)
  show ?case
  proof (cases "c = CHR 0x5C")
    case True
    with 2 show ?thesis
      by (fastforce split: option.splits dest: parse_escape_length)
  next
    case False
    with 2 show ?thesis
      by (fastforce split: if_splits)
  qed
qed simp

lemma num_sign_split: "num_sign s = (x, r) \<Longrightarrow> s = x @ r"
  by (cases s) (auto simp: num_sign_def split: if_splits)

lemma num_int_split: "num_int s = Some (x, r) \<Longrightarrow> s = x @ r \<and> x \<noteq> []"
  by (auto simp: num_int_def Let_def split: if_splits)

lemma num_frac_split: "num_frac s = Some (x, r) \<Longrightarrow> s = x @ r"
  by (cases s) (auto simp: num_frac_def Let_def split: if_splits)

lemma num_exp_split: "num_exp s = Some (x, r) \<Longrightarrow> s = x @ r"
  by (cases s; cases "tl s") (auto simp: num_exp_def Let_def split: if_splits)

lemma parse_num_split: "parse_num s = Some (x, r) \<Longrightarrow> s = x @ r \<and> x \<noteq> []"
  by (auto simp: parse_num_def split: prod.splits option.splits
      dest!: num_sign_split num_int_split num_frac_split num_exp_split)

lemma parse_num_length: "parse_num s = Some (x, r) \<Longrightarrow> length r < length s"
  by (drule parse_num_split) auto

lemma pvalue_length:
  "pvalue n s = Some (v, r) \<Longrightarrow> length r < length s"
  "pelems n s = Some (vs, r) \<Longrightarrow> length r < length s"
  "pmembers n s = Some (kvs, r) \<Longrightarrow> length r < length s"
proof (induction n s and n s and n s arbitrary: v r and vs r and kvs r
    rule: pvalue_pelems_pmembers.induct)
  case (2 n s)
  show ?case
  proof (cases "skip_ws s")
    case Nil
    with 2 show ?thesis by simp
  next
    case (Cons c t)
    have ws: "length (skip_ws t) - Suc 0 < length s"
      using skip_ws_Cons_length [OF Cons] skip_ws_length [of t] by linarith
    from Cons 2 skip_ws_Cons_length [OF Cons] ws show ?thesis
      by (force split: if_splits dest: parse_str_length parse_num_length)
  qed
next
  case (4 n s)
  then show ?case
    by (auto split: option.splits list.splits if_splits dest!: skip_ws_Cons_length) fastforce+
next
  case (6 n s)
  then show ?case
    by (auto split: option.splits list.splits if_splits dest!: skip_ws_Cons_length parse_str_length)
      fastforce+
qed simp_all

text \<open>
  One step of each function looks at the recursive calls on shorter texts only, so two amounts of
  fuel that agree on those agree on the step.
\<close>

lemma pvalue_step:
  assumes "\<And>t. length t < length s \<Longrightarrow> pelems n t = pelems k t"
    and "\<And>t. length t < length s \<Longrightarrow> pmembers n t = pmembers k t"
  shows "pvalue (Suc n) s = pvalue (Suc k) s"
proof (cases "skip_ws s")
  case (Cons c t)
  from assms skip_ws_Cons_length [OF Cons] have "pelems n t = pelems k t" "pmembers n t = pmembers k t"
    by auto
  with Cons show ?thesis by simp
qed simp

lemma pelems_step:
  assumes "pvalue n s = pvalue k s"
    and "\<And>t. length t < length s \<Longrightarrow> pelems n t = pelems k t"
  shows "pelems (Suc n) s = pelems (Suc k) s"
proof -
  have "pelems n t = pelems k t" if "pvalue k s = Some (v, r)" "skip_ws r = c # t" for v r c t
    using that assms(2) [of t] pvalue_length(1) [of k s v r] skip_ws_Cons_length [of r c t] by simp
  with assms(1) show ?thesis
    by (auto split: option.split list.split)
qed

lemma pmembers_step:
  assumes "\<And>t. length t < length s \<Longrightarrow> pvalue n t = pvalue k t"
    and "\<And>t. length t < length s \<Longrightarrow> pmembers n t = pmembers k t"
  shows "pmembers (Suc n) s = pmembers (Suc k) s"
proof -
  have len: "length r1 < length s"
    if "skip_ws s = c # t" "parse_str t = Some (key, r)" "skip_ws r = d # r1" for c t key r d r1
    using that skip_ws_Cons_length [of s c t] parse_str_length [of t key r] skip_ws_Cons_length [of r d r1]
    by simp
  have v: "pvalue n r1 = pvalue k r1"
    if "skip_ws s = c # t" "parse_str t = Some (key, r)" "skip_ws r = d # r1" for c t key r d r1
    using len [OF that] by (rule assms(1))
  have m: "pmembers n r3 = pmembers k r3"
    if "skip_ws s = c # t" "parse_str t = Some (key, r)" "skip_ws r = d # r1"
      "pvalue k r1 = Some (v, r2)" "skip_ws r2 = e # r3" for c t key r d r1 v r2 e r3
    using len [OF that(1-3)] that pvalue_length(1) [of k r1 v r2] skip_ws_Cons_length [of r2 e r3]
    by (intro assms(2)) simp
  show ?thesis
    by (auto simp: v m split: option.split list.split)
qed

lemma parser_fuel:
  "(2 * length s + 1 \<le> n \<longrightarrow> 2 * length s + 1 \<le> m \<longrightarrow> pvalue n s = pvalue m s) \<and>
   (2 * length s + 2 \<le> n \<longrightarrow> 2 * length s + 2 \<le> m \<longrightarrow> pelems n s = pelems m s) \<and>
   (2 * length s + 1 \<le> n \<longrightarrow> 2 * length s + 1 \<le> m \<longrightarrow> pmembers n s = pmembers m s)"
proof (induction n arbitrary: m s)
  case 0
  then show ?case by simp
next
  case (Suc n)
  show ?case
  proof (cases m)
    case (Suc k)
    have shorter: "pvalue n t = pvalue k t \<and> pelems n t = pelems k t \<and> pmembers n t = pmembers k t"
      if "length t < length s" "2 * length s \<le> n" "2 * length s \<le> k" for t
      using Suc.IH [of t k] that by simp
    have "pvalue (Suc n) s = pvalue (Suc k) s" if "2 * length s \<le> n" "2 * length s \<le> k"
      using shorter that by (intro pvalue_step) blast+
    moreover have "pelems (Suc n) s = pelems (Suc k) s"
      if "2 * length s + 1 \<le> n" "2 * length s + 1 \<le> k"
      using shorter that Suc.IH [of s k] by (intro pelems_step) simp_all
    moreover have "pmembers (Suc n) s = pmembers (Suc k) s" if "2 * length s \<le> n" "2 * length s \<le> k"
      using shorter that by (intro pmembers_step) blast+
    ultimately show ?thesis by (simp del: pvalue.simps pelems.simps pmembers.simps add: Suc)
  qed simp
qed

text \<open>Any fuel of at least twice the length and one gives the parser's result.\<close>

lemma parse_json_fuel:
  assumes "2 * length s + 1 \<le> n"
  shows "parse_json s =
    (case pvalue n s of Some (v, r) \<Rightarrow> if skip_ws r = [] then Some v else None | None \<Rightarrow> None)"
proof -
  have "pvalue (2 * length s + 2) s = pvalue n s"
    using parser_fuel [of s "2 * length s + 2" n] assms by simp
  then show ?thesis by (simp only: parse_json_def)
qed

section \<open>Decoding\<close>

text \<open>
  The library's error texts are abbreviated: the program only prints them. Decoding a number into
  \<open>any\<close> makes a float64, which fails for a literal that rounds to infinity (from
  \<open>2^1024 - 2^970\<close> on, the midpoint between the largest float64 and \<open>2^1024\<close>).
\<close>

definition json_syntax_error :: go_error where
  "json_syntax_error = ErrNew ''invalid JSON''"

definition json_type_error :: go_error where
  "json_type_error = ErrNew ''json: cannot unmarshal value''"

definition digit_val :: "char \<Rightarrow> nat" where
  "digit_val c = (of_char c :: nat) - 48"

definition dec_val :: "string \<Rightarrow> nat" where
  "dec_val s = foldl (\<lambda>n c. 10 * n + digit_val c) 0 s"

definition float64_bound :: nat where
  "float64_bound = 2 ^ 1024 - 2 ^ 970"

lemma float64_bound_code [code]: "float64_bound = 179769313486231580793728971405303415079934132710037826936173778980444968292764750946649017977587207096330286416692887910946555547851940402630657488671505820681908902000708383676273854845817711531764475730270069855571366959622842914819860834936475292719074168444365510704342711559699508093042880177904174497792"
  by (simp add: float64_bound_def)

definition float64_ok :: "string \<Rightarrow> bool" where
  "float64_ok lit =
     (case num_int (snd (num_sign lit)) of
        None \<Rightarrow> False
      | Some (ip, r) \<Rightarrow>
          (case num_frac r of
             None \<Rightarrow> False
           | Some (fr, ex) \<Rightarrow>
               (let m = dec_val (ip @ drop 1 fr); es = drop 1 ex;
                    e = (if take 1 es = ''-'' then - int (dec_val (drop 1 es))
                         else if take 1 es = ''+'' then int (dec_val (drop 1 es)) else int (dec_val es));
                    k = e - int (length (drop 1 fr))
                in if m = 0 then True
                   else if 0 \<le> k then m * 10 ^ nat k < float64_bound
                   else m < float64_bound * 10 ^ nat (- k))))"

fun numbers_ok :: "json \<Rightarrow> bool" where
  "numbers_ok (JNum lit) = float64_ok lit"
| "numbers_ok (JArr vs) = list_all numbers_ok vs"
| "numbers_ok (JObj kvs) = list_all (\<lambda>(k, v). numbers_ok v) kvs"
| "numbers_ok _ = True"

text \<open>
  \<open>json.Unmarshal\<close> into a \<open>map[string]any\<close>: null gives the nil map, anything but an object is an
  error. A map is read by \<open>obj_get\<close>; the last of duplicate members counts.
\<close>

definition unmarshal_map :: "string \<Rightarrow> go_error + (string \<times> json) list" where
  "unmarshal_map s =
     (case parse_json s of
        None \<Rightarrow> Inl json_syntax_error
      | Some JNull \<Rightarrow> Inr []
      | Some (JObj kvs) \<Rightarrow> if numbers_ok (JObj kvs) then Inr kvs else Inl json_type_error
      | Some _ \<Rightarrow> Inl json_type_error)"

definition obj_get :: "(string \<times> json) list \<Rightarrow> string \<Rightarrow> json option" where
  "obj_get kvs k = map_of (rev kvs) k"

definition obj_keys :: "(string \<times> json) list \<Rightarrow> string list" where
  "obj_keys kvs = remdups (map fst kvs)"

lemma obj_get_None_iff: "obj_get kvs k = None \<longleftrightarrow> k \<notin> set (obj_keys kvs)"
  by (simp add: obj_get_def obj_keys_def map_of_eq_None_iff)

text \<open>
  \<open>json.Unmarshal\<close> into a struct: the members that reach the fields, and whether the document as
  a whole already failed (bad syntax: no field is touched; not an object: none is either).
\<close>

definition struct_members :: "string \<Rightarrow> (string \<times> json) list \<times> go_error option" where
  "struct_members s =
     (case parse_json s of
        None \<Rightarrow> ([], Some json_syntax_error)
      | Some JNull \<Rightarrow> ([], None)
      | Some (JObj kvs) \<Rightarrow> (kvs, None)
      | Some _ \<Rightarrow> ([], Some json_type_error))"

definition to_upper_char :: "char \<Rightarrow> char" where
  "to_upper_char c =
     (let n = (of_char c :: nat) in if 97 \<le> n \<and> n \<le> 122 then char_of (n - 32) else c)"

text \<open>Case folding of a member name; U+017F folds to S and U+212A to K.\<close>

fun fold_name :: "string \<Rightarrow> string" where
  "fold_name [] = []"
| "fold_name (c # s) =
     (if c = CHR 0xC5 \<and> take 1 s = [CHR 0xBF] then CHR ''S'' # fold_name (drop 1 s)
      else if c = CHR 0xE2 \<and> take 2 s = [CHR 0x84, CHR 0xAA] then CHR ''K'' # fold_name (drop 2 s)
      else to_upper_char c # fold_name s)"

definition field_matches :: "string \<Rightarrow> string \<Rightarrow> bool" where
  "field_matches f k = (k = f \<or> fold_name k = fold_name f)"

fun str_field :: "string \<Rightarrow> string \<Rightarrow> (string \<times> json) list \<Rightarrow> string" where
  "str_field f cur [] = cur"
| "str_field f cur ((k, v) # kvs) =
     str_field f (if field_matches f k then (case v of JStr x \<Rightarrow> x | _ \<Rightarrow> cur) else cur) kvs"

fun bool_field :: "string \<Rightarrow> bool \<Rightarrow> (string \<times> json) list \<Rightarrow> bool" where
  "bool_field f cur [] = cur"
| "bool_field f cur ((k, v) # kvs) =
     bool_field f (if field_matches f k then (case v of JBool b \<Rightarrow> b | _ \<Rightarrow> cur) else cur) kvs"

text \<open>\<open>strconv.ParseInt(lit, 10, 64)\<close> on a JSON number literal, and the check of the field's width.\<close>

definition parse_int :: "string \<Rightarrow> int option" where
  "parse_int lit =
     (let (sg, ds) = num_sign lit
      in if ds \<noteq> [] \<and> list_all is_digit ds
         then Some (if sg = [] then int (dec_val ds) else - int (dec_val ds))
         else None)"

definition int_value :: "nat \<Rightarrow> string \<Rightarrow> int option" where
  "int_value w lit =
     (case parse_int lit of
        Some i \<Rightarrow> if - (2 ^ (w - 1)) \<le> i \<and> i < 2 ^ (w - 1) then Some i else None
      | None \<Rightarrow> None)"

fun int_field :: "nat \<Rightarrow> string \<Rightarrow> int \<Rightarrow> (string \<times> json) list \<Rightarrow> int" where
  "int_field w f cur [] = cur"
| "int_field w f cur ((k, v) # kvs) =
     int_field w f
       (if field_matches f k
        then (case v of JNum lit \<Rightarrow> (case int_value w lit of Some i \<Rightarrow> i | None \<Rightarrow> cur) | _ \<Rightarrow> cur)
        else cur) kvs"

text \<open>Whether a member is refused by its field.\<close>

datatype field_type = FStr | FBool | FInt nat

fun field_accepts :: "field_type \<Rightarrow> json \<Rightarrow> bool" where
  "field_accepts t JNull = True"
| "field_accepts FStr (JStr _) = True"
| "field_accepts FBool (JBool _) = True"
| "field_accepts (FInt w) (JNum lit) = (int_value w lit \<noteq> None)"
| "field_accepts t v = False"

definition fields_error :: "(string \<times> field_type) list \<Rightarrow> (string \<times> json) list \<Rightarrow> bool" where
  "fields_error fs kvs =
     (\<not> list_all (\<lambda>(k, v). list_all (\<lambda>(f, t). field_matches f k \<longrightarrow> field_accepts t v) fs) kvs)"

text \<open>The error of \<open>json.Unmarshal(args, &in)\<close> for a struct with these fields.\<close>

definition unmarshal_err :: "(string \<times> field_type) list \<Rightarrow> string \<Rightarrow> go_error option" where
  "unmarshal_err fs s =
     (case struct_members s of
        (_, Some e) \<Rightarrow> Some e
      | (kvs, None) \<Rightarrow> if fields_error fs kvs then Some json_type_error else None)"

lemma int_field_range:
  assumes "- (2 ^ (w - 1)) \<le> cur" and "cur < 2 ^ (w - 1)"
  shows "- (2 ^ (w - 1)) \<le> int_field w f cur kvs \<and> int_field w f cur kvs < 2 ^ (w - 1)"
  using assms
  by (induction w f cur kvs rule: int_field.induct)
    (auto simp: int_value_def split: json.splits option.splits if_splits)

section \<open>Encoding\<close>

definition hex_digit :: "nat \<Rightarrow> char" where
  "hex_digit n = (if n < 10 then char_of (48 + n) else char_of (87 + n))"

text \<open>
  One byte of a string as \<open>json.Marshal\<close> writes it (with the HTML escapes); the two runes U+2028
  and U+2029 are escaped too.
\<close>

definition quote_char :: "char \<Rightarrow> string" where
  "quote_char c =
     (let n = (of_char c :: nat) in
      if c = CHR 0x22 \<or> c = CHR 0x5C then [CHR 0x5C, c]
      else if n = 8 then [CHR 0x5C, CHR ''b''] else if n = 12 then [CHR 0x5C, CHR ''f'']
      else if n = 10 then [CHR 0x5C, CHR ''n''] else if n = 13 then [CHR 0x5C, CHR ''r'']
      else if n = 9 then [CHR 0x5C, CHR ''t'']
      else if n < 32 \<or> c = CHR ''<'' \<or> c = CHR ''>'' \<or> c = CHR ''&''
        then [CHR 0x5C] @ ''u00'' @ [hex_digit (n div 16), hex_digit (n mod 16)]
      else [c])"

fun quote_body :: "string \<Rightarrow> string" where
  "quote_body [] = []"
| "quote_body (c # s) =
     (if c = CHR 0xE2 \<and> (take 2 s = [CHR 0x80, CHR 0xA8] \<or> take 2 s = [CHR 0x80, CHR 0xA9])
      then [CHR 0x5C] @ ''u202'' @ (if take 2 s = [CHR 0x80, CHR 0xA8] then ''8'' else ''9'')
             @ quote_body (drop 2 s)
      else quote_char c @ quote_body s)"

definition json_quote :: "string \<Rightarrow> string" where
  "json_quote s = [CHR 0x22] @ quote_body s @ [CHR 0x22]"

text \<open>
  \<open>json.RawMessage\<close> inside a \<open>json.Marshal\<close>: the text compacted (white space outside strings
  removed, the HTML characters escaped), an error if it is not valid JSON.
\<close>

fun compact_go :: "bool \<Rightarrow> string \<Rightarrow> string" where
  "compact_go q [] = []"
| "compact_go q (c # s) =
     (if q then
        (if c = CHR 0x5C then c # take 1 s @ compact_go True (drop 1 s)
         else if c = CHR 0x22 then c # compact_go False s
         else if c = CHR ''<'' \<or> c = CHR ''>'' \<or> c = CHR ''&'' then quote_char c @ compact_go True s
         else if c = CHR 0xE2 \<and> (take 2 s = [CHR 0x80, CHR 0xA8] \<or> take 2 s = [CHR 0x80, CHR 0xA9])
           then [CHR 0x5C] @ ''u202'' @ (if take 2 s = [CHR 0x80, CHR 0xA8] then ''8'' else ''9'')
             @ compact_go True (drop 2 s)
         else c # compact_go True s)
      else if json_ws c then compact_go False s
      else c # compact_go (c = CHR 0x22) s)"

definition compact :: "string \<Rightarrow> string option" where
  "compact s = (case parse_json s of None \<Rightarrow> None | Some _ \<Rightarrow> Some (compact_go False s))"

end
