(* ===== verification/JsonText.thy ===== *)
theory JsonText
  imports GoJson
begin

text \<open>
  What \<open>json.Marshal\<close> writes for the values the program stores and sends (a number is its literal)
  and the round trip through the parser: a JSON text reads back as the value it was made from.
\<close>

fun json_text :: "json \<Rightarrow> string" where
  "json_text JNull = ''null''"
| "json_text (JBool b) = (if b then ''true'' else ''false'')"
| "json_text (JNum lit) = lit"
| "json_text (JStr s) = json_quote s"
| "json_text (JArr vs) = ''['' @ join '','' (map json_text vs) @ '']''"
| "json_text (JObj kvs) =
     ''{'' @ join '','' (map (\<lambda>(k, v). json_quote k @ '':'' @ json_text v) kvs) @ ''}''"

fun no_numbers :: "json \<Rightarrow> bool" where
  "no_numbers (JNum _) = False"
| "no_numbers (JArr vs) = list_all no_numbers vs"
| "no_numbers (JObj kvs) = list_all (\<lambda>(k, v). no_numbers v) kvs"
| "no_numbers _ = True"

text \<open>Every number is a literal of the JSON grammar.\<close>

fun plain :: "json \<Rightarrow> bool" where
  "plain (JNum lit) = (parse_num lit = Some (lit, []))"
| "plain (JArr vs) = list_all plain vs"
| "plain (JObj kvs) = list_all (\<lambda>(k, v). plain v) kvs"
| "plain _ = True"

lemma no_numbers_plain: "no_numbers v \<Longrightarrow> plain v"
proof (induction v)
  case (JObj kvs)
  then show ?case by (fastforce simp: list_all_iff)
qed (auto simp: list_all_iff)

section \<open>Strings\<close>

lemma hex_val_digit: "n < 16 \<Longrightarrow> hex_val (hex_digit n) = Some n"
  by (simp add: hex_digit_def hex_val_def)

lemma hex_byte: "hex4 (CHR ''0'') (CHR ''0'') (hex_digit (of_char c div 16)) (hex_digit (of_char c mod 16)) = Some (of_char c)"
proof -
  have "of_char c div 16 < (16::nat)" using of_char_less_256 [of c] by (simp add: div_less_iff_less_mult)
  moreover have "hex_val (CHR ''0'') = Some 0" by (simp add: hex_val_def)
  ultimately show ?thesis by (simp add: hex4_def hex_val_digit)
qed

lemma utf8_separators:
  "utf8_encode 8232 = [CHR 0xE2, CHR 0x80, CHR 0xA8]" "utf8_encode 8233 = [CHR 0xE2, CHR 0x80, CHR 0xA9]"
  by code_simp+

lemma char_of_code:
  "(of_char c :: nat) = 8 \<Longrightarrow> c = CHR 0x08" "(of_char c :: nat) = 12 \<Longrightarrow> c = CHR 0x0C"
  "(of_char c :: nat) = 10 \<Longrightarrow> c = CHR 0x0A" "(of_char c :: nat) = 13 \<Longrightarrow> c = CHR 0x0D"
  "(of_char c :: nat) = 9 \<Longrightarrow> c = CHR 0x09"
  by (rule iffD1 [OF of_char_eq_iff [where ?'a = nat]], simp)+

lemma simple_escape_str:
  assumes "simple_escape e = Some c" "e \<noteq> CHR ''u''"
  shows "parse_str (CHR 0x5C # e # t) = map_option (\<lambda>(a, b). (c # a, b)) (parse_str t)"
proof -
  have "parse_escape (e # t) = Some ([c], t)"
    using assms by (auto simp: parse_escape_def split: list.splits)
  then show ?thesis by simp
qed

lemma quote_simple:
  "quote_char (CHR 0x22) = [CHR 0x5C, CHR 0x22] \<and> simple_escape (CHR 0x22) = Some (CHR 0x22) \<and> CHR 0x22 \<noteq> CHR ''u''"
  "quote_char (CHR 0x5C) = [CHR 0x5C, CHR 0x5C] \<and> simple_escape (CHR 0x5C) = Some (CHR 0x5C) \<and> CHR 0x5C \<noteq> CHR ''u''"
  "quote_char (CHR 0x08) = [CHR 0x5C, CHR ''b''] \<and> simple_escape (CHR ''b'') = Some (CHR 0x08) \<and> CHR ''b'' \<noteq> CHR ''u''"
  "quote_char (CHR 0x0C) = [CHR 0x5C, CHR ''f''] \<and> simple_escape (CHR ''f'') = Some (CHR 0x0C) \<and> CHR ''f'' \<noteq> CHR ''u''"
  "quote_char (CHR 0x0A) = [CHR 0x5C, CHR ''n''] \<and> simple_escape (CHR ''n'') = Some (CHR 0x0A) \<and> CHR ''n'' \<noteq> CHR ''u''"
  "quote_char (CHR 0x0D) = [CHR 0x5C, CHR ''r''] \<and> simple_escape (CHR ''r'') = Some (CHR 0x0D) \<and> CHR ''r'' \<noteq> CHR ''u''"
  "quote_char (CHR 0x09) = [CHR 0x5C, CHR ''t''] \<and> simple_escape (CHR ''t'') = Some (CHR 0x09) \<and> CHR ''t'' \<noteq> CHR ''u''"
  by (simp_all add: quote_char_def simple_escape_def)

lemma parse_str_quote_char:
  "parse_str (quote_char c @ t) = map_option (\<lambda>(a, b). (c # a, b)) (parse_str t)"
proof -
  let ?n = "of_char c :: nat"
  show ?thesis
  proof (cases "c = CHR 0x22 \<or> c = CHR 0x5C \<or> c = CHR 0x08 \<or> c = CHR 0x0C \<or> c = CHR 0x0A \<or> c = CHR 0x0D \<or> c = CHR 0x09")
    case True
    then obtain e where e: "quote_char c = [CHR 0x5C, e]" "simple_escape e = Some c" "e \<noteq> CHR ''u''"
      using quote_simple by metis
    from simple_escape_str [OF e(2,3)] show ?thesis by (simp only: e(1) append_Cons append_Nil)
  next
    case False
    then have n: "c \<noteq> CHR 0x22" "c \<noteq> CHR 0x5C" "?n \<noteq> 8" "?n \<noteq> 12" "?n \<noteq> 10" "?n \<noteq> 13" "?n \<noteq> 9"
      using char_of_code [of c] by metis+
    show ?thesis
    proof (cases "?n < 32 \<or> c = CHR ''<'' \<or> c = CHR ''>'' \<or> c = CHR ''&''")
    case True
    then have "?n < 128" by auto
    then have "parse_escape (''u00'' @ [hex_digit (?n div 16), hex_digit (?n mod 16)] @ t) = Some ([c], t)"
      using hex_byte [of c] by (simp add: parse_escape_def utf8_encode_def)
    moreover have "quote_char c = CHR 0x5C # ''u00'' @ [hex_digit (?n div 16), hex_digit (?n mod 16)]"
      using True by (simp only: quote_char_def Let_def n if_False if_True HOL.simp_thms) simp
    ultimately show ?thesis by simp
  next
    case False
    then have "quote_char c = [c]" by (simp add: quote_char_def n)
    with False n show ?thesis by simp
  qed
  qed
qed

lemma parse_str_quote_body: "parse_str (quote_body s @ CHR 0x22 # r) = Some (s, r)"
proof (induction s rule: quote_body.induct)
  case (2 c s)
  show ?case
  proof (cases "c = CHR 0xE2 \<and> (take 2 s = [CHR 0x80, CHR 0xA8] \<or> take 2 s = [CHR 0x80, CHR 0xA9])")
    case True
    then obtain x where x: "x = CHR ''8'' \<and> take 2 s = [CHR 0x80, CHR 0xA8] \<or>
        x = CHR ''9'' \<and> take 2 s = [CHR 0x80, CHR 0xA9]" by blast
    have q: "quote_body (c # s) = CHR 0x5C # ''u202'' @ x # quote_body (drop 2 s)" using True x by auto
    have "parse_escape (''u202'' @ x # quote_body (drop 2 s) @ CHR 0x22 # r) =
        Some (c # take 2 s, quote_body (drop 2 s) @ CHR 0x22 # r)"
      using True x by (auto simp: parse_escape_def hex4_def hex_val_def utf8_separators)
    moreover have "s = take 2 s @ drop 2 s" by simp
    ultimately show ?thesis using 2(1) [OF True] unfolding q by simp
  next
    case False
    then have "quote_body (c # s) = quote_char c @ quote_body s" by auto
    with 2(2) [OF False] show ?thesis by (simp add: parse_str_quote_char)
  qed
qed simp

section \<open>Values\<close>

text \<open>What follows a value in a text: nothing, a comma or a closing bracket.\<close>

definition delimited :: "string \<Rightarrow> bool" where
  "delimited r \<longleftrightarrow> r = [] \<or> hd r \<in> {CHR '','', CHR '']'', CHR ''}''}"

lemma delimited_simps [simp]:
  "delimited []" "delimited (CHR '','' # r)" "delimited (CHR '']'' # r)" "delimited (CHR ''}'' # r)"
  by (simp_all add: delimited_def)

lemma digits_delimited:
  assumes "delimited r"
  shows "takeWhile is_digit (s @ r) = takeWhile is_digit s \<and> dropWhile is_digit (s @ r) = dropWhile is_digit s @ r"
  using assms by (cases r; induction s) (auto simp: delimited_def is_digit_def)

lemma parse_num_delimited:
  assumes "parse_num s = Some (x, t)" and r: "delimited r"
  shows "parse_num (s @ r) = Some (x, t @ r)"
proof -
  note d = digits_delimited [OF r]
  have h: "take 1 r \<noteq> [c]" if "c \<notin> {CHR '','', CHR '']'', CHR ''}''}" for c
    using r that by (cases r) (auto simp: delimited_def)
  have sign: "num_sign (s @ r) = (sg, t @ r)" if "num_sign s = (sg, t)" "t \<noteq> []" for sg s t
    using that by (cases s) (auto simp: num_sign_def split: if_splits)
  have int: "num_int (s @ r) = Some (ip, t @ r)" if "num_int s = Some (ip, t)" for ip s t
    using that by (auto simp: num_int_def d Let_def split: if_splits)
  have frac: "num_frac (s @ r) = Some (fr, t @ r)" if "num_frac s = Some (fr, t)" for fr s t
    using that h [of "CHR ''.''"] by (cases s) (auto simp: num_frac_def d Let_def split: if_splits)
  have exp: "num_exp (s @ r) = Some (ex, t @ r)" if "num_exp s = Some (ex, t)" for ex s t
  proof (cases s)
    case Nil
    then show ?thesis using that h [of "CHR ''e''"] h [of "CHR ''E''"] by (auto simp: num_exp_def)
  next
    case (Cons c u)
    have "take 1 (u @ r) = take 1 u \<or> u = []" by (cases u) auto
    then show ?thesis using that Cons h [of "CHR ''+''"] h [of "CHR ''-''"] d
      by (cases u) (auto simp: num_exp_def Let_def split: if_splits)
  qed
  from assms(1) obtain sg s1 ip s2 fr s3 ex where p: "num_sign s = (sg, s1)" "num_int s1 = Some (ip, s2)"
    "num_frac s2 = Some (fr, s3)" "num_exp s3 = Some (ex, t)" "x = sg @ ip @ fr @ ex"
    by (auto simp: parse_num_def split: prod.splits option.splits)
  from p(2) have "s1 \<noteq> []" by (auto simp: num_int_def)
  with p sign [OF p(1)] int [OF p(2)] frac [OF p(3)] exp [OF p(4)] show ?thesis by (simp add: parse_num_def)
qed

lemma parse_num_start:
  assumes "parse_num s = Some (x, t)"
  obtains c u where "s = c # u" "c = CHR ''-'' \<or> is_digit c"
proof -
  from assms obtain sg s1 ip s2 where p: "num_sign s = (sg, s1)" "num_int s1 = Some (ip, s2)"
    by (auto simp: parse_num_def split: prod.splits option.splits)
  from p(2) obtain d u where "s1 = d # u" "is_digit d"
    by (cases s1) (auto simp: num_int_def Let_def split: if_splits)
  with p(1) that show ?thesis by (cases s) (auto simp: num_sign_def split: if_splits)
qed

text \<open>With enough fuel the parser reads back a value, whatever follows it.\<close>

definition reads :: "string \<Rightarrow> json \<Rightarrow> bool" where
  "reads txt v \<longleftrightarrow> (\<forall>r. delimited r \<longrightarrow> (\<exists>N. \<forall>n \<ge> N. pvalue n (txt @ r) = Some (v, r)))"

lemma readsD: "reads txt v \<Longrightarrow> delimited r \<Longrightarrow> \<exists>N. \<forall>n \<ge> N. pvalue n (txt @ r) = Some (v, r)"
  by (simp add: reads_def)

lemma skip_ws_nonws [simp]: "\<not> json_ws c \<Longrightarrow> skip_ws (c # s) = c # s"
  by (simp add: skip_ws_def)

lemma json_ws_simps [simp]:
  "\<not> json_ws (CHR ''{'')" "\<not> json_ws (CHR ''['')" "\<not> json_ws (CHR '']'')" "\<not> json_ws (CHR ''}'')"
  "\<not> json_ws (CHR '','')" "\<not> json_ws (CHR '':'')" "\<not> json_ws (CHR 0x22)"
  "\<not> json_ws (CHR ''t'')" "\<not> json_ws (CHR ''f'')" "\<not> json_ws (CHR ''n'')"
  by (simp_all add: json_ws_def)

lemma reads_atoms:
  "reads ''null'' JNull" "reads ''true'' (JBool True)" "reads ''false'' (JBool False)"
  unfolding reads_def by (intro allI impI exI [of _ 1]; case_tac n; simp)+

lemma reads_quote: "reads (json_quote s) (JStr s)"
  unfolding reads_def
  by (intro allI impI exI [of _ 1]; case_tac n)
    (simp_all add: json_quote_def parse_str_quote_body)

lemma reads_num: "parse_num lit = Some (lit, []) \<Longrightarrow> reads lit (JNum lit)"
proof -
  assume p: "parse_num lit = Some (lit, [])"
  then obtain c u where c: "lit = c # u" "c = CHR ''-'' \<or> is_digit c" by (rule parse_num_start)
  have "\<not> json_ws c \<and> c \<notin> {CHR ''{'', CHR ''['', CHR 0x22, CHR ''t'', CHR ''f'', CHR ''n''}"
    using c(2) by (auto simp: json_ws_def is_digit_def)
  then have "pvalue (Suc n) (lit @ r) = Some (JNum lit, r)" if "delimited r" for n r
    using parse_num_delimited [OF p that] c(1) by simp
  then show ?thesis unfolding reads_def by (metis Suc_le_D le_refl)
qed

text \<open>Every text of a value starts with a character that is neither white space nor a closing bracket.\<close>

lemma json_text_start:
  "plain v \<Longrightarrow> \<exists>c t. json_text v = c # t \<and> \<not> json_ws c \<and> c \<noteq> CHR '']'' \<and> c \<noteq> CHR ''}''"
proof (cases v)
  case (JNum lit)
  moreover assume "plain v"
  ultimately obtain c u where "lit = c # u" "c = CHR ''-'' \<or> is_digit c" by (auto elim: parse_num_start)
  with JNum show ?thesis by (auto simp: json_ws_def is_digit_def)
qed (auto simp: json_quote_def)

lemma join_start: "join sep (x # xs) = x @ (if xs = [] then [] else sep @ join sep xs)"
  by (cases xs) simp_all

lemma reads_elems:
  assumes "list_all2 reads txts vs" "vs \<noteq> []"
  shows "\<exists>N. \<forall>n \<ge> N. pelems n (join '','' txts @ '']'' @ r) = Some (vs, r)"
  using assms
proof (induction txts vs rule: list_all2_induct)
  case (Cons x xs v vs)
  show ?case
  proof (cases vs)
    case Nil
    with Cons have xs: "xs = []" by simp
    from Cons(1) obtain N where N: "\<And>n. n \<ge> N \<Longrightarrow> pvalue n (x @ '']'' @ r) = Some (v, '']'' @ r)"
      using readsD [of x v "'']'' @ r"] by auto
    have "pelems n (x @ '']'' @ r) = Some ([v], r)" if "n \<ge> Suc N" for n
      using that N [of "n - 1"] by (cases n) simp_all
    with Nil xs show ?thesis by auto
  next
    case (Cons v' vs')
    then have ne: "vs \<noteq> []" "xs \<noteq> []" using Cons.hyps(2) by (auto dest: list_all2_lengthD)
    let ?rest = "join '','' xs @ '']'' @ r"
    from Cons.hyps(1) obtain N where N: "\<And>n. n \<ge> N \<Longrightarrow> pvalue n (x @ '','' @ ?rest) = Some (v, '','' @ ?rest)"
      using readsD [of x v "'','' @ ?rest"] by auto
    from Cons.IH [OF ne(1)] obtain M where M: "\<And>n. n \<ge> M \<Longrightarrow> pelems n ?rest = Some (vs, r)" by blast
    have "pelems n (x @ '','' @ ?rest) = Some (v # vs, r)" if "n \<ge> Suc (max N M)" for n
      using that N [of "n - 1"] M [of "n - 1"] by (cases n) simp_all
    then show ?thesis using ne by (intro exI [of _ "Suc (max N M)"]) (simp add: join_start)
  qed
qed simp

definition member_text :: "string \<times> json \<Rightarrow> string" where
  "member_text = (\<lambda>(k, v). json_quote k @ '':'' @ json_text v)"

lemma reads_members:
  assumes "list_all (\<lambda>(k, v). reads (json_text v) v) kvs" "kvs \<noteq> []"
  shows "\<exists>N. \<forall>n \<ge> N. pmembers n (join '','' (map member_text kvs) @ ''}'' @ r) = Some (kvs, r)"
  using assms
proof (induction kvs)
  case (Cons kv kvs)
  obtain k v where kv: "kv = (k, v)" by fastforce
  show ?case
  proof (cases "kvs = []")
    case True
    from Cons.prems kv obtain N where N: "\<And>n. n \<ge> N \<Longrightarrow> pvalue n (json_text v @ ''}'' @ r) = Some (v, ''}'' @ r)"
      using readsD [of "json_text v" v "''}'' @ r"] by auto
    have "pmembers n (member_text kv @ ''}'' @ r) = Some ([kv], r)" if "n \<ge> Suc N" for n
      using that N [of "n - 1"] by (cases n) (simp_all add: kv member_text_def json_quote_def parse_str_quote_body)
    with True show ?thesis by auto
  next
    case False
    let ?rest = "join '','' (map member_text kvs) @ ''}'' @ r"
    from Cons.prems kv obtain N where N: "\<And>n. n \<ge> N \<Longrightarrow> pvalue n (json_text v @ '','' @ ?rest) = Some (v, '','' @ ?rest)"
      using readsD [of "json_text v" v "'','' @ ?rest"] by auto
    from Cons False obtain M where M: "\<And>n. n \<ge> M \<Longrightarrow> pmembers n ?rest = Some (kvs, r)" by auto
    have "pmembers n (member_text kv @ '','' @ ?rest) = Some (kv # kvs, r)" if "n \<ge> Suc (max N M)" for n
      using that N [of "n - 1"] M [of "n - 1"]
      by (cases n) (simp_all add: kv member_text_def json_quote_def parse_str_quote_body)
    then show ?thesis using False by (intro exI [of _ "Suc (max N M)"]) (simp add: join_start)
  qed
qed simp

lemma reads_array:
  assumes "list_all plain vs" "\<And>v. v \<in> set vs \<Longrightarrow> reads (json_text v) v"
  shows "reads (json_text (JArr vs)) (JArr vs)"
proof (cases vs)
  case Nil
  then show ?thesis unfolding reads_def by (intro allI impI exI [of _ 1]; case_tac n; simp)
next
  case (Cons w ws)
  then have w: "plain w" using assms(1) by simp
  obtain c t where ct: "json_text w = c # t" "\<not> json_ws c" "c \<noteq> CHR '']''"
    using json_text_start [OF w] by blast
  have "list_all2 reads (map json_text vs) vs"
    using assms(2) by (auto simp: list_all2_conv_all_nth)
  then have E: "\<exists>N. \<forall>n \<ge> N. pelems n (join '','' (map json_text vs) @ '']'' @ r) = Some (vs, r)" for r
    using Cons by (intro reads_elems) simp_all
  have start: "join '','' (map json_text vs) = c # t @ (if ws = [] then [] else '','' @ join '','' (map json_text ws))"
    using Cons ct by (simp add: join_start)
  show ?thesis
    unfolding reads_def
  proof (intro allI impI)
    fix r
    obtain N where N: "\<And>n. n \<ge> N \<Longrightarrow> pelems n (join '','' (map json_text vs) @ '']'' @ r) = Some (vs, r)"
      using E by blast
    have "pvalue n (json_text (JArr vs) @ r) = Some (JArr vs, r)" if "n \<ge> Suc N" for n
      using that N [of "n - 1"] ct start by (cases n) simp_all
    then show "\<exists>N. \<forall>n \<ge> N. pvalue n (json_text (JArr vs) @ r) = Some (JArr vs, r)" by blast
  qed
qed

lemma reads_object:
  assumes "\<And>k v. (k, v) \<in> set kvs \<Longrightarrow> reads (json_text v) v"
  shows "reads (json_text (JObj kvs)) (JObj kvs)"
proof (cases kvs)
  case Nil
  then show ?thesis unfolding reads_def by (intro allI impI exI [of _ 1]; case_tac n; simp)
next
  case (Cons kv kvs')
  have obj: "json_text (JObj kvs) = ''{'' @ join '','' (map member_text kvs) @ ''}''"
    by (simp add: member_text_def)
  obtain t where start: "join '','' (map member_text kvs) = CHR 0x22 # t"
    using Cons by (cases kv) (auto simp: join_start member_text_def json_quote_def)
  have E: "\<exists>N. \<forall>n \<ge> N. pmembers n (join '','' (map member_text kvs) @ ''}'' @ r) = Some (kvs, r)" for r
    using assms Cons by (intro reads_members) (auto simp: list_all_iff)
  show ?thesis
    unfolding reads_def obj
  proof (intro allI impI)
    fix r
    obtain N where N: "\<And>n. n \<ge> N \<Longrightarrow> pmembers n (join '','' (map member_text kvs) @ ''}'' @ r) = Some (kvs, r)"
      using E by blast
    have "pvalue n ((''{'' @ join '','' (map member_text kvs) @ ''}'') @ r) = Some (JObj kvs, r)" if "n \<ge> Suc N" for n
      using that N [of "n - 1"] start by (cases n) simp_all
    then show "\<exists>N. \<forall>n \<ge> N. pvalue n ((''{'' @ join '','' (map member_text kvs) @ ''}'') @ r) = Some (JObj kvs, r)"
      by blast
  qed
qed

lemma reads_json_text: "plain v \<Longrightarrow> reads (json_text v) v"
proof (induction v)
  case (JBool b)
  then show ?case by (cases b) (simp_all add: reads_atoms)
next
  case (JArr vs)
  then show ?case by (intro reads_array) (auto simp: list_all_iff)
next
  case (JObj kvs)
  then show ?case by (intro reads_object) (fastforce simp: list_all_iff)
qed (simp_all add: reads_atoms reads_quote reads_num)

theorem parse_plain_text: "plain v \<Longrightarrow> parse_json (json_text v) = Some v"
proof -
  assume "plain v"
  then obtain N where "\<forall>n \<ge> N. pvalue n (json_text v @ []) = Some (v, [])"
    using reads_json_text delimited_simps(1) unfolding reads_def by blast
  then have "pvalue (N + (2 * length (json_text v) + 1)) (json_text v) = Some (v, [])"
    by (metis append_Nil2 le_add1)
  then show ?thesis
    using parse_json_fuel [of "json_text v" "N + (2 * length (json_text v) + 1)"] by (simp add: skip_ws_def)
qed

lemma parse_json_text: "no_numbers v \<Longrightarrow> parse_json (json_text v) = Some v"
  by (rule parse_plain_text) (rule no_numbers_plain)

section \<open>Number literals\<close>

lemma show_nat_digits: "show_nat n \<noteq> [] \<and> list_all is_digit (show_nat n) \<and> (take 1 (show_nat n) = ''0'' \<longrightarrow> n = 0)"
proof (induction n rule: show_nat.induct)
  case (1 n)
  have digit: "is_digit (char_of (48 + k))" if "k < 10" for k :: nat using that by (simp add: is_digit_def)
  show ?case
  proof (cases "n < 10")
    case True
    have "n = 0" if "char_of (48 + n) = CHR ''0''"
    proof -
      from that have "(of_char (char_of (48 + n)) :: nat) = of_char (CHR ''0'')" by simp
      then show "n = 0" using True by simp
    qed
    with True show ?thesis by (subst (1 2 3) show_nat.simps) (auto simp: digit)
  next
    case False
    then have e: "show_nat n = show_nat (n div 10) @ [char_of (48 + n mod 10)]" by (subst show_nat.simps) simp
    have "n div 10 \<noteq> 0" using False by auto
    with 1 False have "show_nat (n div 10) \<noteq> []" "list_all is_digit (show_nat (n div 10))" "take 1 (show_nat (n div 10)) \<noteq> ''0''" by auto
    then show ?thesis unfolding e by (cases "show_nat (n div 10)") (auto simp: digit)
  qed
qed

lemma takeWhile_all: "list_all P xs \<Longrightarrow> takeWhile P xs = xs \<and> dropWhile P xs = []"
  by (induction xs) auto

lemma show_nat_literal:
  "takeWhile is_digit (show_nat n) = show_nat n" "dropWhile is_digit (show_nat n) = []"
  "1 < length (show_nat n) \<longrightarrow> take 1 (show_nat n) \<noteq> ''0''" "num_sign (show_nat n @ s) = ([], show_nat n @ s)"
proof -
  note d = show_nat_digits [of n]
  show tw: "takeWhile is_digit (show_nat n) = show_nat n" "dropWhile is_digit (show_nat n) = []"
    using d takeWhile_all [of is_digit "show_nat n"] by blast+
  have "length (show_nat n) = 1" if "n = 0" using that by (subst show_nat.simps) simp
  with d show "1 < length (show_nat n) \<longrightarrow> take 1 (show_nat n) \<noteq> ''0''" by auto
  show "num_sign (show_nat n @ s) = ([], show_nat n @ s)"
    using d by (cases "show_nat n") (auto simp: num_sign_def is_digit_def)
qed

lemma num_int_show_nat: "num_int (show_nat n) = Some (show_nat n, [])"
  unfolding num_int_def Let_def show_nat_literal(1,2) using show_nat_digits [of n] show_nat_literal(3) [of n] by auto

lemma plain_int [simp]: "plain (JNum (show_int i))"
proof -
  have "parse_num (show_nat n) = Some (show_nat n, [])" for n
    using show_nat_literal(4) [of n "[]"] by (simp add: parse_num_def num_int_show_nat num_frac_def num_exp_def)
  moreover have "parse_num (CHR ''-'' # show_nat n) = Some (CHR ''-'' # show_nat n, [])" for n
    by (simp add: parse_num_def num_sign_def num_int_show_nat num_frac_def num_exp_def)
  ultimately show ?thesis by (simp add: show_int_def)
qed

end
