(* ===== verification/ToolApi.thy ===== *)
theory ToolApi
  imports GoJson
begin

text \<open>
  The tool contract (internal/tools/tool.go), the schema check of the arguments
  (internal/tools/validate.go) and the two non-interactive approvers
  (internal/tools/approval.go).

  A call with effects takes the outside world, a type variable \<open>'w\<close>, and returns the new one;
  the context's cancellation is part of that world. \<open>RawArgs\<close> are the bytes the model produced.
\<close>

section \<open>Tools (tool.go)\<close>

datatype RiskLevel = Read | Mutate | Destructive

instantiation RiskLevel :: linorder
begin

fun risk_rank :: "RiskLevel \<Rightarrow> nat" where
  "risk_rank Read = 0"
| "risk_rank Mutate = 1"
| "risk_rank Destructive = 2"

definition less_eq_RiskLevel :: "RiskLevel \<Rightarrow> RiskLevel \<Rightarrow> bool" where
  "less_eq_RiskLevel a b = (risk_rank a \<le> risk_rank b)"

definition less_RiskLevel :: "RiskLevel \<Rightarrow> RiskLevel \<Rightarrow> bool" where
  "less_RiskLevel a b = (risk_rank a < risk_rank b)"

instance
proof
  fix a b c :: RiskLevel
  show "a \<le> b \<Longrightarrow> b \<le> a \<Longrightarrow> a = b"
    by (cases a; cases b) (auto simp: less_eq_RiskLevel_def)
qed (auto simp: less_eq_RiskLevel_def less_RiskLevel_def)

end

lemmas risk_order = less_eq_RiskLevel_def less_RiskLevel_def

fun RiskLevel_String :: "RiskLevel \<Rightarrow> string" where
  "RiskLevel_String Read = ''read''"
| "RiskLevel_String Mutate = ''mutate''"
| "RiskLevel_String Destructive = ''destructive''"

type_synonym RawArgs = string

text \<open>\<open>Data\<close>, structured output that no code of the repository reads, is left out.\<close>

record Result =
  res_Summary :: string
  res_ModelView :: string
  res_Diff :: string
  res_RollbackRef :: string

definition empty_Result :: Result where
  "empty_Result = \<lparr>res_Summary = [], res_ModelView = [], res_Diff = [], res_RollbackRef = []\<rparr>"

type_synonym schema = "(string \<times> json) list"

record 'w Tool =
  t_Name :: string
  t_Description :: string
  t_Schema :: schema
  t_Risk :: RiskLevel
  t_Execute :: "RawArgs \<Rightarrow> bool \<Rightarrow> 'w \<Rightarrow> (Result \<times> go_error option) \<times> 'w"

definition Mutating :: "'w Tool \<Rightarrow> bool" where
  "Mutating t = (Mutate \<le> t_Risk t)"

lemma Mutating_iff [simp]: "Mutating t \<longleftrightarrow> t_Risk t \<noteq> Read"
  by (cases "t_Risk t") (auto simp: Mutating_def risk_order)

record Declaration =
  d_Name :: string
  d_Description :: string
  d_Schema :: schema

definition Spec :: "'w Tool \<Rightarrow> Declaration" where
  "Spec t = \<lparr>d_Name = t_Name t, d_Description = t_Description t, d_Schema = t_Schema t\<rparr>"

section \<open>Schema check (validate.go)\<close>

fun typeMatches :: "string \<Rightarrow> json \<Rightarrow> bool" where
  "typeMatches want v =
     (if want = ''string'' then (case v of JStr _ \<Rightarrow> True | _ \<Rightarrow> False)
      else if want = ''number'' \<or> want = ''integer'' then (case v of JNum _ \<Rightarrow> True | _ \<Rightarrow> False)
      else if want = ''boolean'' then (case v of JBool _ \<Rightarrow> True | _ \<Rightarrow> False)
      else if want = ''object'' then (case v of JObj _ \<Rightarrow> True | _ \<Rightarrow> False)
      else if want = ''array'' then (case v of JArr _ \<Rightarrow> True | _ \<Rightarrow> False)
      else True)"

definition go_quote :: "string \<Rightarrow> string" where
  "go_quote s = [CHR 0x22] @ s @ [CHR 0x22]"

text \<open>\<open>name, _ := r.(string)\<close>: the empty string if \<open>r\<close> is not one.\<close>

definition as_string :: "json option \<Rightarrow> string" where
  "as_string v = (case v of Some (JStr s) \<Rightarrow> s | _ \<Rightarrow> [])"

definition required_fields :: "schema \<Rightarrow> string list" where
  "required_fields sch =
     (case obj_get sch ''required'' of Some (JArr rs) \<Rightarrow> map (\<lambda>r. as_string (Some r)) rs | _ \<Rightarrow> [])"

text \<open>The declared type of a property: empty when the schema says nothing about it.\<close>

definition wanted_type :: "schema \<Rightarrow> string \<Rightarrow> string" where
  "wanted_type sch name =
     (case obj_get sch ''properties'' of
        Some (JObj props) \<Rightarrow>
          (case obj_get props name of
             Some (JObj spec) \<Rightarrow> as_string (obj_get spec ''type'')
           | _ \<Rightarrow> [])
      | _ \<Rightarrow> [])"

definition field_ok :: "schema \<Rightarrow> (string \<times> json) list \<Rightarrow> string \<Rightarrow> bool" where
  "field_ok sch obj name =
     (wanted_type sch name = [] \<or>
      (case obj_get obj name of Some v \<Rightarrow> typeMatches (wanted_type sch name) v | None \<Rightarrow> True))"

text \<open>
  Go visits the members of \<open>obj\<close> in no fixed order, so which of several ill-typed fields the
  message names is not determined; whether there is an error is (\<open>validateArgs_ok_iff\<close>).
\<close>

definition validateArgs :: "schema \<Rightarrow> RawArgs \<Rightarrow> go_error option" where
  "validateArgs sch args =
     (let args = (if length args = 0 then ''{}'' else args)
      in case unmarshal_map args of
           Inl e \<Rightarrow> Some (errorf_prefix ''args are not a JSON object'' e)
         | Inr obj \<Rightarrow>
             (case find (\<lambda>name. obj_get obj name = None) (required_fields sch) of
                Some name \<Rightarrow> Some (ErrNew (''missing required field '' @ go_quote name))
              | None \<Rightarrow>
                  (case find (\<lambda>name. \<not> field_ok sch obj name) (obj_keys obj) of
                     Some name \<Rightarrow>
                       Some (ErrNew (''field '' @ go_quote name @ '' must be '' @ wanted_type sch name))
                   | None \<Rightarrow> None)))"

text \<open>What acceptance means, without the order of the checks.\<close>

definition args_accepted :: "schema \<Rightarrow> (string \<times> json) list \<Rightarrow> bool" where
  "args_accepted sch obj \<longleftrightarrow>
     (\<forall>name \<in> set (required_fields sch). \<exists>v. obj_get obj name = Some v) \<and>
     (\<forall>name v. obj_get obj name = Some v \<longrightarrow> wanted_type sch name \<noteq> [] \<longrightarrow>
        typeMatches (wanted_type sch name) v)"

lemma field_ok_iff:
  "(\<forall>name \<in> set (obj_keys obj). field_ok sch obj name) \<longleftrightarrow>
   (\<forall>name v. obj_get obj name = Some v \<longrightarrow> wanted_type sch name \<noteq> [] \<longrightarrow>
      typeMatches (wanted_type sch name) v)"
proof -
  have "name \<in> set (obj_keys obj) \<longleftrightarrow> obj_get obj name \<noteq> None" for name
    using obj_get_None_iff by metis
  then show ?thesis
    by (auto simp del: typeMatches.simps simp: field_ok_def split: option.splits)
qed

lemma validateArgs_ok_iff:
  "validateArgs sch args = None \<longleftrightarrow>
     (\<exists>obj. unmarshal_map (if args = [] then ''{}'' else args) = Inr obj \<and> args_accepted sch obj)"
proof -
  have req: "(\<forall>name \<in> set rs. \<exists>v. obj_get obj name = Some v)
      \<longleftrightarrow> (\<forall>name \<in> set rs. obj_get obj name \<noteq> None)" for rs obj
    by auto
  show ?thesis
    unfolding args_accepted_def field_ok_iff [symmetric] validateArgs_def Let_def req
    by (cases "unmarshal_map (if args = [] then ''{}'' else args)") simp_all
qed

section \<open>Approvers (approval.go)\<close>

record ApprovalRequest =
  req_Tool :: string
  req_Cluster :: string
  req_Args :: RawArgs
  req_Diff :: string
  req_Risk :: RiskLevel
  req_BlastRadius :: string

type_synonym 'w Approver = "ApprovalRequest \<Rightarrow> 'w \<Rightarrow> (bool \<times> string \<times> go_error option) \<times> 'w"

abbreviation ErrNotApproved :: go_error where "ErrNotApproved \<equiv> Sentinel ''not approved''"

record 'w AutoApprover =
  aa_Classes :: "string list"
  aa_Fallback :: "'w Approver option"

definition AutoApprover_matches :: "'w AutoApprover \<Rightarrow> string \<Rightarrow> bool" where
  "AutoApprover_matches a tool = list_ex (\<lambda>c. str_contains tool c) (aa_Classes a)"

definition AutoApprover_Approve :: "'w AutoApprover \<Rightarrow> 'w Approver" where
  "AutoApprover_Approve a req w =
     (if req_Risk req < Destructive \<and> req_BlastRadius req = ''namespace''
         \<and> AutoApprover_matches a (req_Tool req)
      then ((True, ''auto-approver'', None), w)
      else (case aa_Fallback a of
              Some fb \<Rightarrow> fb req w
            | None \<Rightarrow> ((False, [], Some ErrNotApproved), w)))"

definition DenyAll_Approve :: "'w Approver" where
  "DenyAll_Approve req w = ((False, [], Some ErrNotApproved), w)"

lemma AutoApprover_delegates:
  assumes "req_Risk req = Destructive \<or> req_BlastRadius req \<noteq> ''namespace''
     \<or> \<not> (\<exists>c \<in> set (aa_Classes a). str_contains (req_Tool req) c)"
  shows "AutoApprover_Approve a req w =
    (case aa_Fallback a of Some fb \<Rightarrow> fb req w | None \<Rightarrow> DenyAll_Approve req w)"
  using assms
  by (auto simp: AutoApprover_Approve_def AutoApprover_matches_def DenyAll_Approve_def
      list_ex_iff risk_order split: option.splits)

section \<open>Properties\<close>


text \<open>C33: The auto-approver never decides by itself on a destructive call, on one whose blast radius is wider than
  a namespace, or on a tool of no configured class: it hands the request to its fallback, and without
  a fallback it refuses.\<close>

theorem auto_approver_is_confined:
  assumes "req_Risk req = Destructive \<or> req_BlastRadius req \<noteq> ''namespace''
     \<or> \<not> (\<exists>c \<in> set (aa_Classes a). str_contains (req_Tool req) c)"
  shows "AutoApprover_Approve a req w =
    (case aa_Fallback a of Some fb \<Rightarrow> fb req w | None \<Rightarrow> DenyAll_Approve req w)"
  using assms by (rule AutoApprover_delegates)

definition demo_auto_approver :: "unit AutoApprover" where
  "demo_auto_approver = \<lparr>aa_Classes = [''scale''], aa_Fallback = None\<rparr>"

theorem auto_approver_is_confined_witness:
  "AutoApprover_Approve demo_auto_approver
     \<lparr>req_Tool = ''kubectl_scale'', req_Cluster = [], req_Args = [], req_Diff = [], req_Risk = Mutate,
      req_BlastRadius = ''cluster''\<rparr> () = ((False, [], Some ErrNotApproved), ())"
  by (subst auto_approver_is_confined) (simp_all add: demo_auto_approver_def DenyAll_Approve_def)

end
