(* ===== verification/Registry.thy ===== *)
theory Registry
  imports ToolApi
begin

text \<open>
  The tool registry and its dispatch chain (internal/tools/registry.go): the one path by which the
  agent affects the world. \<open>Dispatch\<close> is split at the numbered comments of the Go function.

  The state of a dispatch is the outside world and a trace: the list of calls made on the
  collaborators (policy, tool, approver, audit sink, observer). The trace is written and never
  read; it is what the ordering properties are about. \<open>clk\<close> reads the clock of the world.
  The Go map of tools is an association list from names to tools.
\<close>

section \<open>Collaborators\<close>

abbreviation ErrUnknownTool :: go_error where "ErrUnknownTool \<equiv> Sentinel ''unknown tool''"
abbreviation ErrNotEnabled :: go_error where
  "ErrNotEnabled \<equiv> Sentinel ''tool not enabled for this session''"
abbreviation ErrReadOnly :: go_error where
  "ErrReadOnly \<equiv> Sentinel ''mutating tool blocked: session is read-only''"
abbreviation ErrDenied :: go_error where "ErrDenied \<equiv> Sentinel ''denied by policy''"

record PolicyDecision =
  pd_Allow :: bool
  pd_RequireApproval :: bool
  pd_Reason :: string
  pd_BlastRadius :: string

definition zero_PolicyDecision :: PolicyDecision where
  "zero_PolicyDecision =
     \<lparr>pd_Allow = False, pd_RequireApproval = False, pd_Reason = [], pd_BlastRadius = []\<rparr>"

record AuditEntry =
  ae_When :: int
  ae_SessionID :: string
  ae_Tool :: string
  ae_Cluster :: string
  ae_Risk :: RiskLevel
  ae_Args :: RawArgs
  ae_Diff :: string
  ae_Approver :: string
  ae_DryRun :: bool
  ae_Status :: string
  ae_Summary :: string
  ae_Duration :: int

record SessionPolicy =
  sp_SessionID :: string
  sp_Mode :: string
  sp_Enabled :: "string list"
  sp_Cluster :: string
  sp_DryRunFirst :: bool

type_synonym 'w PolicyCheck =
  "'w Tool \<Rightarrow> RawArgs \<Rightarrow> 'w \<Rightarrow> (PolicyDecision \<times> go_error option) \<times> 'w"

type_synonym 'w AuditSink = "AuditEntry \<Rightarrow> 'w \<Rightarrow> go_error option \<times> 'w"

record 'w Observer =
  ToolExecuted :: "string \<Rightarrow> string \<Rightarrow> int \<Rightarrow> 'w \<Rightarrow> 'w"
  ApprovalDecided :: "bool \<Rightarrow> 'w \<Rightarrow> 'w"

record 'w Registry =
  tools :: "(string \<times> 'w Tool) list"
  policy :: "'w PolicyCheck option"
  approver :: "'w Approver option"
  audit :: "'w AuditSink option"
  redactor :: "(string \<Rightarrow> string) option"
  observer :: "'w Observer option"

section \<open>State, trace and primitive calls\<close>

datatype event =
    EvPolicy string PolicyDecision
  | EvExecute string RawArgs bool \<comment> \<open>tool, arguments, dry run\<close>
  | EvApprove ApprovalRequest bool string
  | EvRecord AuditEntry
  | EvToolExecuted string string
  | EvApprovalDecided bool

record 'w st =
  world :: 'w
  trace :: "event list"

definition step_world :: "'w \<Rightarrow> event \<Rightarrow> 'w st \<Rightarrow> 'w st" where
  "step_world w ev s = \<lparr>world = w, trace = trace s @ [ev]\<rparr>"

definition emitTool :: "'w Registry \<Rightarrow> string \<Rightarrow> string \<Rightarrow> int \<Rightarrow> 'w st \<Rightarrow> 'w st" where
  "emitTool reg tool status d s =
     (case observer reg of
        None \<Rightarrow> s
      | Some ob \<Rightarrow> step_world (ToolExecuted ob tool status d (world s)) (EvToolExecuted tool status) s)"

definition emitApproval :: "'w Registry \<Rightarrow> bool \<Rightarrow> 'w st \<Rightarrow> 'w st" where
  "emitApproval reg approved s =
     (case observer reg of
        None \<Rightarrow> s
      | Some ob \<Rightarrow> step_world (ApprovalDecided ob approved (world s)) (EvApprovalDecided approved) s)"

definition reg_record ::
  "('w \<Rightarrow> int) \<Rightarrow> 'w Registry \<Rightarrow> 'w Tool \<Rightarrow> SessionPolicy \<Rightarrow> RawArgs \<Rightarrow> string \<Rightarrow> string \<Rightarrow> bool \<Rightarrow>
   string \<Rightarrow> string \<Rightarrow> int \<Rightarrow> 'w st \<Rightarrow> 'w st" where
  "reg_record clk reg t sp args diff who dryRun status summary d s =
     (case audit reg of
        None \<Rightarrow> s
      | Some sink \<Rightarrow>
          (let e = \<lparr>ae_When = clk (world s), ae_SessionID = sp_SessionID sp, ae_Tool = t_Name t,
                    ae_Cluster = sp_Cluster sp, ae_Risk = t_Risk t, ae_Args = args, ae_Diff = diff,
                    ae_Approver = who, ae_DryRun = dryRun, ae_Status = status,
                    ae_Summary = summary, ae_Duration = d\<rparr>
           in step_world (snd (sink e (world s))) (EvRecord e) s))"

definition run_tool ::
  "'w Tool \<Rightarrow> RawArgs \<Rightarrow> bool \<Rightarrow> 'w st \<Rightarrow> (Result \<times> go_error option) \<times> 'w st" where
  "run_tool t args dryRun s =
     (let (r, w) = t_Execute t args dryRun (world s)
      in (r, step_world w (EvExecute (t_Name t) args dryRun) s))"

section \<open>Registration and declarations\<close>

definition NewRegistry ::
  "'w PolicyCheck option \<Rightarrow> 'w Approver option \<Rightarrow> 'w AuditSink option \<Rightarrow> (string \<Rightarrow> string) option
   \<Rightarrow> 'w Registry" where
  "NewRegistry p a sink r =
     \<lparr>tools = [], policy = p, approver = a, audit = sink, redactor = r, observer = None\<rparr>"

text \<open>\<open>None\<close> is the panic on a duplicate name.\<close>

definition Register :: "'w Registry \<Rightarrow> 'w Tool \<Rightarrow> 'w Registry option" where
  "Register reg t =
     (if map_of (tools reg) (t_Name t) \<noteq> None then None
      else Some (reg\<lparr>tools := tools reg @ [(t_Name t, t)]\<rparr>))"

definition enabled :: "SessionPolicy \<Rightarrow> string \<Rightarrow> bool" where
  "enabled sp name = (sp_Enabled sp = [] \<or> name \<in> set (sp_Enabled sp))"

definition Declarations :: "'w Registry \<Rightarrow> SessionPolicy \<Rightarrow> Declaration list" where
  "Declarations reg sp =
     sort_key d_Name
       (map (\<lambda>(name, t). Spec t)
         (filter (\<lambda>(name, t). enabled sp name \<and> \<not> (sp_Mode sp = ''read-only'' \<and> Mutating t))
           (tools reg)))"

definition wf_registry :: "'w Registry \<Rightarrow> bool" where
  "wf_registry reg \<longleftrightarrow>
     distinct (map fst (tools reg)) \<and> (\<forall>(name, t) \<in> set (tools reg). t_Name t = name)"

section \<open>Dispatch\<close>

text \<open>Step 4: policy and blast radius.\<close>

definition policy_step ::
  "('w \<Rightarrow> int) \<Rightarrow> 'w Registry \<Rightarrow> 'w Tool \<Rightarrow> SessionPolicy \<Rightarrow> string \<Rightarrow> RawArgs \<Rightarrow> int \<Rightarrow> 'w st \<Rightarrow>
   (go_error + PolicyDecision) \<times> 'w st" where
  "policy_step clk reg t sp name args start s =
     (case policy reg of
        None \<Rightarrow> (Inr zero_PolicyDecision, s)
      | Some check \<Rightarrow>
          (let ((pd, err), w) = check t args (world s);
               s1 = step_world w (EvPolicy name pd) s
           in case err of
                Some e \<Rightarrow> (Inl (errorf_prefix ''policy check'' e), s1)
              | None \<Rightarrow>
                  (if \<not> pd_Allow pd then
                     (let s2 = reg_record clk reg t sp args [] [] False ''denied'' (pd_Reason pd)
                                 (clk (world s1) - start) s1;
                          s3 = emitTool reg name ''denied'' (clk (world s2) - start) s2
                      in (Inl (errorf_suffix ErrDenied (pd_Reason pd)), s3))
                   else (Inr pd, s1))))"

text \<open>Step 5: the dry run that computes the diff for the approval prompt.\<close>

definition dry_run_step ::
  "'w Tool \<Rightarrow> SessionPolicy \<Rightarrow> RawArgs \<Rightarrow> 'w st \<Rightarrow> (go_error + string) \<times> 'w st" where
  "dry_run_step t sp args s =
     (if Mutating t \<and> sp_DryRunFirst sp then
        (let ((dr, err), s1) = run_tool t args True s
         in case err of
              Some e \<Rightarrow> (Inl (errorf_prefix ''dry-run failed'' e), s1)
            | None \<Rightarrow> (Inr (res_Diff dr), s1))
      else (Inr [], s))"

text \<open>Step 6: approval.\<close>

definition need_approval :: "'w Tool \<Rightarrow> SessionPolicy \<Rightarrow> PolicyDecision \<Rightarrow> bool" where
  "need_approval t sp pd = (Mutating t \<and> (sp_Mode sp \<noteq> ''apply'' \<or> pd_RequireApproval pd))"

definition approval_step ::
  "('w \<Rightarrow> int) \<Rightarrow> 'w Registry \<Rightarrow> 'w Tool \<Rightarrow> SessionPolicy \<Rightarrow> string \<Rightarrow> RawArgs \<Rightarrow> PolicyDecision \<Rightarrow>
   string \<Rightarrow> int \<Rightarrow> 'w st \<Rightarrow> (go_error + string) \<times> 'w st" where
  "approval_step clk reg t sp name args pd diff start s =
     (if need_approval t sp pd then
        (case approver reg of
           None \<Rightarrow> (Inl ErrNotApproved, s)
         | Some ap \<Rightarrow>
             (let req = \<lparr>req_Tool = name, req_Cluster = sp_Cluster sp, req_Args = args,
                         req_Diff = diff, req_Risk = t_Risk t, req_BlastRadius = pd_BlastRadius pd\<rparr>;
                  ((ok, who, err), w) = ap req (world s);
                  s1 = step_world w (EvApprove req (ok \<and> err = None) who) s
              in case err of
                   Some e \<Rightarrow> (Inl e, s1)
                 | None \<Rightarrow>
                     (let s2 = emitApproval reg ok s1
                      in if \<not> ok then
                           (let s3 = reg_record clk reg t sp args diff who False ''rejected''
                                       ''user rejected'' (clk (world s2) - start) s2;
                                s4 = emitTool reg name ''rejected'' (clk (world s3) - start) s3
                            in (Inl ErrNotApproved, s4))
                         else (Inr who, s2))))
      else (Inr ''n/a'', s))"

text \<open>Steps 7 to 9: execute, redact, audit and metrics.\<close>

definition redact_result :: "(string \<Rightarrow> string) option \<Rightarrow> Result \<Rightarrow> Result" where
  "redact_result rd res =
     (case rd of
        None \<Rightarrow> res
      | Some scrub \<Rightarrow> res\<lparr>res_ModelView := scrub (res_ModelView res),
                         res_Summary := scrub (res_Summary res)\<rparr>)"

definition execute_step ::
  "('w \<Rightarrow> int) \<Rightarrow> 'w Registry \<Rightarrow> 'w Tool \<Rightarrow> SessionPolicy \<Rightarrow> string \<Rightarrow> RawArgs \<Rightarrow> string \<Rightarrow> string \<Rightarrow>
   int \<Rightarrow> 'w st \<Rightarrow> (Result \<times> go_error option) \<times> 'w st" where
  "execute_step clk reg t sp name args diff who start s =
     (let ((res0, err), s1) = run_tool t args False s;
          status = (if err \<noteq> None then ''error'' else ''ok'');
          res = redact_result (redactor reg) res0;
          s2 = reg_record clk reg t sp args diff who False status (res_Summary res)
                 (clk (world s1) - start) s1;
          s3 = emitTool reg name status (clk (world s2) - start) s2
      in ((res, err), s3))"

text \<open>The whole chain.\<close>

definition Dispatch ::
  "('w \<Rightarrow> int) \<Rightarrow> 'w Registry \<Rightarrow> SessionPolicy \<Rightarrow> string \<Rightarrow> RawArgs \<Rightarrow> 'w st \<Rightarrow>
   (Result \<times> go_error option) \<times> 'w st" where
  "Dispatch clk reg sp name args s =
     (let start = clk (world s)
      in case map_of (tools reg) name of
           None \<Rightarrow> ((empty_Result, Some (errorf_suffix ErrUnknownTool name)), s)
         | Some t \<Rightarrow>
             (if \<not> enabled sp name then
                ((empty_Result, Some (errorf_suffix ErrNotEnabled name)), s)
              else
                (case validateArgs (t_Schema t) args of
                   Some e \<Rightarrow> ((empty_Result, Some (errorf_prefix (''invalid args for '' @ name) e)), s)
                 | None \<Rightarrow>
                     (if Mutating t \<and> sp_Mode sp = ''read-only'' then
                        ((empty_Result, Some ErrReadOnly), s)
                      else
                        (case policy_step clk reg t sp name args start s of
                           (Inl e, s1) \<Rightarrow> ((empty_Result, Some e), s1)
                         | (Inr pd, s1) \<Rightarrow>
                             (case dry_run_step t sp args s1 of
                                (Inl e, s2) \<Rightarrow> ((empty_Result, Some e), s2)
                              | (Inr diff, s2) \<Rightarrow>
                                  (case approval_step clk reg t sp name args pd diff start s2 of
                                     (Inl e, s3) \<Rightarrow> ((empty_Result, Some e), s3)
                                   | (Inr who, s3) \<Rightarrow>
                                       execute_step clk reg t sp name args diff who start s3)))))))"

section \<open>What each step appends to the trace\<close>

definition evs_record :: "'w Registry \<Rightarrow> AuditEntry \<Rightarrow> event list" where
  "evs_record reg e = (if audit reg = None then [] else [EvRecord e])"

definition evs_tool :: "'w Registry \<Rightarrow> string \<Rightarrow> string \<Rightarrow> event list" where
  "evs_tool reg name status = (if observer reg = None then [] else [EvToolExecuted name status])"

definition evs_approval :: "'w Registry \<Rightarrow> bool \<Rightarrow> event list" where
  "evs_approval reg ok = (if observer reg = None then [] else [EvApprovalDecided ok])"

lemmas evs_defs = evs_record_def evs_tool_def evs_approval_def

text \<open>The audit entry of a call, up to its two clock readings.\<close>

definition entry_of ::
  "'w Tool \<Rightarrow> SessionPolicy \<Rightarrow> RawArgs \<Rightarrow> string \<Rightarrow> string \<Rightarrow> string \<Rightarrow> string \<Rightarrow> AuditEntry \<Rightarrow> bool" where
  "entry_of t sp args diff who status summary e \<longleftrightarrow>
     ae_SessionID e = sp_SessionID sp \<and> ae_Tool e = t_Name t \<and> ae_Cluster e = sp_Cluster sp \<and>
     ae_Risk e = t_Risk t \<and> ae_Args e = args \<and> ae_Diff e = diff \<and> ae_Approver e = who \<and>
     \<not> ae_DryRun e \<and> ae_Status e = status \<and> ae_Summary e = summary"

lemma trace_step_world [simp]: "trace (step_world w ev s) = trace s @ [ev]"
  and world_step_world [simp]: "world (step_world w ev s) = w"
  by (simp_all add: step_world_def)

lemma trace_emitTool [simp]: "trace (emitTool reg tool status d s) = trace s @ evs_tool reg tool status"
  by (simp add: emitTool_def evs_tool_def split: option.split)

lemma trace_emitApproval [simp]: "trace (emitApproval reg ok s) = trace s @ evs_approval reg ok"
  by (simp add: emitApproval_def evs_approval_def split: option.split)

lemma trace_reg_record:
  "\<exists>e. entry_of t sp args diff who status summary e \<and>
       trace (reg_record clk reg t sp args diff who False status summary d s) = trace s @ evs_record reg e"
  unfolding reg_record_def Let_def
  by (cases "audit reg") (auto simp: entry_of_def evs_record_def intro!: exI [of _ "AuditEntry.make _ _ _ _ _ _ _ _ _ _ _ _"] simp: AuditEntry.defs)

lemma trace_run_tool: "run_tool t args dry s = (r, s') \<Longrightarrow> trace s' = trace s @ [EvExecute (t_Name t) args dry]"
  by (auto simp: run_tool_def split: prod.splits)

lemma policy_step_Inr:
  assumes "policy_step clk reg t sp name args start s = (Inr pd, s')"
  shows "if policy reg = None then pd = zero_PolicyDecision \<and> s' = s
    else pd_Allow pd \<and> trace s' = trace s @ [EvPolicy name pd]"
  using assms by (auto simp: policy_step_def Let_def split: option.splits prod.splits if_splits)

lemma policy_step_Inl:
  assumes "policy_step clk reg t sp name args start s = (Inl e, s')"
  shows "\<exists>pd. trace s' = trace s @ [EvPolicy name pd] \<or>
    (\<exists>ent. \<not> pd_Allow pd \<and> e = errorf_suffix ErrDenied (pd_Reason pd) \<and>
      entry_of t sp args [] [] ''denied'' (pd_Reason pd) ent \<and>
      trace s' = trace s @ EvPolicy name pd # evs_record reg ent @ evs_tool reg name ''denied'')"
proof -
  from assms obtain check where c: "policy reg = Some check"
    by (auto simp: policy_step_def split: option.splits)
  obtain pd err w where k: "check t args (world s) = ((pd, err), w)"
    by (metis prod.exhaust)
  let ?s1 = "step_world w (EvPolicy name pd) s"
  obtain ent where ent: "entry_of t sp args [] [] ''denied'' (pd_Reason pd) ent"
    "trace (reg_record clk reg t sp args [] [] False ''denied'' (pd_Reason pd)
       (clk (world ?s1) - start) ?s1) = trace ?s1 @ evs_record reg ent"
    using trace_reg_record by blast
  with assms c k show ?thesis
    by (intro exI [of _ pd]) (auto simp: policy_step_def Let_def split: option.splits if_splits)
qed

lemma dry_run_step_trace:
  assumes "dry_run_step t sp args s = (r, s')"
  shows "trace s' = trace s @ (if Mutating t \<and> sp_DryRunFirst sp then [EvExecute (t_Name t) args True] else [])"
  using assms
  by (auto simp: dry_run_step_def dest!: trace_run_tool split: prod.splits option.splits if_splits)

lemma approval_step_Inr:
  assumes "approval_step clk reg t sp name args pd diff start s = (Inr who, s')"
  shows "if need_approval t sp pd then
      trace s' = trace s @ EvApprove \<lparr>req_Tool = name, req_Cluster = sp_Cluster sp, req_Args = args,
        req_Diff = diff, req_Risk = t_Risk t, req_BlastRadius = pd_BlastRadius pd\<rparr> True who # evs_approval reg True
    else who = ''n/a'' \<and> s' = s"
  using assms
  by (auto simp: approval_step_def Let_def split: option.splits prod.splits if_splits)

lemma approval_step_Inl:
  assumes "approval_step clk reg t sp name args pd diff start s = (Inl e, s')"
  shows "trace s' = trace s \<and> approver reg = None \<or>
    (\<exists>req who. trace s' = trace s @ [EvApprove req False who]) \<or>
    (\<exists>req who ent. e = ErrNotApproved \<and> entry_of t sp args diff who ''rejected'' ''user rejected'' ent \<and>
       trace s' = trace s @ EvApprove req False who # evs_approval reg False @ evs_record reg ent
         @ evs_tool reg name ''rejected'')"
proof (cases "approver reg")
  case None
  with assms show ?thesis by (auto simp: approval_step_def split: if_splits)
next
  case (Some ap)
  let ?req = "\<lparr>req_Tool = name, req_Cluster = sp_Cluster sp, req_Args = args,
    req_Diff = diff, req_Risk = t_Risk t, req_BlastRadius = pd_BlastRadius pd\<rparr>"
  obtain ok who err w where k: "ap ?req (world s) = ((ok, who, err), w)"
    by (metis prod.exhaust)
  let ?s2 = "emitApproval reg ok (step_world w (EvApprove ?req (ok \<and> err = None) who) s)"
  obtain ent where ent: "entry_of t sp args diff who ''rejected'' ''user rejected'' ent"
    "trace (reg_record clk reg t sp args diff who False ''rejected'' ''user rejected''
       (clk (world ?s2) - start) ?s2) = trace ?s2 @ evs_record reg ent"
    using trace_reg_record by blast
  have "need_approval t sp pd" using assms by (auto simp: approval_step_def split: if_splits)
  with assms Some k ent show ?thesis
    by (auto simp: approval_step_def Let_def split: option.splits if_splits)
qed

lemma execute_step_trace:
  assumes "execute_step clk reg t sp name args diff who start s = ((res, err), s')"
  shows "\<exists>ent status. status = (if err = None then ''ok'' else ''error'') \<and>
    entry_of t sp args diff who status (res_Summary res) ent \<and>
    trace s' = trace s @ EvExecute (t_Name t) args False # evs_record reg ent @ evs_tool reg name status"
proof -
  obtain res0 err0 s1 where r: "run_tool t args False s = ((res0, err0), s1)"
    by (metis prod.exhaust)
  let ?st = "if err0 \<noteq> None then ''error'' else ''ok''" and ?sum = "res_Summary (redact_result (redactor reg) res0)"
  obtain ent where ent: "entry_of t sp args diff who ?st ?sum ent"
    "trace (reg_record clk reg t sp args diff who False ?st ?sum (clk (world s1) - start) s1)
       = trace s1 @ evs_record reg ent"
    using trace_reg_record by blast
  with assms r trace_run_tool [OF r] show ?thesis
    by (intro exI [of _ ent]) (auto simp: execute_step_def Let_def)
qed

section \<open>How a dispatch ends\<close>

definition approval_request :: "'w Tool \<Rightarrow> SessionPolicy \<Rightarrow> string \<Rightarrow> RawArgs \<Rightarrow> PolicyDecision \<Rightarrow> string \<Rightarrow> ApprovalRequest" where
  "approval_request t sp name args pd diff =
     \<lparr>req_Tool = name, req_Cluster = sp_Cluster sp, req_Args = args, req_Diff = diff,
      req_Risk = t_Risk t, req_BlastRadius = pd_BlastRadius pd\<rparr>"

text \<open>The calls made before the real execution, and those made by it.\<close>

definition evs_before ::
  "'w Registry \<Rightarrow> SessionPolicy \<Rightarrow> 'w Tool \<Rightarrow> string \<Rightarrow> RawArgs \<Rightarrow> PolicyDecision \<Rightarrow> string \<Rightarrow> string \<Rightarrow> event list" where
  "evs_before reg sp t name args pd diff who =
     (if policy reg = None then [] else [EvPolicy name pd]) @
     (if Mutating t \<and> sp_DryRunFirst sp then [EvExecute (t_Name t) args True] else []) @
     (if need_approval t sp pd
      then EvApprove (approval_request t sp name args pd diff) True who # evs_approval reg True else [])"

definition evs_execute :: "'w Registry \<Rightarrow> 'w Tool \<Rightarrow> string \<Rightarrow> RawArgs \<Rightarrow> AuditEntry \<Rightarrow> string \<Rightarrow> event list" where
  "evs_execute reg t name args ent status =
     EvExecute (t_Name t) args False # evs_record reg ent @ evs_tool reg name status"

text \<open>The checks that stand before every call on a collaborator.\<close>

definition admitted :: "'w Registry \<Rightarrow> SessionPolicy \<Rightarrow> string \<Rightarrow> RawArgs \<Rightarrow> 'w Tool \<Rightarrow> bool" where
  "admitted reg sp name args t \<longleftrightarrow>
     map_of (tools reg) name = Some t \<and> enabled sp name \<and> validateArgs (t_Schema t) args = None \<and>
     \<not> (Mutating t \<and> sp_Mode sp = ''read-only'')"

definition policy_allows :: "'w Registry \<Rightarrow> PolicyDecision \<Rightarrow> bool" where
  "policy_allows reg pd \<longleftrightarrow> (if policy reg = None then pd = zero_PolicyDecision else pd_Allow pd)"

lemma Dispatch_cases:
  assumes D: "Dispatch clk reg sp name args s = ((res, err), s')"
  obtains
    (refused) e where "err = Some e" "res = empty_Result" "s' = s" "\<nexists>t. admitted reg sp name args t"
  | (policy) t e where "admitted reg sp name args t" "err = Some e" "res = empty_Result"
      "policy_step clk reg t sp name args (clk (world s)) s = (Inl e, s')"
  | (dry) t pd s1 e where "admitted reg sp name args t" "err = Some e" "res = empty_Result"
      "policy_step clk reg t sp name args (clk (world s)) s = (Inr pd, s1)"
      "dry_run_step t sp args s1 = (Inl e, s')"
  | (approval) t pd s1 diff s2 e where "admitted reg sp name args t" "err = Some e" "res = empty_Result"
      "policy_step clk reg t sp name args (clk (world s)) s = (Inr pd, s1)"
      "dry_run_step t sp args s1 = (Inr diff, s2)"
      "approval_step clk reg t sp name args pd diff (clk (world s)) s2 = (Inl e, s')"
  | (executed) t pd s1 diff s2 who s3 where "admitted reg sp name args t"
      "policy_step clk reg t sp name args (clk (world s)) s = (Inr pd, s1)"
      "dry_run_step t sp args s1 = (Inr diff, s2)"
      "approval_step clk reg t sp name args pd diff (clk (world s)) s2 = (Inr who, s3)"
      "execute_step clk reg t sp name args diff who (clk (world s)) s3 = ((res, err), s')"
proof (cases "\<exists>t. admitted reg sp name args t")
  case False
  with D have "res = empty_Result \<and> s' = s \<and> (\<exists>e. err = Some e)"
    by (auto simp: Dispatch_def admitted_def Let_def split: option.splits if_splits)
  with False refused show ?thesis by blast
next
  case True
  then obtain t where t: "admitted reg sp name args t" by blast
  obtain p s1 where p: "policy_step clk reg t sp name args (clk (world s)) s = (p, s1)" by fastforce
  show ?thesis
  proof (cases p)
    case (Inl e)
    with D t p policy [OF t] show ?thesis by (auto simp: Dispatch_def admitted_def Let_def)
  next
    case (Inr pd)
    obtain d s2 where d: "dry_run_step t sp args s1 = (d, s2)" by fastforce
    show ?thesis
    proof (cases d)
      case Inl': (Inl e)
      with D t p d Inr dry [OF t] show ?thesis by (auto simp: Dispatch_def admitted_def Let_def)
    next
      case Inr': (Inr diff)
      obtain a s3 where a: "approval_step clk reg t sp name args pd diff (clk (world s)) s2 = (a, s3)"
        by fastforce
      show ?thesis
        using D t p d Inr Inr' a approval [OF t] executed [OF t]
        by (cases a) (auto simp: Dispatch_def admitted_def Let_def)
    qed
  qed
qed

text \<open>
  The main fact on the trace: a call either reaches the real execution, and then the trace grows
  by exactly the calls before it followed by it, its record and its metric, or it grows without a
  real execution.
\<close>

definition is_real :: "event \<Rightarrow> bool" where
  "is_real ev = (case ev of EvExecute _ _ dry \<Rightarrow> \<not> dry | _ \<Rightarrow> False)"

lemma is_real_simps [simp]:
  "is_real (EvExecute n a dry) \<longleftrightarrow> \<not> dry" "\<not> is_real (EvPolicy n pd)"
  "\<not> is_real (EvApprove req ok who)" "\<not> is_real (EvRecord e)"
  "\<not> is_real (EvToolExecuted n status)" "\<not> is_real (EvApprovalDecided ok)"
  by (simp_all add: is_real_def)

lemma not_real_evs [simp]:
  "ev \<in> set (evs_record reg e) \<Longrightarrow> \<not> is_real ev"
  "ev \<in> set (evs_tool reg n status) \<Longrightarrow> \<not> is_real ev"
  "ev \<in> set (evs_approval reg ok) \<Longrightarrow> \<not> is_real ev"
  "ev \<in> set (evs_before reg sp t n a pd diff who) \<Longrightarrow> \<not> is_real ev"
  by (auto simp: evs_defs evs_before_def split: if_splits)

lemma Dispatch_trace:
  assumes D: "Dispatch clk reg sp name args s = ((res, err), s')"
  obtains
    (stopped) evs e where "trace s' = trace s @ evs" "err = Some e" "res = empty_Result"
      "\<forall>ev \<in> set evs. \<not> is_real ev"
  | (executed) t pd diff who ent where "admitted reg sp name args t" "policy_allows reg pd"
      "\<not> need_approval t sp pd \<longrightarrow> who = ''n/a''"
      "entry_of t sp args diff who (if err = None then ''ok'' else ''error'') (res_Summary res) ent"
      "trace s' = trace s @ evs_before reg sp t name args pd diff who @
         evs_execute reg t name args ent (if err = None then ''ok'' else ''error'')"
  using D
proof (cases rule: Dispatch_cases)
  case (refused e)
  then show ?thesis by (intro stopped [of "[]"]) auto
next
  case (policy t e)
  from policy_step_Inl [OF policy(4)] obtain evs
    where "trace s' = trace s @ evs" "\<forall>ev \<in> set evs. \<not> is_real ev" by fastforce
  with policy show ?thesis by (intro stopped) auto
next
  case (dry t pd s1 e)
  from policy_step_Inr [OF dry(4)] dry_run_step_trace [OF dry(5)] obtain evs
    where "trace s' = trace s @ evs" "\<forall>ev \<in> set evs. \<not> is_real ev"
    by (fastforce split: if_splits)
  with dry show ?thesis by (intro stopped) auto
next
  case (approval t pd s1 diff s2 e)
  obtain evs1 where evs1: "trace s2 = trace s @ evs1" "\<forall>ev \<in> set evs1. \<not> is_real ev"
    using policy_step_Inr [OF approval(4)] dry_run_step_trace [OF approval(5)]
    by (fastforce split: if_splits)
  obtain evs2 where "trace s' = trace s2 @ evs2" "\<forall>ev \<in> set evs2. \<not> is_real ev"
    using approval_step_Inl [OF approval(6)] by fastforce
  with evs1 approval show ?thesis by (intro stopped [of "evs1 @ evs2"]) auto
next
  case ex: (executed t pd s1 diff s2 who s3)
  have allows: "policy_allows reg pd"
    using policy_step_Inr [OF ex(2)] by (auto simp: policy_allows_def split: if_splits)
  have before: "trace s3 = trace s @ evs_before reg sp t name args pd diff who"
    using policy_step_Inr [OF ex(2)] dry_run_step_trace [OF ex(3)] approval_step_Inr [OF ex(4)]
    by (auto simp: evs_before_def approval_request_def split: if_splits)
  have who: "\<not> need_approval t sp pd \<longrightarrow> who = ''n/a''"
    using approval_step_Inr [OF ex(4)] by auto
  from execute_step_trace [OF ex(5)] obtain ent where
    "entry_of t sp args diff who (if err = None then ''ok'' else ''error'') (res_Summary res) ent"
    "trace s' = trace s3 @ evs_execute reg t name args ent (if err = None then ''ok'' else ''error'')"
    by (auto simp: evs_execute_def)
  with ex allows who before show ?thesis by (intro executed) auto
qed

lemma evs_before_no_record [simp]: "EvRecord e \<notin> set (evs_before reg sp t name args pd diff who)"
  by (simp add: evs_before_def evs_approval_def)

lemma evs_before_approve:
  "EvApprove req True w \<in> set (evs_before reg sp t name args pd diff who) \<Longrightarrow> w = who \<and> req_Diff req = diff"
  by (auto simp: evs_before_def evs_approval_def approval_request_def split: if_splits)

lemma real_split:
  assumes "pre @ EvExecute n a False # post = pre' @ EvExecute n' a' False # post'"
    and "\<forall>ev \<in> set pre'. \<not> is_real ev" "\<forall>ev \<in> set post'. \<not> is_real ev"
  shows "pre = pre' \<and> n = n' \<and> a = a' \<and> post = post'"
proof -
  have "filter is_real (pre @ EvExecute n a False # post) = [EvExecute n' a' False]"
    using assms by simp
  then have "filter is_real pre = [] \<or> EvExecute n a False \<notin> set (pre @ EvExecute n a False # post)"
    by (cases "filter is_real pre") auto
  then have "\<forall>ev \<in> set pre. \<not> is_real ev" by (auto simp: filter_empty_conv)
  then have "takeWhile (\<lambda>ev. \<not> is_real ev) (pre @ EvExecute n a False # post) = pre"
    by (simp add: takeWhile_append2)
  moreover have "takeWhile (\<lambda>ev. \<not> is_real ev) (pre' @ EvExecute n' a' False # post') = pre'"
    using assms(2) by (simp add: takeWhile_append2)
  ultimately have "pre = pre'" using assms(1) by simp
  with assms(1) show ?thesis by simp
qed

section \<open>The advertised tools\<close>

lemma wf_NewRegistry [simp]: "wf_registry (NewRegistry p a sink r)"
  by (simp add: wf_registry_def NewRegistry_def)

lemma Register_wf: "wf_registry reg \<Longrightarrow> Register reg t = Some reg' \<Longrightarrow> wf_registry reg'"
  by (auto simp: Register_def wf_registry_def map_of_eq_None_iff split: if_splits)

lemma Register_lookup:
  "Register reg t = Some reg' \<Longrightarrow>
     map_of (tools reg') n = (if n = t_Name t then Some t else map_of (tools reg) n)"
  by (auto simp: Register_def map_add_def split: if_splits option.splits)

abbreviation advertised :: "SessionPolicy \<Rightarrow> string \<times> 'w Tool \<Rightarrow> bool" where
  "advertised sp \<equiv> (\<lambda>(name, t). enabled sp name \<and> \<not> (sp_Mode sp = ''read-only'' \<and> Mutating t))"

lemma wf_registry_names:
  assumes "wf_registry reg"
  shows "map d_Name (map (\<lambda>(name, t). Spec t) (filter P (tools reg))) = map fst (filter P (tools reg))"
  using assms by (auto simp: wf_registry_def Spec_def)

lemma wf_registry_names_distinct:
  assumes "wf_registry reg"
  shows "distinct (map d_Name (map (\<lambda>(name, t). Spec t) (filter P (tools reg))))"
  unfolding wf_registry_names [OF assms] using assms by (auto simp: wf_registry_def)

lemma wf_registry_lookup:
  assumes "wf_registry reg"
  shows "map_of (tools reg) n = Some t \<longleftrightarrow> (n, t) \<in> set (tools reg)"
  using assms by (simp add: wf_registry_def)

section \<open>A concrete registry\<close>

text \<open>A world that counts real executions, a policy that asks for approval, an approver who says yes.\<close>

definition demo_execute :: "RawArgs \<Rightarrow> bool \<Rightarrow> nat \<Rightarrow> (Result \<times> go_error option) \<times> nat" where
  "demo_execute args dry w =
     ((\<lparr>res_Summary = ''done'', res_ModelView = ''done'', res_Diff = ''0 to 1'', res_RollbackRef = []\<rparr>, None),
      if dry then w else w + 1)"

definition demo_tool :: "RiskLevel \<Rightarrow> nat Tool" where
  "demo_tool risk = \<lparr>t_Name = ''t'', t_Description = [],
     t_Schema = [(''required'', JArr [JStr ''ns'']),
                 (''properties'', JObj [(''ns'', JObj [(''type'', JStr ''string'')])])],
     t_Risk = risk, t_Execute = demo_execute\<rparr>"

definition demo_decision :: "bool \<Rightarrow> PolicyDecision" where
  "demo_decision allow =
     \<lparr>pd_Allow = allow, pd_RequireApproval = True, pd_Reason = ''r'', pd_BlastRadius = ''cluster''\<rparr>"

definition demo_registry :: "bool \<Rightarrow> bool \<Rightarrow> nat Registry" where
  "demo_registry allow approve =
     \<lparr>tools = [(''t'', demo_tool Mutate)],
      policy = Some (\<lambda>t args w. ((demo_decision allow, None), w)),
      approver = Some (\<lambda>req w. ((approve, ''alice'', None), w)),
      audit = Some (\<lambda>e w. (None, w)),
      redactor = Some (\<lambda>s. ''[redacted]''),
      observer = None\<rparr>"

definition demo_session :: "string \<Rightarrow> SessionPolicy" where
  "demo_session mode = \<lparr>sp_SessionID = ''s1'', sp_Mode = mode, sp_Enabled = [], sp_Cluster = ''kind'',
     sp_DryRunFirst = True\<rparr>"

definition demo_args :: RawArgs where
  "demo_args = ''{'' @ [CHR 0x22] @ ''ns'' @ [CHR 0x22] @ '':'' @ [CHR 0x22] @ ''web'' @ [CHR 0x22] @ ''}''"

definition demo_start :: "nat st" where
  "demo_start = \<lparr>world = 0, trace = []\<rparr>"

definition demo_entry :: "string \<Rightarrow> string \<Rightarrow> string \<Rightarrow> string \<Rightarrow> AuditEntry" where
  "demo_entry diff who status summary =
     \<lparr>ae_When = 0, ae_SessionID = ''s1'', ae_Tool = ''t'', ae_Cluster = ''kind'', ae_Risk = Mutate,
      ae_Args = demo_args, ae_Diff = diff, ae_Approver = who, ae_DryRun = False, ae_Status = status,
      ae_Summary = summary, ae_Duration = 0\<rparr>"

definition demo_request :: ApprovalRequest where
  "demo_request = \<lparr>req_Tool = ''t'', req_Cluster = ''kind'', req_Args = demo_args, req_Diff = ''0 to 1'',
     req_Risk = Mutate, req_BlastRadius = ''cluster''\<rparr>"

lemma demo_approved:
  "Dispatch (\<lambda>_. 0) (demo_registry True True) (demo_session ''apply'') ''t'' demo_args demo_start =
     ((\<lparr>res_Summary = ''[redacted]'', res_ModelView = ''[redacted]'', res_Diff = ''0 to 1'',
        res_RollbackRef = []\<rparr>, None),
      \<lparr>world = 1,
       trace = [] @ [EvPolicy ''t'' (demo_decision True), EvExecute ''t'' demo_args True,
                EvApprove demo_request True ''alice''] @
               EvExecute ''t'' demo_args False #
               [EvRecord (demo_entry ''0 to 1'' ''alice'' ''ok'' ''[redacted]'')]\<rparr>)"
  by code_simp

lemma demo_rejected:
  "Dispatch (\<lambda>_. 0) (demo_registry True False) (demo_session ''propose'') ''t'' demo_args demo_start =
     ((empty_Result, Some ErrNotApproved),
      \<lparr>world = 0,
       trace = [EvPolicy ''t'' (demo_decision True), EvExecute ''t'' demo_args True,
                EvApprove demo_request False ''alice'',
                EvRecord (demo_entry ''0 to 1'' ''alice'' ''rejected'' ''user rejected'')]\<rparr>)"
  by code_simp

lemma demo_admitted:
  "mode \<noteq> ''read-only'' \<Longrightarrow>
     admitted (demo_registry allow ok) (demo_session mode) ''t'' demo_args (demo_tool Mutate)"
proof -
  have "validateArgs (t_Schema (demo_tool Mutate)) demo_args = None" by code_simp
  then show "mode \<noteq> ''read-only'' \<Longrightarrow> ?thesis"
    by (simp add: admitted_def demo_registry_def demo_session_def enabled_def)
qed

lemma demo_premises:
  "audit (demo_registry allow ok) \<noteq> None"
  "trace \<lparr>world = 1::nat, trace = evs\<rparr> = trace demo_start @ evs"
  by (simp_all add: demo_start_def demo_registry_def)

section \<open>Properties\<close>

text \<open>C1: If a dispatch really executes something, then it is the named tool on the given arguments,
  exactly once; the tool is registered, enabled, its arguments passed the schema check, the policy
  (if there is one) was asked before and allowed the call, and for a mutating tool the session is not
  read-only and, unless the session is in apply mode and the policy does not ask for approval, the
  approver had said yes to exactly this call before.\<close>

theorem real_execution_is_gated:
  assumes "Dispatch clk reg sp name args s = ((res, err), s')"
    and "trace s' = trace s @ pre @ EvExecute n a False # post"
  shows "\<exists>t pd. admitted reg sp name args t \<and> n = t_Name t \<and> a = args \<and>
    (policy reg \<noteq> None \<longrightarrow> pd_Allow pd \<and> EvPolicy name pd \<in> set pre) \<and>
    (Mutating t \<longrightarrow> sp_Mode sp \<noteq> ''read-only'') \<and>
    (Mutating t \<and> (sp_Mode sp \<noteq> ''apply'' \<or> pd_RequireApproval pd) \<longrightarrow>
       (\<exists>diff who. EvApprove (approval_request t sp name args pd diff) True who \<in> set pre)) \<and>
    filter is_real (pre @ post) = []"
  using assms(1)
proof (cases rule: Dispatch_trace)
  case (stopped evs e)
  with assms(2) show ?thesis by auto
next
  case (executed t pd diff who ent)
  let ?pre = "evs_before reg sp t name args pd diff who"
  let ?post = "evs_record reg ent @ evs_tool reg name (if err = None then ''ok'' else ''error'')"
  have "pre = ?pre \<and> n = t_Name t \<and> a = args \<and> post = ?post"
    by (rule real_split) (use assms(2) executed(5) in \<open>auto simp: evs_execute_def\<close>)
  then have eqs: "pre = ?pre" "n = t_Name t" "a = args" "post = ?post" by auto
  have "filter is_real (pre @ post) = []"
    unfolding eqs by (auto intro: filter_emptyI)
  with executed(1-3) show ?thesis
    by (intro exI [of _ t] exI [of _ pd])
      (auto simp: eqs(1-3) evs_before_def need_approval_def policy_allows_def admitted_def)
qed

theorem real_execution_is_gated_witness:
  "\<exists>t pd. admitted (demo_registry True True) (demo_session ''apply'') ''t'' demo_args t \<and> ''t'' = t_Name t \<and>
     pd_Allow pd \<and> EvPolicy ''t'' pd \<in> set [EvPolicy ''t'' (demo_decision True),
      EvExecute ''t'' demo_args True, EvApprove demo_request True ''alice'']"
  using real_execution_is_gated [OF demo_approved, of "[EvPolicy ''t'' (demo_decision True),
      EvExecute ''t'' demo_args True, EvApprove demo_request True ''alice'']" "''t''" demo_args
      "[EvRecord (demo_entry ''0 to 1'' ''alice'' ''ok'' ''[redacted]'')]"]
  by (simp add: demo_start_def demo_registry_def) blast

text \<open>C4: Every real execution leaves exactly one audit record, right after it: it names the session, the tool,
  the cluster, its risk, the arguments and the diff shown to the approver, who approved, and the
  status of the outcome; the summary recorded is the (redacted) one returned to the caller.\<close>

theorem real_execution_is_audited:
  assumes "Dispatch clk reg sp name args s = ((res, err), s')"
    and "trace s' = trace s @ pre @ EvExecute n a False # post" and "audit reg \<noteq> None"
  shows "\<exists>t diff who ent. map_of (tools reg) name = Some t \<and>
    entry_of t sp args diff who (if err = None then ''ok'' else ''error'') (res_Summary res) ent \<and>
    post = EvRecord ent # evs_tool reg name (if err = None then ''ok'' else ''error'') \<and>
    (\<forall>e. EvRecord e \<notin> set pre) \<and>
    (\<forall>req w. EvApprove req True w \<in> set pre \<longrightarrow> w = who \<and> req_Diff req = diff)"
  using assms(1)
proof (cases rule: Dispatch_trace)
  case (stopped evs e)
  with assms(2) show ?thesis by auto
next
  case (executed t pd diff who ent)
  let ?status = "if err = None then ''ok'' else ''error''"
  have "pre = evs_before reg sp t name args pd diff who \<and> n = t_Name t \<and> a = args \<and>
      post = evs_record reg ent @ evs_tool reg name ?status"
    by (rule real_split) (use assms(2) executed(5) in \<open>auto simp: evs_execute_def\<close>)
  then have eqs: "pre = evs_before reg sp t name args pd diff who"
      "post = EvRecord ent # evs_tool reg name ?status"
    using assms(3) by (simp_all add: evs_record_def)
  have "map_of (tools reg) name = Some t" using executed(1) by (simp add: admitted_def)
  with executed(4) show ?thesis
    unfolding eqs using evs_before_no_record evs_before_approve by metis
qed

theorem real_execution_is_audited_witness:
  "\<exists>t diff who ent. map_of (tools (demo_registry True True)) ''t'' = Some t \<and>
     entry_of t (demo_session ''apply'') demo_args diff who ''ok'' ''[redacted]'' ent \<and>
     [EvRecord (demo_entry ''0 to 1'' ''alice'' ''ok'' ''[redacted]'')] =
       EvRecord ent # evs_tool (demo_registry True True) ''t'' ''ok''"
  using real_execution_is_audited [OF demo_approved, of "[EvPolicy ''t'' (demo_decision True),
      EvExecute ''t'' demo_args True, EvApprove demo_request True ''alice'']" "''t''" demo_args
      "[EvRecord (demo_entry ''0 to 1'' ''alice'' ''ok'' ''[redacted]'')]"] demo_premises
  by auto

text \<open>C21: In a read-only session a mutating tool does nothing at all: no collaborator is called, the world is
  untouched and the caller gets an error.\<close>

theorem read_only_blocks_mutation:
  assumes "map_of (tools reg) name = Some t" and "Mutating t" and "sp_Mode sp = ''read-only''"
  shows "\<exists>e. Dispatch clk reg sp name args s = ((empty_Result, Some e), s)"
  using assms by (auto simp: Dispatch_def Let_def split: option.split)

theorem read_only_blocks_mutation_witness:
  "\<exists>e. Dispatch (\<lambda>_. 0) (demo_registry True True) (demo_session ''read-only'') ''t'' demo_args demo_start =
     ((empty_Result, Some e), demo_start)"
  by (rule read_only_blocks_mutation [of _ _ "demo_tool Mutate"])
    (simp_all add: demo_registry_def demo_tool_def demo_session_def)

text \<open>C22: A call the policy denies and a call the approver rejects never execute the tool for real; both end with
  the matching error and with an audit record that says so.\<close>

theorem denial_is_audited:
  assumes adm: "admitted reg sp name args t" and pol: "policy reg = Some check"
    and chk: "check t args (world s) = ((pd, None), w)" and aud: "audit reg \<noteq> None"
  shows "\<not> pd_Allow pd \<Longrightarrow> \<exists>ent. entry_of t sp args [] [] ''denied'' (pd_Reason pd) ent \<and>
      fst (Dispatch clk reg sp name args s) = (empty_Result, Some (errorf_suffix ErrDenied (pd_Reason pd))) \<and>
      trace (snd (Dispatch clk reg sp name args s)) =
        trace s @ EvPolicy name pd # EvRecord ent # evs_tool reg name ''denied''"
proof -
  assume deny: "\<not> pd_Allow pd"
  obtain r s1 where p: "policy_step clk reg t sp name args (clk (world s)) s = (r, s1)" by fastforce
  with pol chk deny have r: "r = Inl (errorf_suffix ErrDenied (pd_Reason pd))"
    by (auto simp: policy_step_def Let_def)
  let ?s1 = "step_world w (EvPolicy name pd) s"
  obtain ent where ent: "entry_of t sp args [] [] ''denied'' (pd_Reason pd) ent"
    "trace (reg_record clk reg t sp args [] [] False ''denied'' (pd_Reason pd)
       (clk (world ?s1) - clk (world s)) ?s1) = trace ?s1 @ evs_record reg ent"
    using trace_reg_record by blast
  have "trace s1 = trace s @ EvPolicy name pd # EvRecord ent # evs_tool reg name ''denied''"
    using p pol chk deny ent aud by (auto simp: policy_step_def Let_def evs_record_def)
  moreover have "Dispatch clk reg sp name args s =
      ((empty_Result, Some (errorf_suffix ErrDenied (pd_Reason pd))), s1)"
    using adm p r by (auto simp: Dispatch_def admitted_def Let_def)
  ultimately show ?thesis using ent(1) by auto
qed

theorem denial_is_audited_witness:
  "\<exists>ent. entry_of (demo_tool Mutate) (demo_session ''apply'') demo_args [] [] ''denied'' ''r'' ent"
proof -
  have "policy (demo_registry False True) = Some (\<lambda>t args w. ((demo_decision False, None), w))"
    by (simp add: demo_registry_def)
  from denial_is_audited [OF demo_admitted this, of "''apply''" demo_start "demo_decision False" 0]
  show ?thesis by (auto simp: demo_decision_def demo_start_def demo_premises)
qed

text \<open>What a session is shown is what it may call: with distinct names, the declarations are sorted by name
  without repetition, they are the specs of exactly the enabled tools that the read-only gate does
  not block, and they do not depend on the order in which the tool map is visited.\<close>

theorem declarations_are_the_callable_tools:
  assumes "wf_registry reg"
  shows "sorted (map d_Name (Declarations reg sp)) \<and> distinct (map d_Name (Declarations reg sp)) \<and>
    (\<forall>d. d \<in> set (Declarations reg sp) \<longleftrightarrow>
       (\<exists>name t. map_of (tools reg) name = Some t \<and> d = Spec t \<and> enabled sp name \<and>
          \<not> (Mutating t \<and> sp_Mode sp = ''read-only''))) \<and>
    (\<forall>ts. mset ts = mset (tools reg) \<longrightarrow> Declarations (reg\<lparr>tools := ts\<rparr>) sp = Declarations reg sp)"
proof (intro conjI allI impI)
  note dist = wf_registry_names_distinct [OF assms, of "advertised sp"]
  show "sorted (map d_Name (Declarations reg sp))" "distinct (map d_Name (Declarations reg sp))"
    using sorted_distinct_map_sort_key [OF dist] by (simp_all add: Declarations_def)
  show "d \<in> set (Declarations reg sp) \<longleftrightarrow> (\<exists>name t. map_of (tools reg) name = Some t \<and> d = Spec t \<and>
      enabled sp name \<and> \<not> (Mutating t \<and> sp_Mode sp = ''read-only''))" for d
    by (auto simp: Declarations_def wf_registry_lookup [OF assms])
  fix ts assume ts: "mset ts = mset (tools reg)"
  let ?f = "\<lambda>ts. map (\<lambda>(name, t). Spec t) (filter (advertised sp) ts)"
  have "mset (?f ts) = mset (?f (tools reg))" by (simp only: mset_map mset_filter ts)
  moreover from this have "set (?f ts) = set (?f (tools reg))" by (rule mset_eq_setD)
  then have "inj_on d_Name (set (?f ts))" using dist by (simp only: distinct_map)
  ultimately have "sort_key d_Name (?f ts) = sort_key d_Name (?f (tools reg))" by (rule sort_key_perm_eq)
  then show "Declarations (reg\<lparr>tools := ts\<rparr>) sp = Declarations reg sp" by (simp only: Declarations_def) simp
qed

theorem declarations_are_the_callable_tools_witness:
  "wf_registry (demo_registry True True) \<and>
   sorted (map d_Name (Declarations (demo_registry True True) (demo_session ''propose'')))"
  using declarations_are_the_callable_tools [of "demo_registry True True" "demo_session ''propose''"]
  by (simp add: wf_registry_def demo_registry_def demo_tool_def)

end
