(* ===== verification/Store.thy ===== *)
theory Store
  imports Ai Crypto JsonText Registry
begin

text \<open>
  The SQLite store (internal/store/sqlite.go, store.go). The database is a record of tables, a
  table a list of rows in insertion (rowid) order. Every method takes the environment of the call
  (\<open>env\<close>): the uuid it draws, the clock of \<open>datetime('now')\<close>, the random source of each encryption
  and the failures of the driver, by the number of the statement. The constraints of the schema
  the methods rely on (primary keys, NOT NULL, UNIQUE, foreign keys) are checked by the inserts.
\<close>

section \<open>Tables\<close>

record UserRow =
  ur_id :: string
  ur_subject :: string
  ur_email :: "string option"
  ur_role :: string

record ClusterRow =
  cr_id :: string
  cr_name :: string
  cr_context :: "string option"
  cr_provider :: "string option"

record SessionRow =
  sr_id :: string
  sr_user :: "string option"
  sr_cluster :: "string option"
  sr_mode :: string
  sr_enabled :: "string option"
  sr_budget :: int
  sr_created :: int

record MessageRow =
  mr_id :: string
  mr_session :: string
  mr_role :: string
  mr_content :: string
  mr_tool :: "string option"
  mr_created :: int

record ToolExecRow =
  xr_id :: string
  xr_session :: string
  xr_cluster :: "string option"
  xr_tool :: string
  xr_args :: string
  xr_diff :: "string option"
  xr_risk :: string
  xr_approved_by :: "string option"
  xr_dry_run :: int
  xr_status :: string
  xr_duration_ms :: int

record AuditRow =
  al_id :: nat
  al_actor :: string
  al_action :: string
  al_payload :: string
  al_hash_prev :: string
  al_hash_curr :: string

record UsageRow =
  gr_id :: string
  gr_session :: "string option"
  gr_provider :: string
  gr_model :: string
  gr_in :: int
  gr_out :: int
  gr_cost :: rat
  gr_reason :: "string option"

record FindingRow =
  fr_id :: string
  fr_cluster :: "string option"
  fr_dedup :: string
  fr_category :: string
  fr_rule :: string
  fr_severity :: string
  fr_resource :: string
  fr_title :: string
  fr_impact :: string
  fr_root_cause :: string
  fr_remediation :: string
  fr_autofixable :: int
  fr_savings :: int
  fr_status :: string
  fr_first_seen :: int
  fr_last_seen :: int

record MemoryRow =
  yr_id :: string
  yr_session :: "string option"
  yr_kind :: string
  yr_text :: string
  yr_embedding :: "string option"
  yr_created :: int

record DB =
  db_users :: "UserRow list"
  db_clusters :: "ClusterRow list"
  db_sessions :: "SessionRow list"
  db_messages :: "MessageRow list"
  db_execs :: "ToolExecRow list"
  db_audit :: "AuditRow list"
  db_audit_seq :: nat \<comment> \<open>AUTOINCREMENT: the largest id ever given\<close>
  db_usage :: "UsageRow list"
  db_findings :: "FindingRow list"
  db_memories :: "MemoryRow list"

definition empty_DB :: DB where
  "empty_DB = \<lparr>db_users = [], db_clusters = [], db_sessions = [], db_messages = [], db_execs = [],
     db_audit = [], db_audit_seq = 0, db_usage = [], db_findings = [], db_memories = []\<rparr>"

record env =
  env_uuid :: string
  env_now :: int
  env_rand :: "nat \<Rightarrow> rand"
  env_fault :: "nat \<Rightarrow> go_error option"

definition constraint_error :: go_error where
  "constraint_error = ErrNew ''constraint failed''"

definition nullStr :: "string \<Rightarrow> string option" where
  "nullStr s = (if s = [] then None else Some s)"

definition null_text :: "string option \<Rightarrow> string" where
  "null_text s = (case s of None \<Rightarrow> [] | Some x \<Rightarrow> x)"

definition boolToInt :: "bool \<Rightarrow> int" where
  "boolToInt b = (if b then 1 else 0)"

lemma null_text_nullStr [simp]: "null_text (nullStr s) = s"
  by (simp add: null_text_def nullStr_def)

text \<open>An optional foreign key: NULL or the key of a row.\<close>

definition fk_ok :: "string option \<Rightarrow> string list \<Rightarrow> bool" where
  "fk_ok k keys = (case k of None \<Rightarrow> True | Some x \<Rightarrow> x \<in> set keys)"

section \<open>Users, clusters and sessions\<close>

definition EnsureUser :: "env \<Rightarrow> string \<Rightarrow> string \<Rightarrow> string \<Rightarrow> DB \<Rightarrow> (go_error + string) \<times> DB" where
  "EnsureUser e subject email role db =
     (case env_fault e 0 of
        Some err \<Rightarrow> (Inl err, db)
      | None \<Rightarrow>
          (case find (\<lambda>u. ur_subject u = subject) (db_users db) of
             Some u \<Rightarrow> (Inr (ur_id u), db)
           | None \<Rightarrow>
               (let role' = (if role = [] then ''reader'' else role);
                    row = \<lparr>ur_id = env_uuid e, ur_subject = subject, ur_email = nullStr email, ur_role = role'\<rparr>
                in case env_fault e 1 of
                     Some err \<Rightarrow> (Inl err, db)
                   | None \<Rightarrow>
                       if env_uuid e \<in> set (map ur_id (db_users db)) then (Inl constraint_error, db)
                       else (Inr (env_uuid e), db\<lparr>db_users := db_users db @ [row]\<rparr>))))"

definition UpsertCluster :: "env \<Rightarrow> string \<Rightarrow> string \<Rightarrow> string \<Rightarrow> DB \<Rightarrow> (go_error + string) \<times> DB" where
  "UpsertCluster e name kubeContext provider db =
     (case env_fault e 0 of
        Some err \<Rightarrow> (Inl err, db)
      | None \<Rightarrow>
          (case find (\<lambda>c. cr_name c = name) (db_clusters db) of
             Some c \<Rightarrow> (Inr (cr_id c), db)
           | None \<Rightarrow>
               (let row = \<lparr>cr_id = env_uuid e, cr_name = name, cr_context = nullStr kubeContext,
                           cr_provider = nullStr provider\<rparr>
                in case env_fault e 1 of
                     Some err \<Rightarrow> (Inl err, db)
                   | None \<Rightarrow>
                       if env_uuid e \<in> set (map cr_id (db_clusters db)) then (Inl constraint_error, db)
                       else (Inr (env_uuid e), db\<lparr>db_clusters := db_clusters db @ [row]\<rparr>))))"

text \<open>
  Both are a get-or-create on a key: an error leaves the database as it was, a success gives the id
  under which the key is found from then on, and never makes a second row.
\<close>

locale get_or_create =
  fixes goc :: "'e \<Rightarrow> 'k \<Rightarrow> 's \<Rightarrow> (go_error + string) \<times> 's"
    and lookup :: "'s \<Rightarrow> 'k \<Rightarrow> string option"
  assumes err: "goc e k s = (Inl x, s') \<Longrightarrow> s' = s"
    and found: "lookup s k = Some i \<Longrightarrow> goc e k s = (Inr j, s') \<Longrightarrow> j = i \<and> s' = s"
    and created: "lookup s k = None \<Longrightarrow> goc e k s = (Inr j, s') \<Longrightarrow>
      lookup s' = (lookup s)(k \<mapsto> j)"
begin

lemma lookup_after: "goc e k s = (Inr j, s') \<Longrightarrow> lookup s' = (lookup s)(k \<mapsto> j)"
  by (cases "lookup s k") (use found [of s k _ e j s'] created in \<open>auto simp: fun_upd_idem\<close>)

text \<open>A second call with the same key returns the same id and changes nothing.\<close>

lemma idempotent: "goc e k s = (Inr j, s') \<Longrightarrow> goc e' k s' = (Inr j', s'') \<Longrightarrow> j' = j \<and> s'' = s'"
  by (metis lookup_after found fun_upd_same)

end

definition user_id :: "DB \<Rightarrow> string \<Rightarrow> string option" where
  "user_id db subject = map_option ur_id (find (\<lambda>u. ur_subject u = subject) (db_users db))"

definition cluster_id :: "DB \<Rightarrow> string \<Rightarrow> string option" where
  "cluster_id db name = map_option cr_id (find (\<lambda>c. cr_name c = name) (db_clusters db))"

lemma find_append: "find P (xs @ ys) = (case find P xs of None \<Rightarrow> find P ys | Some x \<Rightarrow> Some x)"
  by (induction xs) auto

interpretation users: get_or_create "\<lambda>(e, email, role) subject. EnsureUser e subject email role" user_id
  by unfold_locales
    (auto simp: EnsureUser_def user_id_def Let_def find_append fun_eq_iff
      split: option.splits if_splits prod.splits)

interpretation known_clusters: get_or_create "\<lambda>(e, ctx, prov) name. UpsertCluster e name ctx prov" cluster_id
  by unfold_locales
    (auto simp: UpsertCluster_def cluster_id_def Let_def find_append fun_eq_iff
      split: option.splits if_splits prod.splits)

text \<open>\<open>json.Marshal\<close> and \<open>json.Unmarshal\<close> of a \<open>[]string\<close>; an unreadable text leaves the slice nil.\<close>

definition strings_text :: "string list \<Rightarrow> string" where
  "strings_text xs = json_text (JArr (map JStr xs))"

definition strings_of_json :: "json \<Rightarrow> string list" where
  "strings_of_json v = (case v of JArr vs \<Rightarrow> map (\<lambda>x. case x of JStr s \<Rightarrow> s | _ \<Rightarrow> []) vs | _ \<Rightarrow> [])"

definition text_strings :: "string \<Rightarrow> string list" where
  "text_strings s = (case parse_json s of None \<Rightarrow> [] | Some v \<Rightarrow> strings_of_json v)"

lemma text_strings_text [simp]: "text_strings (strings_text xs) = xs"
proof -
  have "parse_json (strings_text xs) = Some (JArr (map JStr xs))"
    unfolding strings_text_def by (rule parse_json_text) (simp add: list_all_iff)
  then show ?thesis by (simp add: text_strings_def strings_of_json_def comp_def)
qed

definition CreateSession ::
  "env \<Rightarrow> string \<Rightarrow> string \<Rightarrow> string \<Rightarrow> string list \<Rightarrow> int \<Rightarrow> DB \<Rightarrow> (go_error + string) \<times> DB" where
  "CreateSession e userID clusterID mode enabledTools budget db =
     (let row = \<lparr>sr_id = env_uuid e, sr_user = nullStr userID, sr_cluster = nullStr clusterID,
                 sr_mode = mode,
                 sr_enabled = (if enabledTools = [] then None else Some (strings_text enabledTools)),
                 sr_budget = budget, sr_created = env_now e\<rparr>
      in case env_fault e 0 of
           Some err \<Rightarrow> (Inl err, db)
         | None \<Rightarrow>
             if env_uuid e \<in> set (map sr_id (db_sessions db))
                \<or> \<not> fk_ok (nullStr userID) (map ur_id (db_users db))
                \<or> \<not> fk_ok (nullStr clusterID) (map cr_id (db_clusters db))
             then (Inl constraint_error, db)
             else (Inr (env_uuid e), db\<lparr>db_sessions := db_sessions db @ [row]\<rparr>))"

abbreviation ErrSessionNotFound :: go_error where
  "ErrSessionNotFound \<equiv> Sentinel ''session not found''"

record SessionInfo =
  si_ID :: string
  si_Mode :: string
  si_ClusterID :: string
  si_ClusterName :: string
  si_ClusterContext :: string
  si_EnabledTools :: "string list"
  si_BudgetCents :: int

text \<open>The row a LEFT JOIN on the cluster key finds.\<close>

definition joined_cluster :: "DB \<Rightarrow> string option \<Rightarrow> ClusterRow option" where
  "joined_cluster db k =
     (case k of None \<Rightarrow> None | Some i \<Rightarrow> find (\<lambda>c. cr_id c = i) (db_clusters db))"

definition session_info :: "DB \<Rightarrow> SessionRow \<Rightarrow> SessionInfo" where
  "session_info db r =
     (let c = joined_cluster db (sr_cluster r)
      in \<lparr>si_ID = sr_id r, si_Mode = sr_mode r, si_ClusterID = null_text (sr_cluster r),
          si_ClusterName = (case c of None \<Rightarrow> [] | Some x \<Rightarrow> cr_name x),
          si_ClusterContext = (case c of None \<Rightarrow> [] | Some x \<Rightarrow> null_text (cr_context x)),
          si_EnabledTools = (case sr_enabled r of
             None \<Rightarrow> [] | Some s \<Rightarrow> if s = [] then [] else text_strings s),
          si_BudgetCents = sr_budget r\<rparr>)"

definition GetSession :: "env \<Rightarrow> string \<Rightarrow> DB \<Rightarrow> go_error + SessionInfo" where
  "GetSession e i db =
     (case env_fault e 0 of
        Some err \<Rightarrow> Inl err
      | None \<Rightarrow>
          (case find (\<lambda>r. sr_id r = i) (db_sessions db) of
             None \<Rightarrow> Inl ErrSessionNotFound
           | Some r \<Rightarrow> Inr (session_info db r)))"

record SessionSummary =
  ss_ID :: string
  ss_Cluster :: string
  ss_Mode :: string
  ss_CreatedAt :: int
  ss_Messages :: nat

definition session_summary :: "DB \<Rightarrow> SessionRow \<Rightarrow> SessionSummary" where
  "session_summary db r =
     \<lparr>ss_ID = sr_id r,
      ss_Cluster = (case joined_cluster db (sr_cluster r) of None \<Rightarrow> [] | Some c \<Rightarrow> cr_name c),
      ss_Mode = sr_mode r, ss_CreatedAt = sr_created r,
      ss_Messages = length (filter (\<lambda>m. mr_session m = sr_id r) (db_messages db))\<rparr>"

text \<open>\<open>ORDER BY created_at DESC, rowid DESC LIMIT n\<close>: reversed insertion order, then a stable sort.\<close>

definition ListSessions :: "env \<Rightarrow> int \<Rightarrow> DB \<Rightarrow> go_error + SessionSummary list" where
  "ListSessions e limit db =
     (let n = (if limit \<le> 0 then 20 else nat limit)
      in case env_fault e 0 of
           Some err \<Rightarrow> Inl err
         | None \<Rightarrow>
             Inr (map (session_summary db)
                   (take n (sort_key (\<lambda>r. - sr_created r) (rev (db_sessions db))))))"

text \<open>A created session reads back with the values it was created with.\<close>

definition new_session_row :: "env \<Rightarrow> string \<Rightarrow> string \<Rightarrow> string \<Rightarrow> string list \<Rightarrow> int \<Rightarrow> SessionRow" where
  "new_session_row e userID clusterID mode enabledTools budget =
     \<lparr>sr_id = env_uuid e, sr_user = nullStr userID, sr_cluster = nullStr clusterID, sr_mode = mode,
      sr_enabled = (if enabledTools = [] then None else Some (strings_text enabledTools)),
      sr_budget = budget, sr_created = env_now e\<rparr>"

lemma CreateSession_ok:
  assumes "CreateSession e u c mode enabledTools budget db = (Inr i, db')"
  shows "i = env_uuid e \<and> find (\<lambda>r. sr_id r = i) (db_sessions db) = None \<and>
    db' = db\<lparr>db_sessions := db_sessions db @ [new_session_row e u c mode enabledTools budget]\<rparr>"
  using assms
  by (auto simp: CreateSession_def new_session_row_def Let_def find_None_iff image_iff
      split: option.splits if_splits)

lemma CreateSession_err: "CreateSession e u c mode enabledTools budget db = (Inl x, db') \<Longrightarrow> db' = db"
  by (auto simp: CreateSession_def Let_def split: option.splits if_splits)

lemma session_info_sessions [simp]: "session_info (db\<lparr>db_sessions := ss\<rparr>) r = session_info db r"
  by (cases "sr_cluster r") (simp_all add: session_info_def joined_cluster_def)

lemma strings_text_nonempty [simp]: "strings_text xs \<noteq> []"
  by (simp add: strings_text_def)

lemma GetSession_CreateSession:
  assumes "CreateSession e u c mode enabledTools budget db = (Inr i, db')" and "env_fault e' 0 = None"
  shows "\<exists>info. GetSession e' i db' = Inr info \<and> si_ID info = i \<and> si_Mode info = mode \<and>
    si_ClusterID info = c \<and> si_EnabledTools info = enabledTools \<and> si_BudgetCents info = budget"
proof -
  note ok = CreateSession_ok [OF assms(1)]
  let ?row = "new_session_row e u c mode enabledTools budget"
  have "find (\<lambda>r. sr_id r = i) (db_sessions db') = Some ?row"
    using ok by (auto simp: find_append new_session_row_def)
  then have "GetSession e' i db' = Inr (session_info db' ?row)"
    using assms(2) by (simp add: GetSession_def)
  then show ?thesis
    using ok by (simp add: session_info_def Let_def new_session_row_def)
qed

lemma CreateSession_keeps:
  assumes "CreateSession e u c mode enabledTools budget db = (r, db')" and "GetSession e' i db = Inr info"
  shows "GetSession e' i db' = Inr info"
proof (cases r)
  case (Inl x)
  with assms CreateSession_err show ?thesis by metis
next
  case (Inr j)
  with assms(1) CreateSession_ok have "db' = db\<lparr>db_sessions := db_sessions db @ [new_session_row e u c mode enabledTools budget]\<rparr>"
    by metis
  moreover from assms(2) obtain row where "find (\<lambda>r. sr_id r = i) (db_sessions db) = Some row"
    "env_fault e' 0 = None" "info = session_info db row"
    by (auto simp: GetSession_def split: option.splits)
  ultimately show ?thesis by (simp add: GetSession_def find_append)
qed

section \<open>Conversation messages\<close>

record messagePayload =
  mp_ToolCalls :: "ToolCall list"
  mp_ToolCallID :: string
  mp_Name :: string

text \<open>\<open>Args\<close> is a \<open>[]byte\<close>, which JSON carries in base64.\<close>

definition tool_call_json :: "ToolCall \<Rightarrow> json" where
  "tool_call_json tc =
     JObj [(''ID'', JStr (tc_ID tc)), (''Name'', JStr (tc_Name tc)), (''Args'', JStr (b64_encode (tc_Args tc)))]"

definition payload_json :: "messagePayload \<Rightarrow> json" where
  "payload_json p =
     JObj ((if mp_ToolCalls p = [] then [] else [(''tool_calls'', JArr (map tool_call_json (mp_ToolCalls p)))]) @
           (if mp_ToolCallID p = [] then [] else [(''tool_call_id'', JStr (mp_ToolCallID p))]) @
           (if mp_Name p = [] then [] else [(''name'', JStr (mp_Name p))]))"

text \<open>
  \<open>json.Unmarshal\<close> into the structs; \<open>None\<close> is any error (the code then ignores the payload). Of
  duplicate members the last one counts.
\<close>

definition bytes_of_json :: "json \<Rightarrow> string option" where
  "bytes_of_json v = (case v of JNull \<Rightarrow> Some [] | JStr s \<Rightarrow> b64_decode s | _ \<Rightarrow> None)"

fun last_member :: "string \<Rightarrow> json option \<Rightarrow> (string \<times> json) list \<Rightarrow> json option" where
  "last_member f cur [] = cur"
| "last_member f cur ((k, v) # kvs) = last_member f (if field_matches f k then Some v else cur) kvs"

definition bytes_field :: "string \<Rightarrow> (string \<times> json) list \<Rightarrow> string option" where
  "bytes_field f kvs = (case last_member f None kvs of None \<Rightarrow> Some [] | Some v \<Rightarrow> bytes_of_json v)"

definition tool_call_of_json :: "json \<Rightarrow> ToolCall option" where
  "tool_call_of_json v =
     (case v of
        JNull \<Rightarrow> Some \<lparr>tc_ID = [], tc_Name = [], tc_Args = []\<rparr>
      | JObj kvs \<Rightarrow>
          (if fields_error [(''ID'', FStr), (''Name'', FStr)] kvs then None
           else map_option (\<lambda>a. \<lparr>tc_ID = str_field ''ID'' [] kvs, tc_Name = str_field ''Name'' [] kvs, tc_Args = a\<rparr>)
                  (bytes_field ''Args'' kvs))
      | _ \<Rightarrow> None)"

definition tool_calls_of_json :: "json option \<Rightarrow> ToolCall list option" where
  "tool_calls_of_json v =
     (case v of
        None \<Rightarrow> Some [] | Some JNull \<Rightarrow> Some []
      | Some (JArr vs) \<Rightarrow> those (map tool_call_of_json vs)
      | Some _ \<Rightarrow> None)"

definition payload_of_json :: "json \<Rightarrow> messagePayload option" where
  "payload_of_json v =
     (case v of
        JNull \<Rightarrow> Some \<lparr>mp_ToolCalls = [], mp_ToolCallID = [], mp_Name = []\<rparr>
      | JObj kvs \<Rightarrow>
          (if fields_error [(''tool_call_id'', FStr), (''name'', FStr)] kvs then None
           else map_option (\<lambda>tcs. \<lparr>mp_ToolCalls = tcs, mp_ToolCallID = str_field ''tool_call_id'' [] kvs,
                                    mp_Name = str_field ''name'' [] kvs\<rparr>)
                  (tool_calls_of_json (last_member ''tool_calls'' None kvs)))
      | _ \<Rightarrow> None)"

lemma field_matches_payload [simp]:
  "field_matches f f"
  "\<not> field_matches ''ID'' ''Name''" "\<not> field_matches ''ID'' ''Args''" "\<not> field_matches ''Name'' ''ID''"
  "\<not> field_matches ''Name'' ''Args''" "\<not> field_matches ''Args'' ''ID''" "\<not> field_matches ''Args'' ''Name''"
  "\<not> field_matches ''tool_call_id'' ''tool_calls''" "\<not> field_matches ''tool_call_id'' ''name''"
  "\<not> field_matches ''name'' ''tool_calls''" "\<not> field_matches ''name'' ''tool_call_id''"
  "\<not> field_matches ''tool_calls'' ''tool_call_id''" "\<not> field_matches ''tool_calls'' ''name''"
  by (simp add: field_matches_def) (code_simp+)

lemma tool_call_roundtrip [simp]: "tool_call_of_json (tool_call_json tc) = Some tc"
  by (simp add: tool_call_of_json_def tool_call_json_def fields_error_def bytes_field_def bytes_of_json_def)

lemma those_map_Some [simp]: "those (map (\<lambda>x. Some (f x)) xs) = Some (map f xs)"
  by (induction xs) auto

lemma payload_roundtrip: "payload_of_json (payload_json p) = Some p"
  by (cases "mp_ToolCalls p = []"; cases "mp_ToolCallID p = []"; cases "mp_Name p = []")
    (simp_all add: payload_of_json_def payload_json_def fields_error_def tool_calls_of_json_def comp_def)

lemma no_numbers_payload [simp]: "no_numbers (payload_json p)"
  by (auto simp: payload_json_def tool_call_json_def list_all_iff)

definition has_payload :: "Message \<Rightarrow> bool" where
  "has_payload m = (m_ToolCalls m \<noteq> [] \<or> m_ToolCallID m \<noteq> [])"

definition message_payload :: "Message \<Rightarrow> string option" where
  "message_payload m =
     (if has_payload m
      then Some (json_text (payload_json
        \<lparr>mp_ToolCalls = m_ToolCalls m, mp_ToolCallID = m_ToolCallID m, mp_Name = m_Name m\<rparr>))
      else None)"

definition AppendMessage :: "Encryptor option \<Rightarrow> env \<Rightarrow> string \<Rightarrow> Message \<Rightarrow> DB \<Rightarrow> go_error option \<times> DB" where
  "AppendMessage cph e sessionID m db =
     (case store_enc cph (env_rand e 0) (m_Content m) of
        Inl err \<Rightarrow> (Some err, db)
      | Inr content \<Rightarrow>
          (case env_fault e 0 of
             Some err \<Rightarrow> (Some err, db)
           | None \<Rightarrow>
               if env_uuid e \<in> set (map mr_id (db_messages db)) \<or> sessionID \<notin> set (map sr_id (db_sessions db))
               then (Some constraint_error, db)
               else (None, db\<lparr>db_messages := db_messages db @
                      [\<lparr>mr_id = env_uuid e, mr_session = sessionID, mr_role = m_Role m, mr_content = content,
                        mr_tool = message_payload m, mr_created = env_now e\<rparr>]\<rparr>)))"

definition row_message :: "Encryptor option \<Rightarrow> MessageRow \<Rightarrow> go_error + Message" where
  "row_message cph r =
     (case store_dec cph (mr_content r) of
        Inl err \<Rightarrow> Inl err
      | Inr content \<Rightarrow>
          Inr (case Option.bind (mr_tool r) (\<lambda>s. Option.bind (parse_json s) payload_of_json) of
                 None \<Rightarrow> msg (mr_role r) content
               | Some p \<Rightarrow> \<lparr>m_Role = mr_role r, m_Content = content, m_ToolCalls = mp_ToolCalls p,
                           m_ToolCallID = mp_ToolCallID p, m_Name = mp_Name p\<rparr>))"

fun rows_messages :: "Encryptor option \<Rightarrow> MessageRow list \<Rightarrow> go_error + Message list" where
  "rows_messages cph [] = Inr []"
| "rows_messages cph (r # rs) =
     (case row_message cph r of
        Inl err \<Rightarrow> Inl err
      | Inr m \<Rightarrow> (case rows_messages cph rs of Inl err \<Rightarrow> Inl err | Inr ms \<Rightarrow> Inr (m # ms)))"

text \<open>\<open>ORDER BY created_at, rowid\<close>.\<close>

definition LoadMessages :: "Encryptor option \<Rightarrow> env \<Rightarrow> string \<Rightarrow> DB \<Rightarrow> go_error + Message list" where
  "LoadMessages cph e sessionID db =
     (case env_fault e 0 of
        Some err \<Rightarrow> Inl err
      | None \<Rightarrow> rows_messages cph
          (sort_key mr_created (filter (\<lambda>r. mr_session r = sessionID) (db_messages db))))"


text \<open>
  With encryption that decrypts to itself, loading after appending gives what loading gave before
  and the message (a tool name without tool calls and call id is not stored), as long as the clock
  has not gone back past the session's other rows.
\<close>

definition stored_form :: "Message \<Rightarrow> Message" where
  "stored_form m = (if has_payload m then m else msg (m_Role m) (m_Content m))"

lemma payload_read_back:
  "Option.bind (message_payload m) (\<lambda>s. Option.bind (parse_json s) payload_of_json) =
     (if has_payload m then Some \<lparr>mp_ToolCalls = m_ToolCalls m, mp_ToolCallID = m_ToolCallID m, mp_Name = m_Name m\<rparr>
      else None)"
  by (simp add: message_payload_def parse_json_text payload_roundtrip)

lemma rows_messages_append:
  "rows_messages cph (rs @ [r]) =
     (case rows_messages cph rs of
        Inl err \<Rightarrow> Inl err
      | Inr ms \<Rightarrow> (case row_message cph r of Inl err \<Rightarrow> Inl err | Inr m \<Rightarrow> Inr (ms @ [m])))"
  by (induction rs) (auto split: sum.splits)

lemma LoadMessages_AppendMessage:
  assumes cph: "encryptor (store_enc cph) (store_dec cph)"
    and app: "AppendMessage cph e sid m db = (None, db')"
    and clock: "\<forall>r \<in> set (db_messages db). mr_session r = sid \<longrightarrow> mr_created r \<le> env_now e"
    and load: "LoadMessages cph e' sid db = Inr ms"
  shows "LoadMessages cph e' sid db' = Inr (ms @ [stored_form m])"
proof -
  from app obtain content where content: "store_enc cph (env_rand e 0) (m_Content m) = Inr content"
    by (auto simp: AppendMessage_def split: sum.splits)
  let ?row = "\<lparr>mr_id = env_uuid e, mr_session = sid, mr_role = m_Role m, mr_content = content,
    mr_tool = message_payload m, mr_created = env_now e\<rparr>"
  have db': "db_messages db' = db_messages db @ [?row]"
    using app content by (auto simp: AppendMessage_def split: option.splits if_splits)
  have row: "row_message cph ?row = Inr (stored_form m)"
    using encryptor.dec_enc [OF cph content]
    by (simp add: row_message_def payload_read_back stored_form_def)
  let ?mine = "filter (\<lambda>r. mr_session r = sid) (db_messages db)"
  have "sort_key mr_created (filter (\<lambda>r. mr_session r = sid) (db_messages db')) = sort_key mr_created ?mine @ [?row]"
    using clock sort_key_snoc [of ?mine mr_created ?row] by (simp add: db')
  moreover from load have "env_fault e' 0 = None" "rows_messages cph (sort_key mr_created ?mine) = Inr ms"
    by (auto simp: LoadMessages_def split: option.splits)
  ultimately show ?thesis using row by (simp add: LoadMessages_def rows_messages_append)
qed

lemma AppendMessage_others:
  assumes "AppendMessage cph e sid m db = (r, db')" and "sid' \<noteq> sid"
  shows "LoadMessages cph e' sid' db' = LoadMessages cph e' sid' db"
  using assms by (auto simp: AppendMessage_def LoadMessages_def split: sum.splits option.splits if_splits)

end
