(* ===== verification/AuditLog.thy ===== *)
theory AuditLog
  imports Store "HOL-Library.Sublist"
begin

text \<open>
  The tamper-evident audit log of the SQLite store: \<open>Record\<close>, which writes the operational row and
  the hash-chained row in one transaction, and \<open>VerifyAuditChain\<close>. \<open>H\<close> is SHA-256 followed by hex
  encoding, a parameter. The mutex and the single connection make a call atomic, so a call is one
  step on the database.
\<close>

section \<open>Record\<close>

text \<open>The JSON of \<open>auditPayload\<close>; arguments that are not JSON make \<open>json.Marshal\<close> fail, and the code then
  hashes nothing.\<close>

definition json_member :: "string \<Rightarrow> string \<Rightarrow> string" where
  "json_member k v = json_quote k @ '':'' @ v"

definition audit_payload :: "AuditEntry \<Rightarrow> string \<Rightarrow> string" where
  "audit_payload e args =
     (case compact args of
        None \<Rightarrow> []
      | Some a \<Rightarrow>
          ''{'' @ join '',''
            [json_member ''tool'' (json_quote (ae_Tool e)),
             json_member ''cluster'' (json_quote (ae_Cluster e)),
             json_member ''risk'' (json_quote (RiskLevel_String (ae_Risk e))),
             json_member ''status'' (json_quote (ae_Status e)),
             json_member ''approver'' (json_quote (ae_Approver e)),
             json_member ''dry_run'' (if ae_DryRun e then ''true'' else ''false''),
             json_member ''summary'' (json_quote (ae_Summary e)),
             json_member ''args'' a] @ ''}'')"

definition entry_args :: "AuditEntry \<Rightarrow> string" where
  "entry_args e = (if ae_Args e = [] then ''{}'' else ae_Args e)"

definition entry_payload :: "AuditEntry \<Rightarrow> string" where
  "entry_payload e = audit_payload e (entry_args e)"

text \<open>The cluster key by name; a failing query is ignored.\<close>

definition resolve_cluster :: "env \<Rightarrow> AuditEntry \<Rightarrow> DB \<Rightarrow> string option" where
  "resolve_cluster en e db =
     (if ae_Cluster e \<noteq> [] \<and> env_fault en 1 = None then cluster_id db (ae_Cluster e) else None)"

definition enc_opt :: "Encryptor option \<Rightarrow> rand \<Rightarrow> string \<Rightarrow> go_error + string option" where
  "enc_opt cph rd s =
     (if s = [] then Inr None
      else (case store_enc cph rd s of Inl err \<Rightarrow> Inl err | Inr c \<Rightarrow> Inr (Some c)))"

definition exec_row :: "env \<Rightarrow> AuditEntry \<Rightarrow> string \<Rightarrow> string option \<Rightarrow> string option \<Rightarrow> ToolExecRow" where
  "exec_row en e encArgs encDiff clusterID =
     \<lparr>xr_id = env_uuid en, xr_session = ae_SessionID e, xr_cluster = clusterID, xr_tool = ae_Tool e,
      xr_args = encArgs, xr_diff = encDiff, xr_risk = RiskLevel_String (ae_Risk e),
      xr_approved_by = nullStr (ae_Approver e), xr_dry_run = boolToInt (ae_DryRun e),
      xr_status = ae_Status e,
      xr_duration_ms = (if ae_Duration e < 0 then - ((- ae_Duration e) div 1000000)
                        else ae_Duration e div 1000000)\<rparr>"

text \<open>\<open>session_id\<close> is NOT NULL, so the empty id (stored as NULL) is refused too.\<close>

definition insert_exec :: "env \<Rightarrow> ToolExecRow \<Rightarrow> DB \<Rightarrow> go_error + DB" where
  "insert_exec en row db =
     (case env_fault en 2 of
        Some err \<Rightarrow> Inl err
      | None \<Rightarrow>
          if xr_id row \<in> set (map xr_id (db_execs db)) \<or> xr_session row = []
             \<or> xr_session row \<notin> set (map sr_id (db_sessions db))
             \<or> \<not> fk_ok (xr_cluster row) (map cr_id (db_clusters db))
          then Inl constraint_error
          else Inr (db\<lparr>db_execs := db_execs db @ [row]\<rparr>))"

text \<open>The hash of the row with the largest id, empty for an empty log.\<close>

definition chain_head :: "DB \<Rightarrow> string" where
  "chain_head db = (case sort_key al_id (db_audit db) of [] \<Rightarrow> [] | r # rs \<Rightarrow> al_hash_curr (last (r # rs)))"

definition entry_actor :: "AuditEntry \<Rightarrow> string" where
  "entry_actor e = (if ae_Approver e = [] \<or> ae_Approver e = ''n/a'' then ''agent'' else ae_Approver e)"

definition insert_audit :: "AuditRow \<Rightarrow> DB \<Rightarrow> DB" where
  "insert_audit row db =
     db\<lparr>db_audit := db_audit db @ [row\<lparr>al_id := db_audit_seq db + 1\<rparr>],
        db_audit_seq := db_audit_seq db + 1\<rparr>"

definition append_chain ::
  "(string \<Rightarrow> string) \<Rightarrow> Encryptor option \<Rightarrow> env \<Rightarrow> AuditEntry \<Rightarrow> DB \<Rightarrow> go_error + DB" where
  "append_chain H cph en e db =
     (case env_fault en 3 of
        Some err \<Rightarrow> Inl err
      | None \<Rightarrow>
          (let prev = chain_head db;
               payload = entry_payload e;
               cur = H (prev @ payload)
           in case store_enc cph (env_rand en 2) payload of
                Inl err \<Rightarrow> Inl err
              | Inr storedPayload \<Rightarrow>
                  (case env_fault en 4 of
                     Some err \<Rightarrow> Inl err
                   | None \<Rightarrow>
                       Inr (insert_audit
                             \<lparr>al_id = 0, al_actor = entry_actor e, al_action = ''tool:'' @ ae_Tool e,
                              al_payload = storedPayload, al_hash_prev = prev, al_hash_curr = cur\<rparr> db))))"

text \<open>Any early return rolls the transaction back.\<close>

definition Record ::
  "(string \<Rightarrow> string) \<Rightarrow> Encryptor option \<Rightarrow> env \<Rightarrow> AuditEntry \<Rightarrow> DB \<Rightarrow> go_error option \<times> DB" where
  "Record H cph en e db =
     (case env_fault en 0 of
        Some err \<Rightarrow> (Some err, db)
      | None \<Rightarrow>
          (let clusterID = resolve_cluster en e db
           in case store_enc cph (env_rand en 0) (entry_args e) of
                Inl err \<Rightarrow> (Some err, db)
              | Inr encArgs \<Rightarrow>
                  (case enc_opt cph (env_rand en 1) (ae_Diff e) of
                     Inl err \<Rightarrow> (Some err, db)
                   | Inr encDiff \<Rightarrow>
                       (case insert_exec en (exec_row en e encArgs encDiff clusterID) db of
                          Inl err \<Rightarrow> (Some (errorf_prefix ''insert tool_execution'' err), db)
                        | Inr db1 \<Rightarrow>
                            (case append_chain H cph en e db1 of
                               Inl err \<Rightarrow> (Some err, db)
                             | Inr db2 \<Rightarrow>
                                 (case env_fault en 5 of
                                    Some err \<Rightarrow> (Some err, db)
                                  | None \<Rightarrow> (None, db2)))))))"

section \<open>VerifyAuditChain\<close>

fun verify_rows ::
  "(string \<Rightarrow> string) \<Rightarrow> (string \<Rightarrow> go_error + string) \<Rightarrow> string \<Rightarrow> AuditRow list \<Rightarrow> go_error + nat" where
  "verify_rows H dec prev [] = Inr 0"
| "verify_rows H dec prev (r # rs) =
     (case dec (al_payload r) of
        Inl err \<Rightarrow> Inl err
      | Inr clear \<Rightarrow>
          (let want = H (prev @ clear)
           in if al_hash_prev r \<noteq> prev \<or> al_hash_curr r \<noteq> want then Inr (al_id r)
              else verify_rows H dec (al_hash_curr r) rs))"

definition VerifyAuditChain ::
  "(string \<Rightarrow> string) \<Rightarrow> Encryptor option \<Rightarrow> env \<Rightarrow> DB \<Rightarrow> go_error + nat" where
  "VerifyAuditChain H cph en db =
     (case env_fault en 0 of
        Some err \<Rightarrow> Inl err
      | None \<Rightarrow> verify_rows H (store_dec cph) [] (sort_key al_id (db_audit db)))"

section \<open>The chain\<close>

fun chain_ok :: "(string \<Rightarrow> string) \<Rightarrow> (string \<Rightarrow> go_error + string) \<Rightarrow> string \<Rightarrow> AuditRow list \<Rightarrow> bool" where
  "chain_ok H dec prev [] = True"
| "chain_ok H dec prev (r # rs) =
     (al_hash_prev r = prev \<and>
      (case dec (al_payload r) of Inl _ \<Rightarrow> False | Inr clear \<Rightarrow> al_hash_curr r = H (prev @ clear)) \<and>
      chain_ok H dec (al_hash_curr r) rs)"

definition clear_text :: "(string \<Rightarrow> go_error + string) \<Rightarrow> AuditRow \<Rightarrow> string" where
  "clear_text dec r = (case dec (al_payload r) of Inl _ \<Rightarrow> [] | Inr c \<Rightarrow> c)"

text \<open>The hash after a list of rows, starting from \<open>prev\<close>.\<close>

definition head_after :: "string \<Rightarrow> AuditRow list \<Rightarrow> string" where
  "head_after prev rows = (if rows = [] then prev else al_hash_curr (last rows))"

lemma head_after_simps [simp]:
  "head_after prev [] = prev" "head_after prev (r # rs) = head_after (al_hash_curr r) rs"
  "head_after prev (rs @ [r]) = al_hash_curr r"
  by (simp_all add: head_after_def)

lemma verify_rows_iff:
  "\<forall>r \<in> set rows. al_id r \<noteq> 0 \<Longrightarrow> verify_rows H dec prev rows = Inr 0 \<longleftrightarrow> chain_ok H dec prev rows"
  by (induction rows arbitrary: prev) (auto simp: Let_def split: sum.split)

lemma chain_ok_append:
  "chain_ok H dec prev (xs @ ys) \<longleftrightarrow> chain_ok H dec prev xs \<and> chain_ok H dec (head_after prev xs) ys"
  by (induction xs arbitrary: prev) auto

lemma chain_ok_hash:
  "chain_ok H dec prev (xs @ r # ys) \<Longrightarrow>
     al_hash_prev r = head_after prev xs \<and> al_hash_curr r = H (head_after prev xs @ clear_text dec r)"
  by (auto simp: chain_ok_append clear_text_def split: sum.splits)

definition wf_audit :: "(string \<Rightarrow> string) \<Rightarrow> Encryptor option \<Rightarrow> DB \<Rightarrow> bool" where
  "wf_audit H cph db \<longleftrightarrow>
     sorted_wrt (<) (map al_id (db_audit db)) \<and>
     (\<forall>r \<in> set (db_audit db). 0 < al_id r \<and> al_id r \<le> db_audit_seq db) \<and>
     chain_ok H (store_dec cph) [] (db_audit db)"

definition audit_view :: "Encryptor option \<Rightarrow> DB \<Rightarrow> string list" where
  "audit_view cph db = map (clear_text (store_dec cph)) (db_audit db)"

lemma wf_audit_order: "wf_audit H cph db \<Longrightarrow> sort_key al_id (db_audit db) = db_audit db"
  by (intro sort_key_id_if_sorted) (auto simp: wf_audit_def intro: strict_sorted_imp_sorted)

lemma chain_head_wf: "wf_audit H cph db \<Longrightarrow> chain_head db = head_after [] (db_audit db)"
  by (simp add: chain_head_def wf_audit_order head_after_def split: list.split)

lemma wf_audit_empty [simp]: "wf_audit H cph empty_DB"
  by (simp add: wf_audit_def empty_DB_def)

section \<open>Appending\<close>

lemma insert_exec_keeps:
  "insert_exec en row db = Inr db1 \<Longrightarrow> db_audit db1 = db_audit db \<and> db_audit_seq db1 = db_audit_seq db
     \<and> db_execs db1 = db_execs db @ [row] \<and> db_sessions db1 = db_sessions db"
  by (auto simp: insert_exec_def split: option.splits if_splits)

lemma append_chain_ok:
  assumes enc: "encryptor (store_enc cph) (store_dec cph)"
    and wf: "wf_audit H cph db" and app: "append_chain H cph en e db = Inr db'"
  shows "wf_audit H cph db' \<and> audit_view cph db' = audit_view cph db @ [entry_payload e]
    \<and> db_execs db' = db_execs db"
proof -
  from app obtain c where c: "store_enc cph (env_rand en 2) (entry_payload e) = Inr c"
    by (auto simp: append_chain_def Let_def split: option.splits sum.splits)
  let ?row = "\<lparr>al_id = db_audit_seq db + 1, al_actor = entry_actor e, al_action = ''tool:'' @ ae_Tool e,
    al_payload = c, al_hash_prev = chain_head db, al_hash_curr = H (chain_head db @ entry_payload e)\<rparr>"
  have db': "db_audit db' = db_audit db @ [?row]" "db_audit_seq db' = db_audit_seq db + 1"
      "db_execs db' = db_execs db"
    using app c by (auto simp: append_chain_def insert_audit_def Let_def split: option.splits)
  have dec: "store_dec cph c = Inr (entry_payload e)" by (rule encryptor.dec_enc [OF enc c])
  have "wf_audit H cph db'"
    using wf dec by (fastforce simp: wf_audit_def db' sorted_wrt_append chain_ok_append chain_head_wf [OF wf])
  moreover have "audit_view cph db' = audit_view cph db @ [entry_payload e]"
    by (simp add: audit_view_def db' clear_text_def dec)
  ultimately show ?thesis by (simp add: db')
qed

text \<open>
  What the dispatch chain relies on: a sink that either records the entry, at the end of what it has
  recorded, or changes nothing.
\<close>

locale audit_sink =
  fixes rec :: "'a \<Rightarrow> 's \<Rightarrow> go_error option \<times> 's"
    and view :: "'s \<Rightarrow> 'p list"
    and entry :: "'a \<Rightarrow> 'p"
    and inv :: "'s \<Rightarrow> bool"
  assumes failed: "rec a s = (Some err, s') \<Longrightarrow> s' = s"
    and recorded: "inv s \<Longrightarrow> rec a s = (None, s') \<Longrightarrow> inv s' \<and> view s' = view s @ [entry a]"
begin

fun record_all :: "'a list \<Rightarrow> 's \<Rightarrow> go_error option list \<times> 's" where
  "record_all [] s = ([], s)"
| "record_all (a # as) s =
     (let (r, s1) = rec a s; (rs, s2) = record_all as s1 in (r # rs, s2))"

text \<open>After any sequence of calls the sink shows exactly the entries whose call succeeded, in order.\<close>

lemma record_all_view:
  "inv s \<Longrightarrow> record_all as s = (rs, s') \<Longrightarrow>
     inv s' \<and> view s' = view s @ map (entry \<circ> fst) (filter (\<lambda>(a, r). r = None) (zip as rs))"
proof (induction as arbitrary: s rs)
  case (Cons a as)
  obtain r s1 where r: "rec a s = (r, s1)" by fastforce
  obtain rs1 where rs1: "record_all as s1 = (rs1, s')" "rs = r # rs1"
    using Cons.prems(2) r by (auto split: prod.splits)
  show ?case
  proof (cases r)
    case None
    from recorded [OF Cons.prems(1)] r None have s1: "inv s1" "view s1 = view s @ [entry a]" by auto
    from Cons.IH [OF s1(1) rs1(1)] s1(2) rs1(2) None show ?thesis by simp
  next
    case (Some err)
    with r failed have "s1 = s" by blast
    with Cons.IH [of s rs1] Cons.prems(1) rs1 Some show ?thesis by simp
  qed
qed simp

lemma fold_view:
  "inv s \<Longrightarrow> inv (fold (\<lambda>a s. snd (rec a s)) as s) \<and>
     (\<exists>bs. subseq bs as \<and> view (fold (\<lambda>a s. snd (rec a s)) as s) = view s @ map entry bs)"
proof (induction as arbitrary: s)
  case (Cons a as)
  show ?case
  proof (cases "rec a s")
    case (Pair r s1)
    show ?thesis
    proof (cases r)
      case None
      from recorded [OF Cons.prems] Pair None have s1: "inv s1" "view s1 = view s @ [entry a]" by auto
      from Cons.IH [OF s1(1)] obtain bs where
        "inv (fold (\<lambda>a s. snd (rec a s)) as s1)" "subseq bs as"
        "view (fold (\<lambda>a s. snd (rec a s)) as s1) = view s1 @ map entry bs" by blast
      with s1(2) Pair show ?thesis by (auto intro!: exI [of _ "a # bs"])
    next
      case (Some err)
      with Pair failed have "s1 = s" by blast
      with Cons Pair show ?thesis by (auto intro: list_emb_Cons)
    qed
  qed
qed simp

end

locale sqlite_audit = encryptor "store_enc cph" "store_dec cph" for cph :: "Encryptor option"

lemma Record_failed: "Record H cph en e db = (Some err, db') \<Longrightarrow> db' = db"
  by (auto simp: Record_def Let_def split: option.splits sum.splits)

lemma Record_ok:
  assumes "Record H cph en e db = (None, db')"
  obtains row db1 where "insert_exec en row db = Inr db1" "append_chain H cph en e db1 = Inr db'"
  using assms by (auto simp: Record_def Let_def split: option.splits sum.splits)

lemma Record_recorded:
  assumes "encryptor (store_enc cph) (store_dec cph)" and "wf_audit H cph db"
    and "Record H cph en e db = (None, db')"
  shows "wf_audit H cph db' \<and> audit_view cph db' = audit_view cph db @ [entry_payload e] \<and>
    length (db_execs db') = Suc (length (db_execs db))"
proof -
  from assms(3) obtain row db1 where r: "insert_exec en row db = Inr db1" "append_chain H cph en e db1 = Inr db'"
    by (rule Record_ok)
  have "wf_audit H cph db1" "audit_view cph db1 = audit_view cph db"
    using insert_exec_keeps [OF r(1)] assms(2) by (simp_all add: wf_audit_def audit_view_def)
  with append_chain_ok [OF assms(1) _ r(2)] insert_exec_keeps [OF r(1)] show ?thesis by simp
qed

lemma sqlite_sink:
  assumes "encryptor (store_enc cph) (store_dec cph)"
  shows "audit_sink (\<lambda>(en, e). Record H cph en e) (audit_view cph) (\<lambda>(en, e). entry_payload e) (wf_audit H cph)"
  by unfold_locales (auto dest: Record_failed Record_recorded [OF assms])

sublocale sqlite_audit \<subseteq> sink: audit_sink "\<lambda>(en, e). Record H cph en e" "audit_view cph"
    "\<lambda>(en, e). entry_payload e" "wf_audit H cph" for H
  by (rule sqlite_sink) (rule encryptor_axioms)

interpretation plain_log: sqlite_audit None
  by unfold_locales (rule plain.dec_enc)

lemma Verify_wf: "wf_audit H cph db \<Longrightarrow> env_fault en 0 = None \<Longrightarrow> VerifyAuditChain H cph en db = Inr 0"
  by (simp add: VerifyAuditChain_def wf_audit_order)
    (subst verify_rows_iff; fastforce simp: wf_audit_def)

section \<open>Tampering\<close>

text \<open>The strings that were hashed to make a list of rows.\<close>

fun hashed :: "(string \<Rightarrow> go_error + string) \<Rightarrow> string \<Rightarrow> AuditRow list \<Rightarrow> string list" where
  "hashed dec prev [] = []"
| "hashed dec prev (r # rs) = (prev @ clear_text dec r) # hashed dec (al_hash_curr r) rs"

lemma hashed_append: "hashed dec prev (xs @ ys) = hashed dec prev xs @ hashed dec (head_after prev xs) ys"
  by (induction xs arbitrary: prev) auto

text \<open>
  The head pins the log: two verified logs of one length with the same last hash hold the same
  records, or two of the strings hashed to make them are a collision of the hash.
\<close>

lemma head_pins_log:
  assumes len: "\<And>x y. length (H x) = length (H y)"
    and "length xs = length ys" "chain_ok H dec [] xs" "chain_ok H dec [] ys"
    and "head_after [] xs = head_after [] ys"
  shows "map (clear_text dec) xs = map (clear_text dec) ys \<or>
    (\<exists>a \<in> set (hashed dec [] xs). \<exists>b \<in> set (hashed dec [] ys). a \<noteq> b \<and> H a = H b)"
  using assms(2-)
proof (induction xs arbitrary: ys rule: rev_induct)
  case (snoc r xs)
  from snoc.prems(1) obtain ys' q where ys: "ys = ys' @ [q]" by (cases ys rule: rev_cases) auto
  let ?a = "head_after [] xs @ clear_text dec r" and ?b = "head_after [] ys' @ clear_text dec q"
  have r: "al_hash_curr r = H ?a" and q: "al_hash_curr q = H ?b"
    using snoc.prems(2,3) chain_ok_hash [of H dec "[]" _ _ "[]"] ys by auto
  have oks: "chain_ok H dec [] xs" "chain_ok H dec [] ys'" and lens: "length xs = length ys'"
    using snoc.prems ys by (auto simp: chain_ok_append)
  have H: "H ?a = H ?b" using snoc.prems(4) r q ys by simp
  show ?case
  proof (cases "?a = ?b")
    case False
    with H show ?thesis by (auto simp: ys hashed_append)
  next
    case True
    have hash: "\<exists>p. head_after [] zs = H p" if "chain_ok H dec [] zs" "zs \<noteq> []" for zs
      using that by (cases zs rule: rev_cases) (auto dest: chain_ok_hash)
    have "length (head_after [] xs) = length (head_after [] ys')"
    proof (cases "xs = []")
      case True
      with lens show ?thesis by simp
    next
      case False
      with lens have "ys' \<noteq> []" by auto
      with hash [OF oks(1) False] hash [OF oks(2)] len show ?thesis by metis
    qed
    with True have eqs: "head_after [] xs = head_after [] ys'" "clear_text dec r = clear_text dec q" by auto
    from snoc.IH [OF lens oks eqs(1)] eqs(2) show ?thesis by (auto simp: ys hashed_append)
  qed
qed simp

text \<open>A record rewritten in place, with its hash kept or with later records behind it.\<close>

lemma rewrite_detected:
  assumes "chain_ok H dec [] (xs @ r # ys)" and "chain_ok H dec [] (xs @ r' # ys)"
    and "ys \<noteq> [] \<or> al_hash_curr r' = al_hash_curr r"
  shows "H (head_after [] xs @ clear_text dec r') = H (head_after [] xs @ clear_text dec r)"
proof -
  have "al_hash_curr r' = al_hash_curr r"
    using assms by (cases ys) (auto simp: chain_ok_append)
  with chain_ok_hash [OF assms(1)] chain_ok_hash [OF assms(2)] show ?thesis by simp
qed

text \<open>A record deleted from before others.\<close>

lemma deletion_detected:
  assumes "chain_ok H dec [] (xs @ r # q # ys)" and "chain_ok H dec [] (xs @ q # ys)"
  shows "H (head_after [] xs @ clear_text dec r) = head_after [] xs"
  using chain_ok_hash [OF assms(1)] chain_ok_hash [OF assms(2)] assms(1)
  by (auto simp: chain_ok_append)

text \<open>What the chain does not cover: the columns actor and action, and rows cut off at the end.\<close>

lemma actor_not_covered:
  "chain_ok H dec prev (xs @ r\<lparr>al_actor := a, al_action := b\<rparr> # ys) \<longleftrightarrow> chain_ok H dec prev (xs @ r # ys)"
  by (simp add: chain_ok_append cong: sum.case_cong)

lemma truncation_undetected: "chain_ok H dec prev (xs @ ys) \<Longrightarrow> chain_ok H dec prev xs"
  by (simp add: chain_ok_append)

section \<open>Properties\<close>

text \<open>Recording is atomic and keeps the log verifiable: an error leaves the whole database as it was; a success
  adds one operational row and one log entry whose decrypted payload is the entry's JSON, after all
  earlier ones, and the log still verifies as intact.\<close>

theorem record_appends_to_chain:
  assumes "cipher_ok cph" and "wf_audit H cph db"
  shows "(\<exists>err. Record H cph en e db = (Some err, db)) \<or>
    (\<exists>db'. Record H cph en e db = (None, db') \<and> wf_audit H cph db' \<and>
       audit_view cph db' = audit_view cph db @ [entry_payload e] \<and>
       length (db_execs db') = length (db_execs db) + 1 \<and>
       VerifyAuditChain H cph (en\<lparr>env_fault := \<lambda>_. None\<rparr>) db' = Inr 0)"
proof -
  obtain r db' where r: "Record H cph en e db = (r, db')" by fastforce
  show ?thesis
  proof (cases r)
    case (Some err)
    with r Record_failed show ?thesis by blast
  next
    case None
    note ok = Record_recorded [OF cipher_ok_encryptor [OF assms(1)] assms(2)] r None
    then have wf: "wf_audit H cph db'" by blast
    then have "VerifyAuditChain H cph (en\<lparr>env_fault := \<lambda>_. None\<rparr>) db' = Inr 0"
      by (rule Verify_wf) simp
    with ok show ?thesis by auto
  qed
qed

text \<open>C6: However many records were attempted from an empty database, with whatever failures in between, the log
  verifies as intact and holds the payloads of some of the attempts in their order.\<close>

theorem audit_log_always_verifies:
  assumes "cipher_ok cph" and "env_fault en' 0 = None" and "wf_audit H cph db"
  shows "VerifyAuditChain H cph en' (fold (\<lambda>(en, e) db. snd (Record H cph en e db)) calls db) = Inr 0 \<and>
    (\<exists>done. subseq done calls \<and>
       audit_view cph (fold (\<lambda>(en, e) db. snd (Record H cph en e db)) calls db) =
         audit_view cph db @ map (\<lambda>(en, e). entry_payload e) done)"
proof -
  have "(\<lambda>a. \<lambda>s. snd ((\<lambda>(en, e). Record H cph en e) a s)) = (\<lambda>(en, e) db. snd (Record H cph en e db))"
    by (simp add: fun_eq_iff split: prod.split)
  with audit_sink.fold_view [OF sqlite_sink [OF cipher_ok_encryptor [OF assms(1)]], OF assms(3), of calls]
  show ?thesis using Verify_wf assms(2) by fastforce
qed



section \<open>Witnesses\<close>

definition demo_env :: env where
  "demo_env = \<lparr>env_uuid = ''u1'', env_now = 0, env_rand = (\<lambda>_. Some (\<lambda>_. CHR ''n'')), env_fault = (\<lambda>_. None)\<rparr>"

definition demo_db :: DB where
  "demo_db = empty_DB\<lparr>db_sessions := [\<lparr>sr_id = ''s1'', sr_user = None, sr_cluster = None, sr_mode = ''apply'',
     sr_enabled = None, sr_budget = 0, sr_created = 0\<rparr>]\<rparr>"

lemma demo_db_wf: "wf_audit H cph demo_db"
  by (simp add: demo_db_def wf_audit_def empty_DB_def)

text \<open>A stand-in for the hash of fixed length: the last two characters.\<close>

definition demo_hash :: "string \<Rightarrow> string" where
  "demo_hash s = rev (take 2 (rev s @ ''00''))"

lemma demo_hash_length: "length (demo_hash x) = length (demo_hash y)"
  by (simp add: demo_hash_def)

definition demo_cipher :: "Encryptor option" where
  "demo_cipher = Some (Cipher_Encryptor demo_aead)"

theorem record_appends_to_chain_witness:
  "\<exists>db'. Record demo_hash demo_cipher demo_env (demo_entry ''d'' ''alice'' ''ok'' ''done'') demo_db = (None, db') \<and>
     audit_view demo_cipher db' = [entry_payload (demo_entry ''d'' ''alice'' ''ok'' ''done'')]"
proof -
  have "fst (Record demo_hash demo_cipher demo_env (demo_entry ''d'' ''alice'' ''ok'' ''done'') demo_db) = None"
    by code_simp
  then show ?thesis
    using record_appends_to_chain [OF demo_cipher_ok(2) demo_db_wf, of demo_hash demo_env
      "demo_entry ''d'' ''alice'' ''ok'' ''done''"]
    by (auto simp: demo_cipher_def audit_view_def demo_db_def empty_DB_def)
qed

theorem audit_log_always_verifies_witness:
  "VerifyAuditChain demo_hash None demo_env
     (fold (\<lambda>(en, e) db. snd (Record demo_hash None en e db))
       [(demo_env, demo_entry ''d'' ''alice'' ''ok'' ''done''), (demo_env, demo_entry [] [] ''error'' [])] demo_db) = Inr 0"
  using audit_log_always_verifies [OF demo_cipher_ok(1) _ demo_db_wf, of demo_env demo_hash
    "[(demo_env, demo_entry ''d'' ''alice'' ''ok'' ''done''), (demo_env, demo_entry [] [] ''error'' [])]"]
  by (simp add: demo_env_def)

definition demo_row :: "nat \<Rightarrow> string \<Rightarrow> string \<Rightarrow> string \<Rightarrow> AuditRow" where
  "demo_row i payload prev cur = \<lparr>al_id = i, al_actor = ''agent'', al_action = ''tool:t'', al_payload = payload,
     al_hash_prev = prev, al_hash_curr = cur\<rparr>"



end
