(* ===== verification/Migrate.thy ===== *)
theory Migrate
  imports Prelude
begin

text \<open>
  The migration runner of the stores (\<open>migrate\<close> in internal/store/sqlite.go): every embedded \<open>.sql\<close>
  file whose name is not recorded in \<open>schema_migrations\<close> is applied, in the order of the names.
  What a script does to the schema, and whether it fails, is a parameter \<open>exec\<close>; the driver's other
  failures are given per statement by \<open>fault\<close>. A failed script may have done part of its work.
\<close>

record 's Schema =
  applied :: "string list"
  schema :: 's

type_synonym files = "(string \<times> bool \<times> string) list" \<comment> \<open>name, is a directory, contents\<close>

definition sql_names :: "files \<Rightarrow> string list" where
  "sql_names fs = sort (map fst (filter (\<lambda>(n, dir, body). \<not> dir \<and> has_suffix n ''.sql'') fs))"

datatype statement = CreateTable | ReadDir | Count string | ReadFile string | Insert string

definition body_of :: "files \<Rightarrow> string \<Rightarrow> string" where
  "body_of fs n = (case map_of fs n of None \<Rightarrow> [] | Some (dir, body) \<Rightarrow> body)"

fun apply_all ::
  "(string \<Rightarrow> 's \<Rightarrow> go_error option \<times> 's) \<Rightarrow> (statement \<Rightarrow> go_error option) \<Rightarrow> files \<Rightarrow> string list \<Rightarrow> 's Schema \<Rightarrow>
   go_error option \<times> 's Schema" where
  "apply_all exec fault fs [] s = (None, s)"
| "apply_all exec fault fs (n # ns) s =
     (case fault (Count n) of
        Some e \<Rightarrow> (Some e, s)
      | None \<Rightarrow>
          if n \<in> set (applied s) then apply_all exec fault fs ns s
          else
            (case fault (ReadFile n) of
               Some e \<Rightarrow> (Some e, s)
             | None \<Rightarrow>
                 (let (err, sc) = exec (body_of fs n) (schema s); s1 = s\<lparr>schema := sc\<rparr>
                  in case err of
                       Some e \<Rightarrow> (Some (errorf_prefix (''apply migration '' @ n) e), s1)
                     | None \<Rightarrow>
                         (case fault (Insert n) of
                            Some e \<Rightarrow> (Some e, s1)
                          | None \<Rightarrow> apply_all exec fault fs ns (s1\<lparr>applied := applied s1 @ [n]\<rparr>)))))"

definition migrate ::
  "(string \<Rightarrow> 's \<Rightarrow> go_error option \<times> 's) \<Rightarrow> (statement \<Rightarrow> go_error option) \<Rightarrow> files \<Rightarrow> 's Schema \<Rightarrow>
   go_error option \<times> 's Schema" where
  "migrate exec fault fs s =
     (case fault CreateTable of
        Some e \<Rightarrow> (Some (errorf_prefix ''create schema_migrations'' e), s)
      | None \<Rightarrow>
          (case fault ReadDir of
             Some e \<Rightarrow> (Some e, s)
           | None \<Rightarrow> apply_all exec fault fs (sql_names fs) s))"

text \<open>The names still to apply, and the schema once their scripts have run in order.\<close>

definition pending :: "files \<Rightarrow> 's Schema \<Rightarrow> string list" where
  "pending fs s = filter (\<lambda>n. n \<notin> set (applied s)) (sql_names fs)"

fun run_scripts :: "(string \<Rightarrow> 's \<Rightarrow> go_error option \<times> 's) \<Rightarrow> string list \<Rightarrow> 's \<Rightarrow> 's" where
  "run_scripts exec [] sc = sc"
| "run_scripts exec (b # bs) sc = run_scripts exec bs (snd (exec b sc))"

lemma apply_all_ok:
  assumes "apply_all exec fault fs ns s = (None, s')" and "distinct ns"
  shows "applied s' = applied s @ filter (\<lambda>n. n \<notin> set (applied s)) ns \<and>
    schema s' = run_scripts exec (map (body_of fs) (filter (\<lambda>n. n \<notin> set (applied s)) ns)) (schema s)"
  using assms
proof (induction ns arbitrary: s)
  case (Cons n ns)
  show ?case
  proof (cases "n \<in> set (applied s)")
    case True
    with Cons show ?thesis by (auto split: option.splits)
  next
    case False
    obtain sc where sc: "exec (body_of fs n) (schema s) = (None, sc)"
      "apply_all exec fault fs ns (s\<lparr>schema := sc, applied := applied s @ [n]\<rparr>) = (None, s')"
      using Cons.prems(1) False by (auto simp: Let_def split: option.splits prod.splits)
    have "filter (\<lambda>m. m \<notin> set (applied s @ [n])) ns = filter (\<lambda>m. m \<notin> set (applied s)) ns"
      using Cons.prems(2) by (auto intro: filter_cong)
    with Cons.IH [OF sc(2)] Cons.prems(2) sc(1) False show ?thesis by simp
  qed
qed simp

lemma apply_all_recorded:
  "apply_all exec fault fs ns s = (r, s') \<Longrightarrow> set (applied s) \<subseteq> set (applied s') \<and> set (applied s') \<subseteq> set (applied s) \<union> set ns"
  by (induction ns arbitrary: s) (fastforce simp: Let_def split: option.splits prod.splits if_splits)+

lemma apply_all_nothing:
  "set ns \<subseteq> set (applied s) \<Longrightarrow> \<forall>st. fault st = None \<Longrightarrow> apply_all exec fault fs ns s = (None, s)"
  by (induction ns) auto

section \<open>Property\<close>

text \<open>A successful migration applies exactly the scripts that were pending, each once, in the order of their
  names, and records each; after it nothing is pending and running it again changes nothing. Whether
  it succeeds or not, no record is lost and only names of embedded scripts are added.\<close>

theorem migrations_run_once_in_order:
  assumes "migrate exec fault fs s = (r, s')" and "distinct (map fst fs)"
  shows "(r = None \<longrightarrow> applied s' = applied s @ pending fs s \<and> sorted (pending fs s) \<and> distinct (pending fs s) \<and>
       schema s' = run_scripts exec (map (body_of fs) (pending fs s)) (schema s) \<and>
       pending fs s' = [] \<and> migrate exec (\<lambda>_. None) fs s' = (None, s')) \<and>
    set (applied s) \<subseteq> set (applied s') \<and> set (applied s') \<subseteq> set (applied s) \<union> set (sql_names fs)"
proof -
  have dist: "distinct (sql_names fs)" using assms(2) by (simp add: sql_names_def distinct_map_filter)
  have ok: "applied s' = applied s @ pending fs s \<and>
      schema s' = run_scripts exec (map (body_of fs) (pending fs s)) (schema s)" if "r = None"
    using apply_all_ok [OF _ dist, of exec fault fs s s'] assms(1) that
    by (auto simp: migrate_def pending_def split: option.splits)
  have sub: "set (sql_names fs) \<subseteq> set (applied s')" if "r = None" using ok [OF that] by (auto simp: pending_def)
  have "pending fs s' = [] \<and> migrate exec (\<lambda>_. None) fs s' = (None, s')" if "r = None"
    using sub [OF that] apply_all_nothing [of "sql_names fs" s' "\<lambda>_. None"]
    by (auto simp: migrate_def pending_def filter_empty_conv)
  moreover have "sorted (pending fs s)" "distinct (pending fs s)"
    using dist by (auto simp: pending_def sql_names_def sorted_filter [where f = id, simplified])
  moreover have "set (applied s) \<subseteq> set (applied s') \<and> set (applied s') \<subseteq> set (applied s) \<union> set (sql_names fs)"
    using assms(1) apply_all_recorded [of exec fault fs "sql_names fs" s r s']
    by (auto simp: migrate_def split: option.splits)
  ultimately show ?thesis using ok by blast
qed

text \<open>A schema that is the list of the scripts run.\<close>

definition demo_files :: files where
  "demo_files = [(''0002_b.sql'', False, ''B''), (''old'', True, []), (''0001_a.sql'', False, ''A''), (''README'', False, [])]"

definition demo_schema :: "string list Schema" where
  "demo_schema = \<lparr>applied = [], schema = []\<rparr>"

lemma demo_migrate:
  "migrate (\<lambda>b sc. (None, sc @ [b])) (\<lambda>_. None) demo_files demo_schema =
     (None, \<lparr>applied = [''0001_a.sql'', ''0002_b.sql''], schema = [''A'', ''B'']\<rparr>)"
  by code_simp

theorem migrations_run_once_in_order_witness:
  "pending demo_files \<lparr>applied = [''0001_a.sql'', ''0002_b.sql''], schema = [''A'', ''B'']\<rparr> = [] \<and>
   [''0001_a.sql'', ''0002_b.sql''] = applied demo_schema @ pending demo_files demo_schema"
proof -
  have "distinct (map fst demo_files)" by (simp add: demo_files_def)
  from migrations_run_once_in_order [OF demo_migrate this] show ?thesis unfolding Schema.simps by blast
qed

end
