(* ===== verification/SecPolicy.thy ===== *)
theory SecPolicy
  imports Registry
begin

text \<open>
  The mutation policy (internal/security/policy.go): reads pass, mutations in a protected
  namespace are denied, destructive and (when configured) cluster-scoped mutations are forced
  through approval. \<open>Policy_Check\<close> is the \<open>Check\<close> method; it reads the namespace from the raw
  arguments and ignores a decoding error, as the Go code does.
\<close>

record Policy =
  DenyNamespaces :: "string \<Rightarrow> bool"
  ClusterWideRequiresApproval :: bool

definition DefaultPolicy :: Policy where
  "DefaultPolicy =
     \<lparr>DenyNamespaces = (\<lambda>ns. ns = ''kube-system'' \<or> ns = ''kube-node-lease''),
      ClusterWideRequiresApproval = True\<rparr>"

definition args_namespace :: "RawArgs \<Rightarrow> string" where
  "args_namespace args = str_field ''namespace'' [] (fst (struct_members args))"

definition Policy_Check :: "Policy \<Rightarrow> 'w PolicyCheck" where
  "Policy_Check p t args w =
     (if \<not> Mutating t then
        ((\<lparr>pd_Allow = True, pd_RequireApproval = False, pd_Reason = [],
           pd_BlastRadius = ''namespace''\<rparr>, None), w)
      else
        (let ns = args_namespace args in
         if ns \<noteq> [] \<and> DenyNamespaces p ns then
           ((\<lparr>pd_Allow = False, pd_RequireApproval = False,
              pd_Reason = ''mutations are blocked in protected namespace '' @ ns,
              pd_BlastRadius = []\<rparr>, None), w)
         else
           (let blast = (if ns = [] then ''cluster'' else ''namespace'');
                d0 = \<lparr>pd_Allow = True, pd_RequireApproval = False, pd_Reason = [],
                      pd_BlastRadius = blast\<rparr>;
                d1 = (if t_Risk t = Destructive
                      then d0\<lparr>pd_RequireApproval := True, pd_Reason := ''destructive action''\<rparr> else d0);
                d2 = (if blast = ''cluster'' \<and> ClusterWideRequiresApproval p
                      then d1\<lparr>pd_RequireApproval := True, pd_Reason := ''cluster-scoped mutation''\<rparr> else d1)
            in ((d2, None), w))))"

lemma Policy_Check_no_error [simp]: "snd (fst (Policy_Check p t args w)) = None"
  and Policy_Check_world [simp]: "snd (Policy_Check p t args w) = w"
  by (simp_all add: Policy_Check_def Let_def)

lemma Policy_Check_allow_iff:
  "pd_Allow (fst (fst (Policy_Check p t args w))) \<longleftrightarrow>
     \<not> (Mutating t \<and> args_namespace args \<noteq> [] \<and> DenyNamespaces p (args_namespace args))"
  by (simp add: Policy_Check_def Let_def)

lemma Policy_Check_approval_iff:
  assumes "pd_Allow (fst (fst (Policy_Check p t args w)))"
  shows "pd_RequireApproval (fst (fst (Policy_Check p t args w))) \<longleftrightarrow>
     t_Risk t = Destructive \<or>
     (Mutating t \<and> args_namespace args = [] \<and> ClusterWideRequiresApproval p)"
  using assms unfolding Policy_Check_allow_iff
  by (cases "t_Risk t") (auto simp: Policy_Check_def Let_def)

lemma Policy_Check_blast:
  assumes "pd_Allow (fst (fst (Policy_Check p t args w)))"
  shows "pd_BlastRadius (fst (fst (Policy_Check p t args w))) =
     (if Mutating t \<and> args_namespace args = [] then ''cluster'' else ''namespace'')"
  using assms unfolding Policy_Check_allow_iff by (auto simp: Policy_Check_def Let_def)

text \<open>With this policy wired in, a dispatch that gets past step 4 is one the policy allows.\<close>

lemma policy_step_Policy:
  assumes "policy reg = Some (Policy_Check p)"
    and "policy_step clk reg t sp name args start s = (Inr pd, s')"
  shows "pd = fst (fst (Policy_Check p t args (world s))) \<and> pd_Allow pd"
  using assms by (cases "fst (Policy_Check p t args (world s))")
    (auto simp: policy_step_def Let_def split: prod.splits if_splits option.splits)

section \<open>Properties\<close>

text \<open>C34: The default rules of the policy: it never fails and never touches the world; it denies exactly the
  mutations that name a protected namespace; what it lets pass needs approval exactly when it is
  destructive, or a mutation without a namespace while cluster-wide writes need approval.\<close>

theorem policy_decision:
  "snd (Policy_Check p t args w) = w \<and> snd (fst (Policy_Check p t args w)) = None \<and>
   pd_Allow (fst (fst (Policy_Check p t args w))) =
     (\<not> (Mutating t \<and> args_namespace args \<noteq> [] \<and> DenyNamespaces p (args_namespace args))) \<and>
   (pd_Allow (fst (fst (Policy_Check p t args w))) \<and> pd_RequireApproval (fst (fst (Policy_Check p t args w)))) =
     (pd_Allow (fst (fst (Policy_Check p t args w))) \<and>
      (t_Risk t = Destructive \<or> (Mutating t \<and> args_namespace args = [] \<and> ClusterWideRequiresApproval p)))"
  using Policy_Check_allow_iff [of p t args w] Policy_Check_approval_iff [of p t args w] by auto

end
