(* ===== verification/K8s.thy ===== *)
theory K8s
  imports Prelude "HOL-Library.AList" "HOL-Library.Word"
begin

text \<open>
  The Kubernetes layer (internal/k8s): the fields of the API objects the program reads, the calls
  on the API server as a record of functions over the world (\<open>KubeApi\<close>, a parameter everywhere:
  client-go is not part of the repository), the cluster registry with its active selection
  (multicluster.go), the RBAC preflight (rbac.go) and the snapshot (snapshot.go).
  A 32-bit counter that is added up is a \<open>32 word\<close>; a number only compared or printed an \<open>int\<close>.
\<close>

section \<open>API objects\<close>

record Condition =
  cond_Type :: string
  cond_Status :: string
  cond_Reason :: string
  cond_Message :: string

record ContainerStatus =
  cs_Name :: string
  cs_Ready :: bool
  cs_RestartCount :: "32 word"
  cs_Waiting :: "(string \<times> string) option" \<comment> \<open>reason, message\<close>
  cs_Terminated :: "(string \<times> int) option" \<comment> \<open>reason, exit code\<close>
  cs_LastTerminated :: "(string \<times> int) option"

record Pod =
  pod_Namespace :: string
  pod_Name :: string
  pod_Phase :: string
  pod_NodeName :: string
  pod_Conditions :: "Condition list"
  pod_Statuses :: "ContainerStatus list"

record Container =
  ctr_Name :: string
  ctr_ReadinessProbe :: bool \<comment> \<open>whether it is set\<close>
  ctr_LivenessProbe :: bool
  ctr_SecurityContext :: "bool option option" \<comment> \<open>absent, or its \<open>Privileged\<close> pointer\<close>
  ctr_Requests :: "string list option" \<comment> \<open>the resource names of the map, absent for nil\<close>
  ctr_Limits :: "string list option"

record Volume =
  vol_Name :: string
  vol_HostPath :: "string option"

record Deployment =
  dep_Namespace :: string
  dep_Name :: string
  dep_SpecReplicas :: "int option"
  dep_Containers :: "Container list"
  dep_Volumes :: "Volume list"
  dep_Replicas :: int
  dep_ReadyReplicas :: int
  dep_AvailableReplicas :: int
  dep_UpdatedReplicas :: int
  dep_Conditions :: "Condition list"

record Event =
  ev_Type :: string
  ev_Reason :: string
  ev_Message :: string
  ev_Kind :: string
  ev_Name :: string
  ev_LastTimestamp :: "int option" \<comment> \<open>\<open>None\<close> is the zero time\<close>
  ev_EventTime :: "int option"
  ev_CreationTimestamp :: int

record PodLogOptions =
  log_Container :: string
  log_TailLines :: int
  log_Previous :: bool

datatype PatchType = MergePatch | StrategicMergePatch

record Cluster =
  c_Name :: string
  c_Context :: string

record 'w KubeApi =
  k_ListPods :: "Cluster \<Rightarrow> string \<Rightarrow> 'w \<Rightarrow> (go_error + Pod list) \<times> 'w"
  k_ListDeployments :: "Cluster \<Rightarrow> string \<Rightarrow> 'w \<Rightarrow> (go_error + Deployment list) \<times> 'w"
  k_ListNodes :: "Cluster \<Rightarrow> 'w \<Rightarrow> (go_error + string list) \<times> 'w"
  k_GetPod :: "Cluster \<Rightarrow> string \<Rightarrow> string \<Rightarrow> 'w \<Rightarrow> (go_error + Pod) \<times> 'w"
  k_GetDeployment :: "Cluster \<Rightarrow> string \<Rightarrow> string \<Rightarrow> 'w \<Rightarrow> (go_error + Deployment) \<times> 'w"
  k_ListEvents :: "Cluster \<Rightarrow> string \<Rightarrow> string \<Rightarrow> 'w \<Rightarrow> (go_error + Event list) \<times> 'w"
  k_GetLogs :: "Cluster \<Rightarrow> string \<Rightarrow> string \<Rightarrow> PodLogOptions \<Rightarrow> 'w \<Rightarrow> (go_error + string) \<times> 'w"
  k_AccessReview :: "Cluster \<Rightarrow> string \<Rightarrow> string \<Rightarrow> string \<Rightarrow> string \<Rightarrow> 'w \<Rightarrow> (go_error + bool) \<times> 'w"
  k_PatchDeployment :: "Cluster \<Rightarrow> string \<Rightarrow> string \<Rightarrow> PatchType \<Rightarrow> string \<Rightarrow> bool \<Rightarrow> 'w \<Rightarrow> go_error option \<times> 'w"

section \<open>Clusters (client.go, rbac.go)\<close>

datatype ConnectStage = RestConfig | TypedClient | DynamicClient | MetricsClient

fun stage_text :: "ConnectStage \<Rightarrow> string" where
  "stage_text RestConfig = ''build rest config''"
| "stage_text TypedClient = ''typed client''"
| "stage_text DynamicClient = ''dynamic client''"
| "stage_text MetricsClient = ''metrics client''"

text \<open>\<open>conn\<close> says whether, and at which stage, building the clients for a context fails.\<close>

type_synonym connector = "string \<Rightarrow> bool \<Rightarrow> (ConnectStage \<times> go_error) option"

definition Connect :: "connector \<Rightarrow> string \<Rightarrow> string \<Rightarrow> bool \<Rightarrow> go_error + Cluster" where
  "Connect conn name kubeContext inCluster =
     (case conn kubeContext inCluster of
        Some (st, e) \<Rightarrow> Inl (errorf_prefix (stage_text st) e)
      | None \<Rightarrow> Inr \<lparr>c_Name = (if name = [] then kubeContext else name), c_Context = kubeContext\<rparr>)"

definition CanI :: "'w KubeApi \<Rightarrow> Cluster \<Rightarrow> string \<Rightarrow> string \<Rightarrow> string \<Rightarrow> string \<Rightarrow> 'w \<Rightarrow>
  (bool \<times> go_error option) \<times> 'w" where
  "CanI api c verb grp resource ns w =
     (case k_AccessReview api c verb grp resource ns w of
        (Inl e, w') \<Rightarrow> ((False, Some e), w')
      | (Inr allowed, w') \<Rightarrow> ((allowed, None), w'))"

section \<open>The cluster registry (multicluster.go)\<close>

record ClusterRegistry =
  clusters :: "(string \<times> Cluster) list"
  active :: string

definition New_ClusterRegistry :: ClusterRegistry where
  "New_ClusterRegistry = \<lparr>clusters = [], active = []\<rparr>"

definition Add :: "connector \<Rightarrow> string \<Rightarrow> string \<Rightarrow> bool \<Rightarrow> ClusterRegistry \<Rightarrow>
  (go_error + Cluster) \<times> ClusterRegistry" where
  "Add conn name kubeContext inCluster r =
     (case Connect conn name kubeContext inCluster of
        Inl e \<Rightarrow> (Inl e, r)
      | Inr c \<Rightarrow>
          (let r1 = r\<lparr>clusters := AList.update (c_Name c) c (clusters r)\<rparr>
           in (Inr c, if active r = [] then r1\<lparr>active := c_Name c\<rparr> else r1)))"

definition Active :: "ClusterRegistry \<Rightarrow> go_error + Cluster" where
  "Active r = (case map_of (clusters r) (active r) of
     None \<Rightarrow> Inl (ErrNew ''no active cluster'') | Some c \<Rightarrow> Inr c)"

definition not_registered :: "string \<Rightarrow> go_error" where
  "not_registered name = ErrNew (''cluster '' @ [CHR 0x22] @ name @ [CHR 0x22] @ '' not registered'')"

definition Switch :: "string \<Rightarrow> ClusterRegistry \<Rightarrow> go_error option \<times> ClusterRegistry" where
  "Switch name r =
     (if map_of (clusters r) name = None then (Some (not_registered name), r)
      else (None, r\<lparr>active := name\<rparr>))"

definition Get :: "string \<Rightarrow> ClusterRegistry \<Rightarrow> go_error + Cluster" where
  "Get name r = (case map_of (clusters r) name of None \<Rightarrow> Inl (not_registered name) | Some c \<Rightarrow> Inr c)"

definition Names :: "ClusterRegistry \<Rightarrow> string list" where
  "Names r = sort (map fst (clusters r))"

text \<open>The names are distinct, and a cluster is stored under its own name.\<close>

definition wf_clusters :: "ClusterRegistry \<Rightarrow> bool" where
  "wf_clusters r \<longleftrightarrow> distinct (map fst (clusters r)) \<and>
     (\<forall>(n, c) \<in> set (clusters r). c_Name c = n) \<and>
     (active r \<noteq> [] \<longrightarrow> active r \<in> set (map fst (clusters r)))"

lemma set_alist_update: "set (AList.update k v al) \<subseteq> insert (k, v) (set al)"
  by (induction al) auto

lemma keys_alist_update: "set (map fst (AList.update k v al)) = insert k (set (map fst al))"
  by (induction al) auto

lemma wf_New [simp]: "wf_clusters New_ClusterRegistry"
  by (simp add: wf_clusters_def New_ClusterRegistry_def)

lemma wf_Add:
  assumes "wf_clusters r" and "Add conn name kctx ic r = (res, r')"
  shows "wf_clusters r'"
proof (cases "Connect conn name kctx ic")
  case (Inl e)
  with assms show ?thesis by (simp add: Add_def)
next
  case (Inr c)
  have "\<forall>(n, d) \<in> set (AList.update (c_Name c) c (clusters r)). c_Name d = n"
    using assms(1) set_alist_update [of "c_Name c" c "clusters r"] by (fastforce simp: wf_clusters_def)
  with assms Inr show ?thesis
    by (auto simp: Add_def Let_def wf_clusters_def distinct_update keys_alist_update
        simp del: set_map split: if_splits)
qed

lemma wf_Switch: "wf_clusters r \<Longrightarrow> wf_clusters (snd (Switch name r))"
  by (auto simp: Switch_def wf_clusters_def map_of_eq_None_iff)

text \<open>A cluster with a name keeps the selection when others are added.\<close>

lemma Add_keeps_active: "active r \<noteq> [] \<Longrightarrow> active (snd (Add conn name kctx ic r)) = active r"
  by (auto simp: Add_def Let_def split: sum.splits)

lemma Get_Add:
  assumes "Connect conn name kctx ic = Inr c"
  shows "Get n (snd (Add conn name kctx ic r)) = (if n = c_Name c then Inr c else Get n r)"
  using assms by (simp add: Add_def Get_def Let_def update_conv)

lemma Switch_ok_iff: "fst (Switch name r) = None \<longleftrightarrow> (\<exists>c. Get name r = Inr c)"
  by (auto simp: Switch_def Get_def split: option.splits)

lemma Active_Switch:
  "fst (Switch name r) = None \<Longrightarrow> Active (snd (Switch name r)) = Get name r"
  by (auto simp: Switch_def Active_def Get_def split: if_splits option.splits)

lemma Names_sorted: "wf_clusters r \<Longrightarrow> sorted (Names r) \<and> distinct (Names r)"
  by (simp add: Names_def wf_clusters_def)

lemma set_Names: "set (Names r) = {n. \<exists>c. Get n r = Inr c}"
  by (auto simp: Names_def Get_def map_of_eq_None_iff split: option.splits)

section \<open>Snapshots (snapshot.go)\<close>

record Snapshot =
  snap_Cluster :: string
  snap_Pods :: "Pod list"
  snap_Deployments :: "Deployment list"
  snap_Nodes :: "string list"

definition Cluster_Snapshot :: "'w KubeApi \<Rightarrow> Cluster \<Rightarrow> string \<Rightarrow> 'w \<Rightarrow> (go_error + Snapshot) \<times> 'w" where
  "Cluster_Snapshot api c ns w =
     (case k_ListPods api c ns w of
        (Inl e, w1) \<Rightarrow> (Inl (errorf_prefix ''list pods'' e), w1)
      | (Inr pods, w1) \<Rightarrow>
          (case k_ListDeployments api c ns w1 of
             (Inl e, w2) \<Rightarrow> (Inl (errorf_prefix ''list deployments'' e), w2)
           | (Inr deps, w2) \<Rightarrow>
               (case k_ListNodes api c w2 of
                  (Inl e, w3) \<Rightarrow> (Inl (errorf_prefix ''list nodes'' e), w3)
                | (Inr nodes, w3) \<Rightarrow>
                    (Inr \<lparr>snap_Cluster = c_Name c, snap_Pods = pods, snap_Deployments = deps,
                          snap_Nodes = nodes\<rparr>, w3))))"

definition crashlooping :: "ContainerStatus \<Rightarrow> bool" where
  "crashlooping cs = (case cs_Waiting cs of Some (reason, _) \<Rightarrow> reason = ''CrashLoopBackOff'' | None \<Rightarrow> False)"

definition ContextCard :: "Snapshot \<Rightarrow> string" where
  "ContextCard s =
     (let pending = length (filter (\<lambda>p. pod_Phase p = ''Pending'') (snap_Pods s));
          crashloop = length (filter crashlooping (concat (map pod_Statuses (snap_Pods s))));
          notProgressing = length (filter (\<lambda>d. dep_ReadyReplicas d < dep_Replicas d) (snap_Deployments s))
      in ''cluster: '' @ snap_Cluster s @ '' ('' @ show_nat (length (snap_Nodes s)) @ '' nodes)'' @ newline
         @ ''workloads: '' @ show_nat (length (snap_Deployments s)) @ '' deployments, ''
         @ show_nat (length (snap_Pods s)) @ '' pods'' @ newline
         @ ''health: '' @ show_nat crashloop @ '' CrashLoopBackOff, '' @ show_nat pending @ '' pending, ''
         @ show_nat notProgressing @ '' deployments degraded'' @ newline)"

section \<open>Reachable registries\<close>

text \<open>What the program can make of a registry: it adds clusters and switches the selection.\<close>

inductive reachable_clusters :: "connector \<Rightarrow> ClusterRegistry \<Rightarrow> bool" for conn where
  start: "reachable_clusters conn New_ClusterRegistry"
| add: "reachable_clusters conn r \<Longrightarrow> reachable_clusters conn (snd (Add conn name kctx ic r))"
| switch: "reachable_clusters conn r \<Longrightarrow> reachable_clusters conn (snd (Switch name r))"

lemma reachable_wf: "reachable_clusters conn r \<Longrightarrow> wf_clusters r"
proof (induction rule: reachable_clusters.induct)
  case (add r name kctx ic)
  then show ?case by (cases "Add conn name kctx ic r") (auto intro: wf_Add)
qed (auto intro: wf_Switch)

lemma wf_Active:
  assumes "wf_clusters r" "active r \<noteq> []"
  obtains c where "Active r = Inr c" "Get (active r) r = Inr c" "c_Name c = active r"
proof -
  from assms obtain c where c: "map_of (clusters r) (active r) = Some c"
    by (auto simp: wf_clusters_def map_of_eq_None_iff dest: weak_map_of_SomeI)
  then have "(active r, c) \<in> set (clusters r)" by (rule map_of_SomeD)
  with assms(1) have "c_Name c = active r" by (auto simp: wf_clusters_def)
  with c show ?thesis by (intro that [of c]) (simp_all add: Active_def Get_def)
qed

section \<open>Properties\<close>

text \<open>C32: However clusters were added and the selection switched, a non-empty selection is a registered cluster,
  returned under its own name by \<open>Active\<close> and \<open>Get\<close>, and \<open>Names\<close> lists exactly the registered
  clusters in order without repetition.\<close>

theorem cluster_registry_invariant:
  assumes "reachable_clusters conn r"
  shows "(active r \<noteq> [] \<longrightarrow> (\<exists>c. Active r = Inr c \<and> Get (active r) r = Inr c \<and> c_Name c = active r)) \<and>
    sorted (Names r) \<and> distinct (Names r) \<and> set (Names r) = {n. \<exists>c. Get n r = Inr c}"
  using reachable_wf [OF assms] Names_sorted [of r] set_Names [of r] by (metis wf_Active)

definition demo_clusters :: ClusterRegistry where
  "demo_clusters = snd (Switch ''b'' (snd (Add (\<lambda>_ _. None) ''b'' ''ctx-b'' False
     (snd (Add (\<lambda>_ _. None) ''a'' ''ctx-a'' False New_ClusterRegistry)))))"

lemma demo_clusters_active: "active demo_clusters = ''b''"
  by code_simp

theorem cluster_registry_invariant_witness:
  "\<exists>c. Active demo_clusters = Inr c \<and> c_Name c = ''b''"
proof -
  have "reachable_clusters (\<lambda>_ _. None) demo_clusters"
    unfolding demo_clusters_def by (intro reachable_clusters.intros)
  from cluster_registry_invariant [OF this] show ?thesis by (auto simp: demo_clusters_active)
qed

text \<open>Adding a cluster registers it under its name and leaves every other one alone; the selection moves only if
  there was none, so it moves to the first cluster with a name.\<close>

theorem add_cluster_effect:
  assumes "Connect conn name kctx ic = Inr c"
  shows "fst (Add conn name kctx ic r) = Inr c \<and>
    (\<forall>n. Get n (snd (Add conn name kctx ic r)) = (if n = c_Name c then Inr c else Get n r)) \<and>
    active (snd (Add conn name kctx ic r)) = (if active r = [] then c_Name c else active r)"
  using assms Get_Add [OF assms] by (simp_all add: Add_def Let_def)

theorem add_cluster_effect_witness:
  "Get ''a'' (snd (Add (\<lambda>_ _. None) ''a'' ''ctx-a'' False New_ClusterRegistry)) =
     Inr \<lparr>c_Name = ''a'', c_Context = ''ctx-a''\<rparr>"
  using add_cluster_effect [of "\<lambda>_ _. None" "''a''" "''ctx-a''" False "\<lparr>c_Name = ''a'', c_Context = ''ctx-a''\<rparr>"]
  by (simp add: Connect_def)

text \<open>
  A cluster whose name is empty (no name and no context, the current context of the kubeconfig) is
  never really selected: the next cluster added takes the selection over.
\<close>

lemma unnamed_cluster_loses_selection:
  assumes "conn [] False = None" "conn ctx False = None" "name \<noteq> []"
  shows "active (snd (Add conn name ctx False (snd (Add conn [] [] False New_ClusterRegistry)))) = name"
  using assms by (simp add: Add_def Connect_def New_ClusterRegistry_def)

end
