(* ===== verification/Kubectl.thy ===== *)
theory Kubectl
  imports ToolApi K8s
begin

text \<open>
  The kubectl tools (internal/tools/kubectl*.go). \<open>api\<close> is the API server's interface and \<open>cl\<close>
  reads the cluster registry the tools hold a pointer to; both are parameters. Each \<open>_Execute\<close>
  function is the Go method, each \<open>_tool\<close> the value registered.
\<close>

section \<open>Texts\<close>

definition nsLabel :: "string \<Rightarrow> string" where
  "nsLabel ns = (if ns = [] then ''all namespaces'' else ns)"

definition oneLineMsg :: "string \<Rightarrow> string" where
  "oneLineMsg s =
     (let s1 = map (\<lambda>c. if c = CHR 0x0A then CHR '' '' else c) s
      in if 100 < length s1 then take 100 s1 @ ellipsis else s1)"

definition show_bool :: "bool \<Rightarrow> string" where
  "show_bool b = (if b then ''true'' else ''false'')"

text \<open>\<open>%-7s\<close>: padding counts runes, the bytes that do not continue one.\<close>

definition rune_count :: "string \<Rightarrow> nat" where
  "rune_count s = length (filter (\<lambda>c. let n = (of_char c :: nat) in \<not> (128 \<le> n \<and> n < 192)) s)"

definition pad_right :: "nat \<Rightarrow> string \<Rightarrow> string" where
  "pad_right n s = s @ replicate (n - rune_count s) (CHR '' '')"

definition ok_result :: "string \<Rightarrow> string \<Rightarrow> Result" where
  "ok_result summary model =
     \<lparr>res_Summary = summary, res_ModelView = model, res_Diff = [], res_RollbackRef = []\<rparr>"

definition prop_type :: "string \<Rightarrow> string \<Rightarrow> string \<times> json" where
  "prop_type name ty = (name, JObj [(''type'', JStr ty)])"

definition prop_desc :: "string \<Rightarrow> string \<Rightarrow> string \<Rightarrow> string \<times> json" where
  "prop_desc name ty desc = (name, JObj [(''type'', JStr ty), (''description'', JStr desc)])"

definition object_schema :: "string list \<Rightarrow> (string \<times> json) list \<Rightarrow> schema" where
  "object_schema req props =
     [(''type'', JStr ''object'')] @
     (if req = [] then [] else [(''required'', JArr (map JStr req))]) @
     [(''properties'', JObj props)]"

lemma object_schema_simps [simp]:
  "required_fields (object_schema req props) = req"
  "obj_get (object_schema req props) ''properties'' = Some (JObj props)"
  by (simp_all add: object_schema_def required_fields_def obj_get_def as_string_def comp_def)

section \<open>kubectl_get_pods (kubectl.go)\<close>

definition total_restarts :: "Pod \<Rightarrow> 32 word" where
  "total_restarts p = foldl (\<lambda>n cs. n + cs_RestartCount cs) 0 (pod_Statuses p)"

definition pod_line :: "Pod \<Rightarrow> string" where
  "pod_line p = ''  '' @ pod_Namespace p @ ''/'' @ pod_Name p @ ''  '' @ pod_Phase p @ ''  restarts=''
     @ show_int (sint (total_restarts p)) @ newline"

definition KubectlGet_Execute ::
  "'w KubeApi \<Rightarrow> ('w \<Rightarrow> ClusterRegistry) \<Rightarrow> RawArgs \<Rightarrow> bool \<Rightarrow> 'w \<Rightarrow> (Result \<times> go_error option) \<times> 'w" where
  "KubectlGet_Execute api cl args dryRun w =
     (let ns = str_field ''namespace'' [] (fst (struct_members args))
      in case Active (cl w) of
           Inl e \<Rightarrow> ((empty_Result, Some e), w)
         | Inr c \<Rightarrow>
             (case k_ListPods api c ns w of
                (Inl e, w1) \<Rightarrow> ((empty_Result, Some e), w1)
              | (Inr pods, w1) \<Rightarrow>
                  ((ok_result
                      (''listed '' @ show_nat (length pods) @ '' pods in '' @ nsLabel ns)
                      (show_nat (length pods) @ '' pods in '' @ go_quote (nsLabel ns) @ '':'' @ newline
                         @ concat (map pod_line pods)),
                    None), w1)))"

definition KubectlGet_tool :: "'w KubeApi \<Rightarrow> ('w \<Rightarrow> ClusterRegistry) \<Rightarrow> 'w Tool" where
  "KubectlGet_tool api cl =
     \<lparr>t_Name = ''kubectl_get_pods'',
      t_Description = ''List pods in a namespace with phase, ready state, and restart counts. Use this to observe workload health before deeper investigation.'',
      t_Schema = object_schema [] [prop_desc ''namespace'' ''string'' ''Namespace to list; empty lists all namespaces.''],
      t_Risk = Read, t_Execute = KubectlGet_Execute api cl\<rparr>"

section \<open>kubectl_scale_deployment (kubectl.go)\<close>

definition scale_fields :: "(string \<times> field_type) list" where
  "scale_fields = [(''namespace'', FStr), (''name'', FStr), (''replicas'', FInt 32)]"

definition json_replicas :: "int option \<Rightarrow> string" where
  "json_replicas r = (case r of None \<Rightarrow> ''null'' | Some n \<Rightarrow> show_int n)"

definition snapshotRef :: "Deployment \<Rightarrow> string" where
  "snapshotRef d =
     ''{'' @ json_quote ''kind'' @ '':'' @ json_quote ''Deployment'' @ '','' @
     json_quote ''name'' @ '':'' @ json_quote (dep_Name d) @ '','' @
     json_quote ''namespace'' @ '':'' @ json_quote (dep_Namespace d) @ '','' @
     json_quote ''replicas'' @ '':'' @ json_replicas (dep_SpecReplicas d) @ ''}''"

definition missing_rbac :: "string \<Rightarrow> go_error" where
  "missing_rbac ns = ErrNew (''denied: missing RBAC apps/deployments:patch in '' @ ns)"

definition scale_diff :: "string \<Rightarrow> int \<Rightarrow> int \<Rightarrow> string" where
  "scale_diff name from replicas =
     ''deployment/'' @ name @ '' replicas: '' @ show_int from @ '' '' @ right_arrow @ '' '' @ show_int replicas"

definition scale_patch :: "int \<Rightarrow> string" where
  "scale_patch replicas =
     ''{'' @ go_quote ''spec'' @ '':{'' @ go_quote ''replicas'' @ '':'' @ show_int replicas @ ''}}''"

definition KubectlScale_Execute ::
  "'w KubeApi \<Rightarrow> ('w \<Rightarrow> ClusterRegistry) \<Rightarrow> RawArgs \<Rightarrow> bool \<Rightarrow> 'w \<Rightarrow> (Result \<times> go_error option) \<times> 'w" where
  "KubectlScale_Execute api cl args dryRun w =
     (let kvs = fst (struct_members args);
          ns = str_field ''namespace'' [] kvs;
          name = str_field ''name'' [] kvs;
          replicas = int_field 32 ''replicas'' 0 kvs
      in case unmarshal_err scale_fields args of
           Some e \<Rightarrow> ((empty_Result, Some e), w)
         | None \<Rightarrow>
             (case Active (cl w) of
                Inl e \<Rightarrow> ((empty_Result, Some e), w)
              | Inr c \<Rightarrow>
                  (case CanI api c ''patch'' ''apps'' ''deployments'' ns w of
                     ((_, Some e), w1) \<Rightarrow> ((empty_Result, Some (errorf_prefix ''rbac check'' e)), w1)
                   | ((False, None), w1) \<Rightarrow> ((empty_Result, Some (missing_rbac ns)), w1)
                   | ((True, None), w1) \<Rightarrow>
                       (case k_GetDeployment api c ns name w1 of
                          (Inl e, w2) \<Rightarrow> ((empty_Result, Some e), w2)
                        | (Inr cur, w2) \<Rightarrow>
                            (let from = (case dep_SpecReplicas cur of Some n \<Rightarrow> n | None \<Rightarrow> 1);
                                 diff = scale_diff name from replicas
                             in case k_PatchDeployment api c ns name MergePatch (scale_patch replicas) dryRun w2 of
                                  (Some e, w3) \<Rightarrow> ((empty_Result, Some e), w3)
                                | (None, w3) \<Rightarrow>
                                    ((\<lparr>res_Summary = (if dryRun then ''[dry-run] '' @ diff else diff),
                                       res_ModelView = diff, res_Diff = diff,
                                       res_RollbackRef = snapshotRef cur\<rparr>, None), w3))))))"

definition KubectlScale_tool :: "'w KubeApi \<Rightarrow> ('w \<Rightarrow> ClusterRegistry) \<Rightarrow> 'w Tool" where
  "KubectlScale_tool api cl =
     \<lparr>t_Name = ''kubectl_scale_deployment'',
      t_Description = ''Scale a Deployment to a target replica count. Mutating: requires approval.'',
      t_Schema = object_schema [''namespace'', ''name'', ''replicas'']
        [prop_type ''namespace'' ''string'', prop_type ''name'' ''string'',
         prop_desc ''replicas'' ''integer'' ''target replica count''],
      t_Risk = Mutate, t_Execute = KubectlScale_Execute api cl\<rparr>"

section \<open>kubectl_rollout_restart (kubectl_rollout.go)\<close>

definition rollout_fields :: "(string \<times> field_type) list" where
  "rollout_fields = [(''namespace'', FStr), (''name'', FStr)]"

definition rollout_patch :: "string \<Rightarrow> string" where
  "rollout_patch ts =
     ''{'' @ go_quote ''spec'' @ '':{'' @ go_quote ''template'' @ '':{'' @ go_quote ''metadata'' @ '':{''
     @ go_quote ''annotations'' @ '':{'' @ go_quote ''kubectl.kubernetes.io/restartedAt'' @ '':''
     @ go_quote ts @ ''}}}}}''"

text \<open>\<open>now\<close> is the clock, already formatted as RFC 3339.\<close>

definition KubectlRolloutRestart_Execute ::
  "'w KubeApi \<Rightarrow> ('w \<Rightarrow> ClusterRegistry) \<Rightarrow> ('w \<Rightarrow> string) \<Rightarrow> RawArgs \<Rightarrow> bool \<Rightarrow> 'w \<Rightarrow>
   (Result \<times> go_error option) \<times> 'w" where
  "KubectlRolloutRestart_Execute api cl now args dryRun w =
     (let kvs = fst (struct_members args);
          ns = str_field ''namespace'' [] kvs;
          name = str_field ''name'' [] kvs
      in case unmarshal_err rollout_fields args of
           Some e \<Rightarrow> ((empty_Result, Some e), w)
         | None \<Rightarrow>
             (case Active (cl w) of
                Inl e \<Rightarrow> ((empty_Result, Some e), w)
              | Inr c \<Rightarrow>
                  (case CanI api c ''patch'' ''apps'' ''deployments'' ns w of
                     ((_, Some e), w1) \<Rightarrow> ((empty_Result, Some (errorf_prefix ''rbac check'' e)), w1)
                   | ((False, None), w1) \<Rightarrow> ((empty_Result, Some (missing_rbac ns)), w1)
                   | ((True, None), w1) \<Rightarrow>
                       (let ts = now w1 in
                        case k_PatchDeployment api c ns name StrategicMergePatch (rollout_patch ts) dryRun w1 of
                          (Some e, w2) \<Rightarrow> ((empty_Result, Some e), w2)
                        | (None, w2) \<Rightarrow>
                            (let diff = ''rollout restart deployment/'' @ name @ '' (restartedAt='' @ ts @ '')''
                             in ((\<lparr>res_Summary = (if dryRun then ''[dry-run] '' @ diff else diff),
                                   res_ModelView = diff, res_Diff = diff, res_RollbackRef = []\<rparr>, None), w2))))))"

definition KubectlRolloutRestart_tool ::
  "'w KubeApi \<Rightarrow> ('w \<Rightarrow> ClusterRegistry) \<Rightarrow> ('w \<Rightarrow> string) \<Rightarrow> 'w Tool" where
  "KubectlRolloutRestart_tool api cl now =
     \<lparr>t_Name = ''kubectl_rollout_restart'',
      t_Description = ''Roll a Deployment's pods by bumping its restart annotation (recycle pods to clear a transient bad state or re-read mounted config/secrets). Mutating: requires approval.'',
      t_Schema = object_schema [''namespace'', ''name'']
        [prop_type ''namespace'' ''string'', prop_type ''name'' ''string''],
      t_Risk = Mutate, t_Execute = KubectlRolloutRestart_Execute api cl now\<rparr>"

section \<open>kubectl_logs (kubectl_logs.go)\<close>

definition logs_fields :: "(string \<times> field_type) list" where
  "logs_fields = [(''namespace'', FStr), (''pod'', FStr), (''container'', FStr), (''tail'', FInt 64),
     (''previous'', FBool)]"

definition prevLabel :: "bool \<Rightarrow> string" where
  "prevLabel prev = (if prev then '', previous'' else [])"

definition KubectlLogs_Execute ::
  "'w KubeApi \<Rightarrow> ('w \<Rightarrow> ClusterRegistry) \<Rightarrow> RawArgs \<Rightarrow> bool \<Rightarrow> 'w \<Rightarrow> (Result \<times> go_error option) \<times> 'w" where
  "KubectlLogs_Execute api cl args dryRun w =
     (let kvs = fst (struct_members args);
          ns = str_field ''namespace'' [] kvs; pod = str_field ''pod'' [] kvs;
          container = str_field ''container'' [] kvs; previous = bool_field ''previous'' False kvs;
          tail0 = int_field 64 ''tail'' 0 kvs; tail = (if tail0 \<le> 0 then 100 else tail0)
      in case unmarshal_err logs_fields args of
           Some e \<Rightarrow> ((empty_Result, Some e), w)
         | None \<Rightarrow>
             (case Active (cl w) of
                Inl e \<Rightarrow> ((empty_Result, Some e), w)
              | Inr c \<Rightarrow>
                  (case k_GetLogs api c ns pod
                     \<lparr>log_Container = container, log_TailLines = tail, log_Previous = previous\<rparr> w of
                     (Inl e, w1) \<Rightarrow>
                       ((empty_Result, Some (errorf_prefix (''get logs '' @ ns @ ''/'' @ pod) e)), w1)
                   | (Inr raw, w1) \<Rightarrow>
                       (let logs = (if raw = [] then ''(no log output)'' else raw)
                        in ((ok_result (''logs '' @ ns @ ''/'' @ pod @ '' (tail '' @ show_int tail
                               @ prevLabel previous @ '')'') logs, None), w1)))))"

definition KubectlLogs_tool :: "'w KubeApi \<Rightarrow> ('w \<Rightarrow> ClusterRegistry) \<Rightarrow> 'w Tool" where
  "KubectlLogs_tool api cl =
     \<lparr>t_Name = ''kubectl_logs'',
      t_Description = ''Fetch recent logs from a pod, optionally a specific container or the previous (crashed) instance. Use this to see why a container is failing or CrashLoopBackOff.'',
      t_Schema = object_schema [''namespace'', ''pod'']
        [prop_type ''namespace'' ''string'', prop_type ''pod'' ''string'',
         prop_desc ''container'' ''string'' ''container name; default is the first container'',
         prop_desc ''tail'' ''integer'' ''lines from the end (default 100)'',
         prop_desc ''previous'' ''boolean'' ''logs from the previous terminated instance (for crash loops)''],
      t_Risk = Read, t_Execute = KubectlLogs_Execute api cl\<rparr>"

section \<open>kubectl_events (kubectl_events.go)\<close>

definition eventTime :: "Event \<Rightarrow> int" where
  "eventTime e =
     (case ev_LastTimestamp e of Some t \<Rightarrow> t
      | None \<Rightarrow> (case ev_EventTime e of Some t \<Rightarrow> t | None \<Rightarrow> ev_CreationTimestamp e))"

definition event_line :: "Event \<Rightarrow> string" where
  "event_line e =
     ''  '' @ pad_right 7 (ev_Type e) @ '' '' @ pad_right 22 (ev_Reason e) @ '' ''
     @ pad_right 28 (ev_Kind e @ ''/'' @ ev_Name e) @ '' '' @ oneLineMsg (ev_Message e) @ newline"

text \<open>Newest first: a stable sort by descending time.\<close>

definition writeEvents :: "Event list \<Rightarrow> int \<Rightarrow> string" where
  "writeEvents items limit =
     (let sorted_items = sort_key (\<lambda>e. - eventTime e) items;
          shown = (if 0 < limit \<and> limit < int (length sorted_items) then take (nat limit) sorted_items
                   else sorted_items)
      in concat (map event_line shown))"

definition KubectlEvents_Execute ::
  "'w KubeApi \<Rightarrow> ('w \<Rightarrow> ClusterRegistry) \<Rightarrow> RawArgs \<Rightarrow> bool \<Rightarrow> 'w \<Rightarrow> (Result \<times> go_error option) \<times> 'w" where
  "KubectlEvents_Execute api cl args dryRun w =
     (let kvs = fst (struct_members args);
          ns = str_field ''namespace'' [] kvs;
          warnings = bool_field ''warnings_only'' False kvs;
          limit0 = int_field 64 ''limit'' 0 kvs; limit = (if limit0 \<le> 0 then 30 else limit0)
      in case Active (cl w) of
           Inl e \<Rightarrow> ((empty_Result, Some e), w)
         | Inr c \<Rightarrow>
             (case k_ListEvents api c ns [] w of
                (Inl e, w1) \<Rightarrow> ((empty_Result, Some e), w1)
              | (Inr all, w1) \<Rightarrow>
                  (let items = (if warnings then filter (\<lambda>e. ev_Type e = ''Warning'') all else all);
                       kind = (if warnings then ''warning events'' else ''events'');
                       summary = show_nat (length items) @ '' '' @ kind @ '' in '' @ nsLabel ns
                   in ((ok_result summary (summary @ '':'' @ newline @ writeEvents items limit), None), w1))))"

definition KubectlEvents_tool :: "'w KubeApi \<Rightarrow> ('w \<Rightarrow> ClusterRegistry) \<Rightarrow> 'w Tool" where
  "KubectlEvents_tool api cl =
     \<lparr>t_Name = ''kubectl_events'',
      t_Description = ''List recent events in a namespace (optionally warnings only), newest first. Surfaces FailedScheduling, Unhealthy probes, ImagePullBackOff, OOMKilled, and evictions.'',
      t_Schema = object_schema []
        [prop_desc ''namespace'' ''string'' ''namespace; empty scans all namespaces'',
         prop_type ''warnings_only'' ''boolean'',
         prop_desc ''limit'' ''integer'' ''max events (default 30)''],
      t_Risk = Read, t_Execute = KubectlEvents_Execute api cl\<rparr>"

section \<open>kubectl_describe (kubectl_describe.go)\<close>

definition condition_line :: "Condition \<Rightarrow> string" where
  "condition_line c =
     ''  condition '' @ cond_Type c @ ''='' @ cond_Status c
     @ (if cond_Reason c = [] then []
        else '' ('' @ cond_Reason c @ '': '' @ oneLineMsg (cond_Message c) @ '')'')
     @ newline"

definition status_lines :: "ContainerStatus \<Rightarrow> string" where
  "status_lines cs =
     ''  container '' @ cs_Name cs @ '' ready='' @ show_bool (cs_Ready cs) @ '' restarts=''
     @ show_int (sint (cs_RestartCount cs)) @ newline
     @ (case cs_Waiting cs of None \<Rightarrow> []
        | Some (reason, msg) \<Rightarrow> ''    waiting: '' @ reason @ '' '' @ em_dash @ '' '' @ oneLineMsg msg @ newline)
     @ (case cs_Terminated cs of None \<Rightarrow> []
        | Some (reason, code) \<Rightarrow> ''    terminated: '' @ reason @ '' exit='' @ show_int code @ newline)
     @ (case cs_LastTerminated cs of None \<Rightarrow> []
        | Some (reason, code) \<Rightarrow> ''    last-terminated: '' @ reason @ '' exit='' @ show_int code @ newline)"

definition describePod :: "Pod \<Rightarrow> string" where
  "describePod p =
     ''Pod '' @ pod_Namespace p @ ''/'' @ pod_Name p @ ''  phase='' @ pod_Phase p @ ''  node=''
     @ pod_NodeName p @ newline
     @ concat (map condition_line (pod_Conditions p)) @ concat (map status_lines (pod_Statuses p))"

definition describeDeployment :: "Deployment \<Rightarrow> string" where
  "describeDeployment d =
     ''Deployment '' @ dep_Namespace d @ ''/'' @ dep_Name d @ ''  replicas='' @ show_int (dep_Replicas d)
     @ '' ready='' @ show_int (dep_ReadyReplicas d) @ '' available='' @ show_int (dep_AvailableReplicas d)
     @ '' updated='' @ show_int (dep_UpdatedReplicas d) @ newline
     @ concat (map condition_line (dep_Conditions d))"

definition describe_fields :: "(string \<times> field_type) list" where
  "describe_fields = [(''namespace'', FStr), (''kind'', FStr), (''name'', FStr)]"

text \<open>The object's own text, by kind.\<close>

definition describe_object ::
  "'w KubeApi \<Rightarrow> Cluster \<Rightarrow> string \<Rightarrow> string \<Rightarrow> string \<Rightarrow> 'w \<Rightarrow> (go_error + string) \<times> 'w" where
  "describe_object api c kind ns name w =
     (if to_lower kind = ''pod'' then
        (case k_GetPod api c ns name w of
           (Inl e, w1) \<Rightarrow> (Inl e, w1) | (Inr p, w1) \<Rightarrow> (Inr (describePod p), w1))
      else if to_lower kind = ''deployment'' then
        (case k_GetDeployment api c ns name w of
           (Inl e, w1) \<Rightarrow> (Inl e, w1) | (Inr d, w1) \<Rightarrow> (Inr (describeDeployment d), w1))
      else (Inl (ErrNew (''unsupported kind '' @ go_quote kind @ '' (use pod or deployment)'')), w))"

definition KubectlDescribe_Execute ::
  "'w KubeApi \<Rightarrow> ('w \<Rightarrow> ClusterRegistry) \<Rightarrow> RawArgs \<Rightarrow> bool \<Rightarrow> 'w \<Rightarrow> (Result \<times> go_error option) \<times> 'w" where
  "KubectlDescribe_Execute api cl args dryRun w =
     (let kvs = fst (struct_members args);
          ns = str_field ''namespace'' [] kvs; kind = str_field ''kind'' [] kvs;
          name = str_field ''name'' [] kvs
      in case unmarshal_err describe_fields args of
           Some e \<Rightarrow> ((empty_Result, Some e), w)
         | None \<Rightarrow>
             (case Active (cl w) of
                Inl e \<Rightarrow> ((empty_Result, Some e), w)
              | Inr c \<Rightarrow>
                  (case describe_object api c kind ns name w of
                     (Inl e, w1) \<Rightarrow> ((empty_Result, Some e), w1)
                   | (Inr txt, w1) \<Rightarrow>
                       (let (evs, w2) = k_ListEvents api c ns (''involvedObject.name='' @ name) w1;
                            out = (case evs of
                                     Inr (e # es) \<Rightarrow> txt @ ''Events:'' @ newline @ writeEvents (e # es) 8
                                   | _ \<Rightarrow> txt)
                        in ((ok_result (''described '' @ kind @ ''/'' @ name) out, None), w2)))))"

definition KubectlDescribe_tool :: "'w KubeApi \<Rightarrow> ('w \<Rightarrow> ClusterRegistry) \<Rightarrow> 'w Tool" where
  "KubectlDescribe_tool api cl =
     \<lparr>t_Name = ''kubectl_describe'',
      t_Description = ''Describe a pod or deployment: status, conditions, container restart reasons and last-termination state, plus recent events for that object. The go-to tool for diagnosing why a workload is unhealthy.'',
      t_Schema = object_schema [''namespace'', ''kind'', ''name'']
        [prop_type ''namespace'' ''string'',
         (''kind'', JObj [(''type'', JStr ''string''), (''enum'', JArr [JStr ''pod'', JStr ''deployment''])]),
         prop_type ''name'' ''string''],
      t_Risk = Read, t_Execute = KubectlDescribe_Execute api cl\<rparr>"

section \<open>What the tools do to a cluster\<close>

text \<open>
  The documented behaviour of the API server the tools rely on, over a view of the state of each
  namespace of each cluster: reviews and reads change nothing, a server-side dry run of a patch
  changes nothing, and a patch changes the namespace it names and no other.
\<close>

definition kube_laws :: "'w KubeApi \<Rightarrow> ('w \<Rightarrow> string \<Rightarrow> string \<Rightarrow> 'v) \<Rightarrow> bool" where
  "kube_laws api view \<longleftrightarrow>
     (\<forall>c ns w. view (snd (k_ListPods api c ns w)) = view w) \<and>
     (\<forall>c ns name w. view (snd (k_GetPod api c ns name w)) = view w) \<and>
     (\<forall>c ns name w. view (snd (k_GetDeployment api c ns name w)) = view w) \<and>
     (\<forall>c ns sel w. view (snd (k_ListEvents api c ns sel w)) = view w) \<and>
     (\<forall>c ns pod opts w. view (snd (k_GetLogs api c ns pod opts w)) = view w) \<and>
     (\<forall>c verb grp res ns w. view (snd (k_AccessReview api c verb grp res ns w)) = view w) \<and>
     (\<forall>c ns name ty p w. view (snd (k_PatchDeployment api c ns name ty p True w)) = view w) \<and>
     (\<forall>c ns name ty p dry w c' ns'. (c', ns') \<noteq> (c_Name c, ns) \<longrightarrow>
        view (snd (k_PatchDeployment api c ns name ty p dry w)) c' ns' = view w c' ns') \<and>
     (\<forall>c ns w. view (snd (k_ListDeployments api c ns w)) = view w) \<and>
     (\<forall>c w. view (snd (k_ListNodes api c w)) = view w)"

lemma kube_lawsD:
  assumes "kube_laws api view"
  shows "k_ListPods api c ns w = (r1, w') \<Longrightarrow> view w' = view w"
    and "k_GetPod api c ns name w = (r2, w') \<Longrightarrow> view w' = view w"
    and "k_GetDeployment api c ns name w = (r3, w') \<Longrightarrow> view w' = view w"
    and "k_ListEvents api c ns sel w = (r4, w') \<Longrightarrow> view w' = view w"
    and "k_GetLogs api c ns pod opts w = (r5, w') \<Longrightarrow> view w' = view w"
    and "k_AccessReview api c verb grp res ns w = (r6, w') \<Longrightarrow> view w' = view w"
    and "k_PatchDeployment api c ns name ty p True w = (r7, w') \<Longrightarrow> view w' = view w"
    and "k_PatchDeployment api c ns name ty p dry w = (r8, w') \<Longrightarrow> (c', ns') \<noteq> (c_Name c, ns) \<Longrightarrow>
      view w' c' ns' = view w c' ns'"
    and "k_ListDeployments api c ns w = (r9, w') \<Longrightarrow> view w' = view w"
    and "k_ListNodes api c w = (r10, w') \<Longrightarrow> view w' = view w"
  using assms unfolding kube_laws_def by (metis snd_conv)+

lemma CanI_view: "kube_laws api view \<Longrightarrow> CanI api c verb grp res ns w = (r, w') \<Longrightarrow> view w' = view w"
  by (auto simp: CanI_def dest: kube_lawsD split: prod.splits sum.splits)

lemma describe_object_view:
  "kube_laws api view \<Longrightarrow> describe_object api c kind ns name w = (r, w') \<Longrightarrow> view w' = view w"
  by (auto simp: describe_object_def dest: kube_lawsD split: prod.splits sum.splits if_splits)

lemma read_tools_view:
  assumes laws: "kube_laws api view"
  shows "view (snd (KubectlGet_Execute api cl args dry w)) = view w"
    and "view (snd (KubectlLogs_Execute api cl args dry w)) = view w"
    and "view (snd (KubectlEvents_Execute api cl args dry w)) = view w"
    and "view (snd (KubectlDescribe_Execute api cl args dry w)) = view w"
proof -
  note D = kube_lawsD [OF laws]
  show "view (snd (KubectlGet_Execute api cl args dry w)) = view w"
    by (auto simp: KubectlGet_Execute_def Let_def dest: D(1) split: sum.split prod.split)
  show "view (snd (KubectlLogs_Execute api cl args dry w)) = view w"
    by (auto simp: KubectlLogs_Execute_def Let_def dest: D(5) split: option.split sum.split prod.split)
  show "view (snd (KubectlEvents_Execute api cl args dry w)) = view w"
    by (auto simp: KubectlEvents_Execute_def Let_def dest: D(4) split: sum.split prod.split)
  show "view (snd (KubectlDescribe_Execute api cl args dry w)) = view w"
  proof (cases "unmarshal_err describe_fields args = None \<and> (\<exists>c. Active (cl w) = Inr c)")
    case False
    then show ?thesis
      by (auto simp: KubectlDescribe_Execute_def Let_def split: option.split sum.split)
  next
    case True
    then obtain c where c: "unmarshal_err describe_fields args = None" "Active (cl w) = Inr c" by blast
    let ?f = "\<lambda>x. str_field x [] (fst (struct_members args))"
    obtain r w1 where o: "describe_object api c (?f ''kind'') (?f ''namespace'') (?f ''name'') w = (r, w1)"
      by fastforce
    obtain evs w2 where l: "k_ListEvents api c (?f ''namespace'') (''involvedObject.name='' @ ?f ''name'') w1 = (evs, w2)"
      by fastforce
    have "view w1 = view w" "view w2 = view w1"
      using describe_object_view [OF laws o] D(4) [OF l] by auto
    with c o l show ?thesis
      by (cases r) (auto simp: KubectlDescribe_Execute_def Let_def)
  qed
qed

text \<open>
  A scale ends either before the patch, with an error and no change, or with the patch of the
  namespace and name in the arguments, after the RBAC preflight said yes.
\<close>

lemma scale_outcome:
  assumes laws: "kube_laws api view"
    and ex: "KubectlScale_Execute api cl args dry w = ((res, err), w')"
  obtains (early) "err \<noteq> None" "view w' = view w"
  | (patched) c cur w1 w2 where "unmarshal_err scale_fields args = None" "Active (cl w) = Inr c"
      "CanI api c ''patch'' ''apps'' ''deployments'' (str_field ''namespace'' [] (fst (struct_members args))) w
         = ((True, None), w1)"
      "view w2 = view w"
      "k_GetDeployment api c (str_field ''namespace'' [] (fst (struct_members args)))
         (str_field ''name'' [] (fst (struct_members args))) w1 = (Inr cur, w2)"
      "k_PatchDeployment api c (str_field ''namespace'' [] (fst (struct_members args)))
         (str_field ''name'' [] (fst (struct_members args))) MergePatch
         (scale_patch (int_field 32 ''replicas'' 0 (fst (struct_members args)))) dry w2 = (err, w')"
proof (cases "unmarshal_err scale_fields args = None \<and> (\<exists>c. Active (cl w) = Inr c)")
  case False
  then consider e where "unmarshal_err scale_fields args = Some e"
    | e where "unmarshal_err scale_fields args = None" "Active (cl w) = Inl e"
    by (metis not_None_eq obj_sumE)
  then have "\<exists>e. err = Some e \<and> w' = w"
  proof cases
    case (1 e)
    with ex have "Some e = err \<and> w = w'" by (simp add: KubectlScale_Execute_def)
    then show ?thesis by metis
  next
    case (2 e)
    with ex have "Some e = err \<and> w = w'" by (simp add: KubectlScale_Execute_def)
    then show ?thesis by metis
  qed
  with early show ?thesis by auto
next
  case True
  then obtain c where c: "unmarshal_err scale_fields args = None" "Active (cl w) = Inr c" by blast
  let ?kvs = "fst (struct_members args)"
  let ?ns = "str_field ''namespace'' [] ?kvs" and ?name = "str_field ''name'' [] ?kvs"
  obtain ok e w1 where rb: "CanI api c ''patch'' ''apps'' ''deployments'' ?ns w = ((ok, e), w1)"
    by (metis prod.exhaust)
  have v1: "view w1 = view w" by (rule CanI_view [OF laws rb])
  show ?thesis
  proof (cases "ok \<and> e = None")
    case False
    with ex c rb have "err \<noteq> None \<and> w' = w1"
      by (cases ok; cases e) (auto simp: KubectlScale_Execute_def Let_def)
    with v1 early show ?thesis by blast
  next
    case True
    obtain g w2 where g: "k_GetDeployment api c ?ns ?name w1 = (g, w2)" by fastforce
    have v2: "view w2 = view w" using kube_lawsD(3) [OF laws g] v1 by simp
    show ?thesis
    proof (cases g)
      case (Inl e)
      with ex c rb True g have "err \<noteq> None \<and> w' = w2" by (auto simp: KubectlScale_Execute_def Let_def)
      with v2 early show ?thesis by blast
    next
      case (Inr cur)
      let ?p = "scale_patch (int_field 32 ''replicas'' 0 ?kvs)"
      obtain pe w3 where p: "k_PatchDeployment api c ?ns ?name MergePatch ?p dry w2 = (pe, w3)"
        by fastforce
      with ex c rb True g Inr have "err = pe \<and> w' = w3"
        by (cases pe) (auto simp: KubectlScale_Execute_def Let_def)
      with c rb True g Inr p v2 show ?thesis by (intro patched [of c w1 w2 cur]) auto
    qed
  qed
qed

lemma rollout_outcome:
  assumes laws: "kube_laws api view"
    and ex: "KubectlRolloutRestart_Execute api cl now args dry w = ((res, err), w')"
  obtains (early) "err \<noteq> None" "view w' = view w"
  | (patched) c w1 where "unmarshal_err rollout_fields args = None" "Active (cl w) = Inr c"
      "CanI api c ''patch'' ''apps'' ''deployments'' (str_field ''namespace'' [] (fst (struct_members args))) w
         = ((True, None), w1)"
      "view w1 = view w"
      "k_PatchDeployment api c (str_field ''namespace'' [] (fst (struct_members args)))
         (str_field ''name'' [] (fst (struct_members args))) StrategicMergePatch
         (rollout_patch (now w1)) dry w1 = (err, w')"
proof (cases "unmarshal_err rollout_fields args = None \<and> (\<exists>c. Active (cl w) = Inr c)")
  case False
  then consider e where "unmarshal_err rollout_fields args = Some e"
    | e where "unmarshal_err rollout_fields args = None" "Active (cl w) = Inl e"
    by (metis not_None_eq obj_sumE)
  then have "\<exists>e. err = Some e \<and> w' = w"
  proof cases
    case (1 e)
    with ex have "Some e = err \<and> w = w'" by (simp add: KubectlRolloutRestart_Execute_def)
    then show ?thesis by metis
  next
    case (2 e)
    with ex have "Some e = err \<and> w = w'" by (simp add: KubectlRolloutRestart_Execute_def)
    then show ?thesis by metis
  qed
  with early show ?thesis by auto
next
  case True
  then obtain c where c: "unmarshal_err rollout_fields args = None" "Active (cl w) = Inr c" by blast
  let ?kvs = "fst (struct_members args)"
  let ?ns = "str_field ''namespace'' [] ?kvs" and ?name = "str_field ''name'' [] ?kvs"
  obtain ok e w1 where rb: "CanI api c ''patch'' ''apps'' ''deployments'' ?ns w = ((ok, e), w1)"
    by (metis prod.exhaust)
  have v1: "view w1 = view w" by (rule CanI_view [OF laws rb])
  show ?thesis
  proof (cases "ok \<and> e = None")
    case False
    with ex c rb have "err \<noteq> None \<and> w' = w1"
      by (cases ok; cases e) (auto simp: KubectlRolloutRestart_Execute_def Let_def)
    with v1 early show ?thesis by blast
  next
    case True
    obtain pe w2 where p: "k_PatchDeployment api c ?ns ?name StrategicMergePatch (rollout_patch (now w1)) dry w1 = (pe, w2)"
      by fastforce
    with ex c rb True have "err = pe \<and> w' = w2"
      by (cases pe) (auto simp: KubectlRolloutRestart_Execute_def Let_def)
    with c rb True p v1 show ?thesis by (intro patched [of c w1]) auto
  qed
qed

text \<open>A dry run changes no cluster, and a real run at most the namespace named in the arguments.\<close>

lemma mutating_tools_dry_run:
  assumes laws: "kube_laws api view"
  shows "view (snd (KubectlScale_Execute api cl args True w)) = view w"
    and "view (snd (KubectlRolloutRestart_Execute api cl now args True w)) = view w"
proof -
  obtain r e w' where x: "KubectlScale_Execute api cl args True w = ((r, e), w')" by (metis prod.exhaust)
  show "view (snd (KubectlScale_Execute api cl args True w)) = view w"
    by (rule scale_outcome [OF laws x]) (use x kube_lawsD(7) [OF laws] in auto)
  obtain r e w' where x: "KubectlRolloutRestart_Execute api cl now args True w = ((r, e), w')"
    by (metis prod.exhaust)
  show "view (snd (KubectlRolloutRestart_Execute api cl now args True w)) = view w"
    by (rule rollout_outcome [OF laws x]) (use x kube_lawsD(7) [OF laws] in auto)
qed

lemma mutating_tools_scope:
  assumes laws: "kube_laws api view"
    and "ns \<noteq> str_field ''namespace'' [] (fst (struct_members args))"
  shows "view (snd (KubectlScale_Execute api cl args dry w)) c ns = view w c ns"
    and "view (snd (KubectlRolloutRestart_Execute api cl now args dry w)) c ns = view w c ns"
proof -
  obtain r e w' where x: "KubectlScale_Execute api cl args dry w = ((r, e), w')" by (metis prod.exhaust)
  show "view (snd (KubectlScale_Execute api cl args dry w)) c ns = view w c ns"
    by (rule scale_outcome [OF laws x]) (use x assms kube_lawsD(8) [OF laws] in auto)
  obtain r e w' where x: "KubectlRolloutRestart_Execute api cl now args dry w = ((r, e), w')"
    by (metis prod.exhaust)
  show "view (snd (KubectlRolloutRestart_Execute api cl now args dry w)) c ns = view w c ns"
    by (rule rollout_outcome [OF laws x]) (use x assms kube_lawsD(8) [OF laws] in auto)
qed

text \<open>
  The contract of a tool over the API server, as the rest of the program relies on it: a dry run
  changes no cluster, and a real run changes only the namespace its arguments name (of some
  cluster). A read tool changes nothing at all.
\<close>

locale kube_tool =
  fixes exec :: "'w KubeApi \<Rightarrow> RawArgs \<Rightarrow> bool \<Rightarrow> 'w \<Rightarrow> (Result \<times> go_error option) \<times> 'w"
    and view :: "'w \<Rightarrow> string \<Rightarrow> string \<Rightarrow> 'v"
  assumes dry_run: "kube_laws api view \<Longrightarrow> view (snd (exec api args True w)) = view w"
    and scope: "kube_laws api view \<Longrightarrow> ns \<noteq> str_field ''namespace'' [] (fst (struct_members args)) \<Longrightarrow>
      view (snd (exec api args dry w)) c ns = view w c ns"

locale kube_reader =
  fixes exec :: "'w KubeApi \<Rightarrow> RawArgs \<Rightarrow> bool \<Rightarrow> 'w \<Rightarrow> (Result \<times> go_error option) \<times> 'w"
    and view :: "'w \<Rightarrow> string \<Rightarrow> string \<Rightarrow> 'v"
  assumes reads: "kube_laws api view \<Longrightarrow> view (snd (exec api args dry w)) = view w"

sublocale kube_reader \<subseteq> kube_tool
  by unfold_locales (simp_all add: reads)

interpretation get_pods: kube_reader "\<lambda>api. KubectlGet_Execute api cl" view for cl view
  by unfold_locales (rule read_tools_view)

interpretation logs: kube_reader "\<lambda>api. KubectlLogs_Execute api cl" view for cl view
  by unfold_locales (rule read_tools_view)

interpretation events: kube_reader "\<lambda>api. KubectlEvents_Execute api cl" view for cl view
  by unfold_locales (rule read_tools_view)

interpretation describe: kube_reader "\<lambda>api. KubectlDescribe_Execute api cl" view for cl view
  by unfold_locales (rule read_tools_view)

interpretation scale: kube_tool "\<lambda>api. KubectlScale_Execute api cl" view for cl view
  by unfold_locales (rule mutating_tools_dry_run mutating_tools_scope; assumption)+

interpretation rollout: kube_tool "\<lambda>api. KubectlRolloutRestart_Execute api cl now" view for cl now view
  by unfold_locales (rule mutating_tools_dry_run mutating_tools_scope; assumption)+

end
