(* ===== verification/AuditEngine.thy ===== *)
theory AuditEngine
  imports ToolApi K8s "HOL-Library.Product_Lexorder"
begin

text \<open>
  The audit engine (internal/audit) and its rules (internal/audit/rules). A rule is a function of
  the snapshot (and the clock, for \<open>DetectedAt\<close>). The engine runs the rules, and \<open>ScanFleet\<close> the
  clusters, concurrently and collects what they find in the order in which they finish: that order
  is a parameter, \<open>sched\<close>, a function that permutes the list of results.
\<close>

section \<open>Findings (finding.go)\<close>

type_synonym Severity = string
type_synonym Category = string

abbreviation P0 :: Severity where "P0 \<equiv> ''P0''"
abbreviation P1 :: Severity where "P1 \<equiv> ''P1''"
abbreviation P2 :: Severity where "P2 \<equiv> ''P2''"
abbreviation P3 :: Severity where "P3 \<equiv> ''P3''"

abbreviation Reliability :: Category where "Reliability \<equiv> ''reliability''"
abbreviation Security :: Category where "Security \<equiv> ''security''"
abbreviation Cost :: Category where "Cost \<equiv> ''cost''"
abbreviation Optimization :: Category where "Optimization \<equiv> ''optimization''"

record ResourceRef =
  rr_Cluster :: string
  rr_Namespace :: string
  rr_Kind :: string
  rr_Name :: string

record Remediation =
  rm_Summary :: string
  rm_KubectlEquivalent :: string
  rm_AutoFixTool :: string
  rm_AutoFixArgs :: "(string \<times> json) list"

record Finding =
  fd_RuleID :: string
  fd_Category :: Category
  fd_Severity :: Severity
  fd_Resource :: ResourceRef
  fd_Title :: string
  fd_Impact :: string
  fd_RootCause :: string
  fd_Remediation :: Remediation
  fd_SavingsCents :: int \<comment> \<open>\<open>EstMonthlySavingsUSD\<close>, in cents\<close>
  fd_DetectedAt :: int

definition Autofixable :: "Finding \<Rightarrow> bool" where
  "Autofixable f = (rm_AutoFixTool (fd_Remediation f) \<noteq> [])"

definition DedupKey :: "Finding \<Rightarrow> string" where
  "DedupKey f =
     (let r = fd_Resource f
      in fd_RuleID f @ ''|'' @ rr_Cluster r @ ''|'' @ rr_Namespace r @ ''|'' @ rr_Kind r @ ''|'' @ rr_Name r)"

text \<open>Without the separator in the parts, the key determines them.\<close>

lemma sep_split:
  "c \<notin> set a \<Longrightarrow> c \<notin> set a' \<Longrightarrow> a @ c # b = a' @ c # b' \<Longrightarrow> a = a' \<and> b = b'"
proof (induction a arbitrary: a')
  case Nil
  then show ?case by (cases a') auto
next
  case (Cons x a)
  then show ?case by (cases a') auto
qed

lemma DedupKey_inj:
  assumes "DedupKey f = DedupKey g"
    and "\<forall>x \<in> {f, g}. CHR ''|'' \<notin> set (fd_RuleID x) \<and> CHR ''|'' \<notin> set (rr_Cluster (fd_Resource x)) \<and>
      CHR ''|'' \<notin> set (rr_Namespace (fd_Resource x)) \<and> CHR ''|'' \<notin> set (rr_Kind (fd_Resource x))"
  shows "fd_RuleID f = fd_RuleID g \<and> fd_Resource f = fd_Resource g"
proof -
  let ?r = "fd_Resource f" and ?q = "fd_Resource g"
  have eq: "fd_RuleID f @ CHR ''|'' # rr_Cluster ?r @ CHR ''|'' # rr_Namespace ?r @ CHR ''|'' # rr_Kind ?r @ CHR ''|'' # rr_Name ?r =
      fd_RuleID g @ CHR ''|'' # rr_Cluster ?q @ CHR ''|'' # rr_Namespace ?q @ CHR ''|'' # rr_Kind ?q @ CHR ''|'' # rr_Name ?q"
    using assms(1) unfolding DedupKey_def Let_def by simp
  have fg: "f \<in> {f, g}" "g \<in> {f, g}" by auto
  note free = bspec [OF assms(2) fg(1)] bspec [OF assms(2) fg(2)]
  have 1: "fd_RuleID f = fd_RuleID g \<and> rr_Cluster ?r @ CHR ''|'' # rr_Namespace ?r @ CHR ''|'' # rr_Kind ?r @ CHR ''|'' # rr_Name ?r =
      rr_Cluster ?q @ CHR ''|'' # rr_Namespace ?q @ CHR ''|'' # rr_Kind ?q @ CHR ''|'' # rr_Name ?q"
    by (rule sep_split [OF _ _ eq]) (use free in blast)+
  have 2: "rr_Cluster ?r = rr_Cluster ?q \<and> rr_Namespace ?r @ CHR ''|'' # rr_Kind ?r @ CHR ''|'' # rr_Name ?r =
      rr_Namespace ?q @ CHR ''|'' # rr_Kind ?q @ CHR ''|'' # rr_Name ?q"
    by (rule sep_split [OF _ _ conjunct2 [OF 1]]) (use free in blast)+
  have 3: "rr_Namespace ?r = rr_Namespace ?q \<and> rr_Kind ?r @ CHR ''|'' # rr_Name ?r = rr_Kind ?q @ CHR ''|'' # rr_Name ?q"
    by (rule sep_split [OF _ _ conjunct2 [OF 2]]) (use free in blast)+
  have "rr_Kind ?r = rr_Kind ?q \<and> rr_Name ?r = rr_Name ?q"
    by (rule sep_split [OF _ _ conjunct2 [OF 3]]) (use free in blast)+
  with 1 2 3 show ?thesis by (simp add: ResourceRef.equality)
qed

section \<open>Rules (rule.go)\<close>

record Rule =
  rule_ID :: string
  rule_Category :: Category
  rule_Evaluate :: "int \<Rightarrow> Snapshot \<Rightarrow> Finding list"

type_synonym RuleSet = "(string \<times> Rule) list"

definition RuleSet_Register :: "Rule \<Rightarrow> RuleSet \<Rightarrow> RuleSet" where
  "RuleSet_Register r rs = AList.update (rule_ID r) r rs"

definition Enabled :: "string list \<Rightarrow> RuleSet \<Rightarrow> Rule list" where
  "Enabled disabled rs = sort_key rule_ID (map snd (filter (\<lambda>(i, r). i \<notin> set disabled) rs))"

section \<open>The rule library (rules)\<close>

text \<open>\<open>%v\<close> of a slice of strings.\<close>

definition show_strings :: "string list \<Rightarrow> string" where
  "show_strings xs = ''['' @ join '' '' xs @ '']''"

definition dep_ref :: "Snapshot \<Rightarrow> Deployment \<Rightarrow> ResourceRef" where
  "dep_ref snap d = \<lparr>rr_Cluster = snap_Cluster snap, rr_Namespace = dep_Namespace d,
     rr_Kind = ''Deployment'', rr_Name = dep_Name d\<rparr>"

definition remedy :: "string \<Rightarrow> string \<Rightarrow> Remediation" where
  "remedy summary kubectl = \<lparr>rm_Summary = summary, rm_KubectlEquivalent = kubectl,
     rm_AutoFixTool = [], rm_AutoFixArgs = []\<rparr>"

definition dep_finding ::
  "string \<Rightarrow> Category \<Rightarrow> Severity \<Rightarrow> string \<Rightarrow> string \<Rightarrow> string \<Rightarrow> Remediation \<Rightarrow> int \<Rightarrow> Snapshot \<Rightarrow> Deployment \<Rightarrow> Finding" where
  "dep_finding i cat sev title impact cause rem now snap d =
     \<lparr>fd_RuleID = i, fd_Category = cat, fd_Severity = sev, fd_Resource = dep_ref snap d,
      fd_Title = ''Deployment '' @ go_quote (dep_Name d) @ title, fd_Impact = impact,
      fd_RootCause = cause, fd_Remediation = rem, fd_SavingsCents = 0, fd_DetectedAt = now\<rparr>"

definition severityForReplicas :: "int \<Rightarrow> Severity" where
  "severityForReplicas n = (if 3 \<le> n then P1 else if 1 \<le> n then P2 else P3)"

definition em_dash' :: string where "em_dash' = [CHR 0xE2, CHR 0x80, CHR 0x94]"
definition en_dash :: string where "en_dash = [CHR 0xE2, CHR 0x80, CHR 0x93]"

definition MissingReadinessProbe :: Rule where
  "MissingReadinessProbe =
     \<lparr>rule_ID = ''reliability.missing_readiness_probe'', rule_Category = Reliability,
      rule_Evaluate = (\<lambda>now snap. concat (map (\<lambda>d.
        let missing = map ctr_Name (filter (\<lambda>c. \<not> ctr_ReadinessProbe c) (dep_Containers d))
        in if missing = [] then []
           else [dep_finding ''reliability.missing_readiness_probe'' Reliability
                   (severityForReplicas (dep_Replicas d)) '' is missing readiness probes''
                   ''Traffic may be routed to pods before they can serve, causing 5xx during rollouts and scale-ups.''
                   (''containers without readinessProbe: '' @ show_strings missing)
                   (remedy ''Add a readinessProbe (HTTP/TCP/exec) to each container so the kubelet gates traffic until the pod is ready.''
                      (''kubectl -n '' @ dep_Namespace d @ '' edit deployment/'' @ dep_Name d
                       @ ''  # add spec.template.spec.containers[].readinessProbe''))
                   now snap d]) (snap_Deployments snap)))\<rparr>"

definition anyContainer :: "Container list \<Rightarrow> (Container \<Rightarrow> bool) \<Rightarrow> bool" where
  "anyContainer cs pred = list_ex pred cs"

definition MissingLivenessProbe :: Rule where
  "MissingLivenessProbe =
     \<lparr>rule_ID = ''reliability.missing_liveness_probe'', rule_Category = Reliability,
      rule_Evaluate = (\<lambda>now snap. concat (map (\<lambda>d.
        if \<not> anyContainer (dep_Containers d) (\<lambda>c. \<not> ctr_LivenessProbe c) then []
        else [dep_finding ''reliability.missing_liveness_probe'' Reliability P3 '' is missing liveness probes''
                ''Hung processes will not be auto-restarted, prolonging partial outages.''
                ''one or more containers have no livenessProbe''
                (remedy ''Add a livenessProbe so the kubelet can restart unresponsive containers.'' [])
                now snap d]) (snap_Deployments snap)))\<rparr>"

definition privileged :: "Container \<Rightarrow> bool" where
  "privileged c = (ctr_SecurityContext c = Some (Some True))"

definition PrivilegedContainer :: Rule where
  "PrivilegedContainer =
     \<lparr>rule_ID = ''security.privileged_container'', rule_Category = Security,
      rule_Evaluate = (\<lambda>now snap. concat (map (\<lambda>d.
        let bad = map ctr_Name (filter privileged (dep_Containers d))
        in if bad = [] then []
           else [dep_finding ''security.privileged_container'' Security P1 '' runs privileged containers''
                   (''A privileged container can access host devices and escape to the node '' @ em_dash'
                    @ '' full node/cluster compromise if breached.'')
                   (''privileged containers: '' @ show_strings bad)
                   (remedy ''Drop securityContext.privileged; grant only the specific Linux capabilities actually required.''
                      (''kubectl -n '' @ dep_Namespace d @ '' edit deployment/'' @ dep_Name d
                       @ ''  # remove containers[].securityContext.privileged: true''))
                   now snap d]) (snap_Deployments snap)))\<rparr>"

definition host_paths :: "Deployment \<Rightarrow> string list" where
  "host_paths d = concat (map (\<lambda>v. case vol_HostPath v of None \<Rightarrow> [] | Some p \<Rightarrow> [p]) (dep_Volumes d))"

definition HostPathVolume :: Rule where
  "HostPathVolume =
     \<lparr>rule_ID = ''security.host_path_volume'', rule_Category = Security,
      rule_Evaluate = (\<lambda>now snap. concat (map (\<lambda>d.
        let paths = host_paths d
        in if paths = [] then []
           else [dep_finding ''security.host_path_volume'' Security P2 '' mounts host paths''
                   ''hostPath mounts break node isolation; a compromised pod can read/modify node files and escalate.''
                   (''hostPath volumes: '' @ show_strings paths)
                   (remedy ''Replace hostPath with a PVC, emptyDir, CSI volume, or projected volume scoped to the workload.'' [])
                   now snap d]) (snap_Deployments snap)))\<rparr>"

definition hasRequest :: "Container \<Rightarrow> string \<Rightarrow> bool" where
  "hasRequest c name = (case ctr_Requests c of None \<Rightarrow> False | Some rs \<Rightarrow> name \<in> set rs)"

definition hasLimit :: "Container \<Rightarrow> string \<Rightarrow> bool" where
  "hasLimit c name = (case ctr_Limits c of None \<Rightarrow> False | Some rs \<Rightarrow> name \<in> set rs)"

definition MissingResourceRequests :: Rule where
  "MissingResourceRequests =
     \<lparr>rule_ID = ''cost.missing_resource_requests'', rule_Category = Cost,
      rule_Evaluate = (\<lambda>now snap. concat (map (\<lambda>d.
        let missing = map ctr_Name (filter (\<lambda>c. \<not> hasRequest c ''cpu'' \<or> \<not> hasRequest c ''memory'') (dep_Containers d))
        in if missing = [] then []
           else [dep_finding ''cost.missing_resource_requests'' Cost P2 '' is missing CPU/memory requests''
                   ''Without requests the scheduler cannot bin-pack or right-size this workload, driving node over-provisioning and cost.''
                   (''containers without complete requests: '' @ show_strings missing)
                   (remedy ''Set resources.requests.cpu and resources.requests.memory based on observed usage (metrics-server / VPA recommendations).''
                      (''kubectl -n '' @ dep_Namespace d @ '' set resources deployment/'' @ dep_Name d
                       @ '' --requests=cpu=100m,memory=128Mi''))
                   now snap d]) (snap_Deployments snap)))\<rparr>"

definition MissingMemoryLimit :: Rule where
  "MissingMemoryLimit =
     \<lparr>rule_ID = ''optimization.missing_memory_limit'', rule_Category = Optimization,
      rule_Evaluate = (\<lambda>now snap. concat (map (\<lambda>d.
        let missing = map ctr_Name (filter (\<lambda>c. \<not> hasLimit c ''memory'') (dep_Containers d))
        in if missing = [] then []
           else [dep_finding ''optimization.missing_memory_limit'' Optimization P3 '' has no memory limit''
                   ''A leak or spike can exhaust node memory and OOM-kill neighbors; the node loses scheduling predictability.''
                   (''containers without memory limit: '' @ show_strings missing)
                   (remedy (''Set resources.limits.memory (typically 1.5'' @ en_dash
                      @ ''2x the request) so the kubelet can cap and isolate the container.'') [])
                   now snap d]) (snap_Deployments snap)))\<rparr>"

definition RegisterAll :: "RuleSet \<Rightarrow> RuleSet" where
  "RegisterAll rs =
     fold RuleSet_Register
       [MissingReadinessProbe, MissingLivenessProbe, PrivilegedContainer, HostPathVolume,
        MissingResourceRequests, MissingMemoryLimit] rs"

section \<open>The engine (engine.go)\<close>

record Report =
  rep_StartedAt :: int
  rep_Duration :: int
  rep_Findings :: "Finding list"

definition BySeverity :: "Report \<Rightarrow> Severity \<Rightarrow> nat" where
  "BySeverity r s = length (filter (\<lambda>f. fd_Severity f = s) (rep_Findings r))"

definition sev_rank :: "Severity \<Rightarrow> nat" where
  "sev_rank s = (if s = P1 then 1 else if s = P2 then 2 else if s = P3 then 3 else 0)"

definition finding_key :: "Finding \<Rightarrow> nat \<times> string" where
  "finding_key f = (sev_rank (fd_Severity f), fd_Category f)"

definition sortFindings :: "Finding list \<Rightarrow> Finding list" where
  "sortFindings fs = sort_key finding_key fs"

type_synonym 'a schedule = "'a list \<Rightarrow> 'a list"

definition fair :: "'a schedule \<Rightarrow> bool" where
  "fair sched \<longleftrightarrow> (\<forall>xs. mset (sched xs) = mset xs)"

record Engine =
  eng_rules :: RuleSet
  eng_disabled :: "string list"

definition Scan ::
  "'w KubeApi \<Rightarrow> ('w \<Rightarrow> int) \<Rightarrow> Finding list schedule \<Rightarrow> Engine \<Rightarrow> Cluster \<Rightarrow> string \<Rightarrow> 'w \<Rightarrow>
   (go_error + Report) \<times> 'w" where
  "Scan api clk sched eng c ns w =
     (let start = clk w
      in case Cluster_Snapshot api c ns w of
           (Inl e, w1) \<Rightarrow> (Inl e, w1)
         | (Inr snap, w1) \<Rightarrow>
             (let rules = Enabled (eng_disabled eng) (eng_rules eng);
                  found = concat (sched (map (\<lambda>r. rule_Evaluate r (clk w1) snap) rules))
              in (Inr \<lparr>rep_StartedAt = start, rep_Duration = clk w1 - start,
                       rep_Findings = sortFindings found\<rparr>, w1)))"

text \<open>
  The named clusters, or the error for the first name that is not registered. The function is run
  on each, in the order \<open>sched\<close> in which they finish; the group returns the first error.
\<close>

fun lookup_all :: "ClusterRegistry \<Rightarrow> string list \<Rightarrow> go_error + Cluster list" where
  "lookup_all r [] = Inr []"
| "lookup_all r (n # ns) =
     (case Get n r of
        Inl e \<Rightarrow> Inl e
      | Inr c \<Rightarrow> (case lookup_all r ns of Inl e \<Rightarrow> Inl e | Inr cs \<Rightarrow> Inr (c # cs)))"

fun run_group :: "('c \<Rightarrow> 's \<Rightarrow> go_error option \<times> 's) \<Rightarrow> 'c list \<Rightarrow> 's \<Rightarrow> go_error option \<times> 's" where
  "run_group fn [] s = (None, s)"
| "run_group fn (c # cs) s =
     (let (e, s1) = fn c s; (e', s2) = run_group fn cs s1
      in (case e of Some _ \<Rightarrow> e | None \<Rightarrow> e', s2))"

definition FanOut ::
  "ClusterRegistry \<Rightarrow> string list \<Rightarrow> Cluster schedule \<Rightarrow> (Cluster \<Rightarrow> 's \<Rightarrow> go_error option \<times> 's) \<Rightarrow> 's \<Rightarrow>
   go_error option \<times> 's" where
  "FanOut r names sched fn s =
     (case lookup_all r (if names = [] then Names r else names) of
        Inl e \<Rightarrow> (Some e, s)
      | Inr cs \<Rightarrow> run_group fn (sched cs) s)"

definition scan_into ::
  "'w KubeApi \<Rightarrow> ('w \<Rightarrow> int) \<Rightarrow> Finding list schedule \<Rightarrow> Engine \<Rightarrow> string \<Rightarrow> Cluster \<Rightarrow>
   'w \<times> Finding list \<Rightarrow> go_error option \<times> ('w \<times> Finding list)" where
  "scan_into api clk sched eng ns c s =
     (case Scan api clk sched eng c ns (fst s) of
        (Inl e, w1) \<Rightarrow> (Some e, (w1, snd s))
      | (Inr rep, w1) \<Rightarrow> (None, (w1, snd s @ rep_Findings rep)))"

definition ScanFleet ::
  "'w KubeApi \<Rightarrow> ('w \<Rightarrow> int) \<Rightarrow> Finding list schedule \<Rightarrow> Cluster schedule \<Rightarrow> Engine \<Rightarrow> ClusterRegistry \<Rightarrow>
   string list \<Rightarrow> string \<Rightarrow> 'w \<Rightarrow> (go_error + Report) \<times> 'w" where
  "ScanFleet api clk sched csched eng r names ns w =
     (let start = clk w
      in case FanOut r names csched (scan_into api clk sched eng ns) (w, []) of
           (Some e, (w1, _)) \<Rightarrow> (Inl e, w1)
         | (None, (w1, all)) \<Rightarrow>
             (Inr \<lparr>rep_StartedAt = start, rep_Duration = clk w1 - start, rep_Findings = sortFindings all\<rparr>, w1))"

section \<open>What a rule of the library finds\<close>

text \<open>
  The interface of a deployment rule: it makes one finding for each deployment that violates it, in
  their order, with its own id and category and one of the four severities.
\<close>

locale deployment_rule =
  fixes r :: Rule
    and bad :: "Deployment \<Rightarrow> bool"
  assumes refs: "map fd_Resource (rule_Evaluate r now snap) = map (dep_ref snap) (filter bad (snap_Deployments snap))"
    and tags: "f \<in> set (rule_Evaluate r now snap) \<Longrightarrow>
      fd_RuleID f = rule_ID r \<and> fd_Category f = rule_Category r \<and> fd_Severity f \<in> {P0, P1, P2, P3}"
begin

lemma found_iff:
  "(\<exists>f \<in> set (rule_Evaluate r now snap). fd_RuleID f = i \<and> fd_Resource f = ref) \<longleftrightarrow>
     i = rule_ID r \<and> (\<exists>d \<in> set (snap_Deployments snap). bad d \<and> ref = dep_ref snap d)"
proof -
  have "fd_Resource ` set (rule_Evaluate r now snap) = dep_ref snap ` {d \<in> set (snap_Deployments snap). bad d}"
    using arg_cong [OF refs, of set now snap] by simp
  then have "(\<exists>f \<in> set (rule_Evaluate r now snap). fd_Resource f = ref) \<longleftrightarrow>
      (\<exists>d \<in> set (snap_Deployments snap). bad d \<and> ref = dep_ref snap d)"
    by (auto simp: image_iff set_eq_iff) metis+
  with tags show ?thesis by blast
qed

lemma one_each: "length (rule_Evaluate r now snap) = length (filter bad (snap_Deployments snap))"
  using arg_cong [OF refs, of length now snap] by simp

end

lemma dep_finding_sel [simp]:
  "fd_Resource (dep_finding i cat sev title impact cause rem now snap d) = dep_ref snap d"
  "fd_RuleID (dep_finding i cat sev title impact cause rem now snap d) = i"
  "fd_Category (dep_finding i cat sev title impact cause rem now snap d) = cat"
  "fd_Severity (dep_finding i cat sev title impact cause rem now snap d) = sev"
  by (simp_all add: dep_finding_def)

lemmas rule_defs = MissingReadinessProbe_def MissingLivenessProbe_def PrivilegedContainer_def
  HostPathVolume_def MissingResourceRequests_def MissingMemoryLimit_def

definition violates :: "string \<Rightarrow> Deployment \<Rightarrow> bool" where
  "violates i d =
     (if i = ''reliability.missing_readiness_probe'' then \<exists>c \<in> set (dep_Containers d). \<not> ctr_ReadinessProbe c
      else if i = ''reliability.missing_liveness_probe'' then \<exists>c \<in> set (dep_Containers d). \<not> ctr_LivenessProbe c
      else if i = ''security.privileged_container'' then \<exists>c \<in> set (dep_Containers d). privileged c
      else if i = ''security.host_path_volume'' then \<exists>v \<in> set (dep_Volumes d). vol_HostPath v \<noteq> None
      else if i = ''cost.missing_resource_requests''
        then \<exists>c \<in> set (dep_Containers d). \<not> hasRequest c ''cpu'' \<or> \<not> hasRequest c ''memory''
      else if i = ''optimization.missing_memory_limit'' then \<exists>c \<in> set (dep_Containers d). \<not> hasLimit c ''memory''
      else False)"

lemma host_paths_Nil: "host_paths d = [] \<longleftrightarrow> (\<forall>v \<in> set (dep_Volumes d). vol_HostPath v = None)"
  by (auto simp: host_paths_def split: option.splits)

text \<open>The shape the rules are written in gives the interface.\<close>

lemma deployment_ruleI:
  assumes "rule_Evaluate r = (\<lambda>now snap. concat (map (\<lambda>d. if good d then [] else [mk now snap d]) (snap_Deployments snap)))"
    and "\<And>d. good d \<longleftrightarrow> \<not> bad d"
    and "\<And>now snap d. fd_Resource (mk now snap d) = dep_ref snap d"
    and "\<And>now snap d. fd_RuleID (mk now snap d) = rule_ID r \<and> fd_Category (mk now snap d) = rule_Category r \<and>
      fd_Severity (mk now snap d) \<in> {P0, P1, P2, P3}"
  shows "deployment_rule r bad"
proof
  have "map fd_Resource (concat (map (\<lambda>d. if \<not> bad d then [] else [mk now snap d]) ds)) = map (dep_ref snap) (filter bad ds)"
    for now snap ds
    using assms(3) by (induction ds) auto
  then show "map fd_Resource (rule_Evaluate r now snap) = map (dep_ref snap) (filter bad (snap_Deployments snap))"
    for now snap by (simp only: assms(1,2))
  show "f \<in> set (rule_Evaluate r now snap) \<Longrightarrow>
      fd_RuleID f = rule_ID r \<and> fd_Category f = rule_Category r \<and> fd_Severity f \<in> {P0, P1, P2, P3}" for f now snap
    using assms(4) by (auto simp: assms(1) split: if_splits)
qed

lemma severity_range: "severityForReplicas n \<in> {P0, P1, P2, P3}"
  by (simp add: severityForReplicas_def)

interpretation readiness: deployment_rule MissingReadinessProbe "violates ''reliability.missing_readiness_probe''"
  by (rule deployment_ruleI, simp only: MissingReadinessProbe_def Rule.simps Let_def)
    (simp_all add: violates_def filter_empty_conv MissingReadinessProbe_def severity_range [simplified])

interpretation liveness: deployment_rule MissingLivenessProbe "violates ''reliability.missing_liveness_probe''"
  by (rule deployment_ruleI, simp only: MissingLivenessProbe_def Rule.simps Let_def)
    (simp_all add: violates_def anyContainer_def list_ex_iff MissingLivenessProbe_def)

interpretation privileged: deployment_rule PrivilegedContainer "violates ''security.privileged_container''"
  by (rule deployment_ruleI, simp only: PrivilegedContainer_def Rule.simps Let_def)
    (simp_all add: violates_def filter_empty_conv PrivilegedContainer_def)

interpretation hostpath: deployment_rule HostPathVolume "violates ''security.host_path_volume''"
  by (rule deployment_ruleI, simp only: HostPathVolume_def Rule.simps Let_def)
    (simp_all add: violates_def host_paths_Nil HostPathVolume_def)

interpretation requests: deployment_rule MissingResourceRequests "violates ''cost.missing_resource_requests''"
  by (rule deployment_ruleI, simp only: MissingResourceRequests_def Rule.simps Let_def)
    (simp_all add: violates_def filter_empty_conv MissingResourceRequests_def)

interpretation memlimit: deployment_rule MissingMemoryLimit "violates ''optimization.missing_memory_limit''"
  by (rule deployment_ruleI, simp only: MissingMemoryLimit_def Rule.simps Let_def)
    (simp_all add: violates_def filter_empty_conv MissingMemoryLimit_def)

section \<open>What a scan reports\<close>

definition library :: "Rule set" where
  "library = {MissingReadinessProbe, MissingLivenessProbe, PrivilegedContainer, HostPathVolume,
     MissingResourceRequests, MissingMemoryLimit}"

lemma rule_IDs [simp]:
  "rule_ID MissingReadinessProbe = ''reliability.missing_readiness_probe''"
  "rule_ID MissingLivenessProbe = ''reliability.missing_liveness_probe''"
  "rule_ID PrivilegedContainer = ''security.privileged_container''"
  "rule_ID HostPathVolume = ''security.host_path_volume''"
  "rule_ID MissingResourceRequests = ''cost.missing_resource_requests''"
  "rule_ID MissingMemoryLimit = ''optimization.missing_memory_limit''"
  by (simp_all add: rule_defs)

definition library_list :: "Rule list" where
  "library_list = [MissingReadinessProbe, MissingLivenessProbe, PrivilegedContainer, HostPathVolume,
     MissingResourceRequests, MissingMemoryLimit]"

lemma update_new: "k \<notin> set (map fst al) \<Longrightarrow> AList.update k v al = al @ [(k, v)]"
  by (induction al) auto

lemma register_all_distinct:
  "distinct (map rule_ID rs) \<Longrightarrow> set (map rule_ID rs) \<inter> set (map fst al) = {} \<Longrightarrow>
     fold RuleSet_Register rs al = al @ map (\<lambda>r. (rule_ID r, r)) rs"
proof (induction rs arbitrary: al)
  case (Cons r rs)
  then show ?case by (simp add: RuleSet_Register_def update_new)
qed simp

lemma RegisterAll_list: "RegisterAll [] = map (\<lambda>r. (rule_ID r, r)) library_list"
proof -
  have "distinct (map rule_ID library_list)" by (simp add: library_list_def)
  then show ?thesis
    using register_all_distinct [of library_list "[]"] by (simp add: RegisterAll_def library_list_def)
qed

lemma set_library_list: "set library_list = library"
  by (simp add: library_list_def library_def)

lemma set_Enabled: "set (Enabled disabled (RegisterAll [])) = {r \<in> library. rule_ID r \<notin> set disabled}"
proof -
  have "map snd (filter (\<lambda>(i, r). i \<notin> set disabled) (map (\<lambda>r. (rule_ID r, r)) rs)) =
      filter (\<lambda>r. rule_ID r \<notin> set disabled) rs" for rs :: "Rule list"
    by (induction rs) auto
  then show ?thesis
    by (simp only: Enabled_def RegisterAll_list set_sort set_filter set_library_list)
qed

lemma library_rule:
  assumes "r \<in> library"
  shows "deployment_rule r (violates (rule_ID r))"
  using assms readiness.deployment_rule_axioms liveness.deployment_rule_axioms
    privileged.deployment_rule_axioms hostpath.deployment_rule_axioms
    requests.deployment_rule_axioms memlimit.deployment_rule_axioms
  unfolding library_def by (elim insertE emptyE) simp_all

lemma violates_ids: "violates i d \<Longrightarrow> \<exists>r \<in> library. i = rule_ID r"
  by (simp add: violates_def library_def split: if_splits)

lemma library_found_iff:
  "(\<exists>r \<in> {r \<in> library. rule_ID r \<notin> dis}. \<exists>f \<in> set (rule_Evaluate r now snap). fd_RuleID f = i \<and> fd_Resource f = ref) \<longleftrightarrow>
     i \<notin> dis \<and> (\<exists>d \<in> set (snap_Deployments snap). violates i d \<and> ref = dep_ref snap d)"
  (is "?L \<longleftrightarrow> ?R")
proof
  assume ?L
  then obtain r where r: "r \<in> library" "rule_ID r \<notin> dis"
    "\<exists>f \<in> set (rule_Evaluate r now snap). fd_RuleID f = i \<and> fd_Resource f = ref" by blast
  from r(2,3) show ?R
    unfolding deployment_rule.found_iff [OF library_rule [OF r(1)]] by blast
next
  assume R: ?R
  then obtain r where r: "r \<in> library" "i = rule_ID r" using violates_ids by blast
  have "\<exists>f \<in> set (rule_Evaluate r now snap). fd_RuleID f = i \<and> fd_Resource f = ref"
    unfolding deployment_rule.found_iff [OF library_rule [OF r(1)]] using R r(2) by blast
  with r R show ?L by blast
qed

lemma mset_concat_perm: "mset xs = mset ys \<Longrightarrow> mset (concat xs) = mset (concat ys)"
  by (metis mset_concat mset_map sum_mset_sum_list)

lemma map_key_sort: "map f (sort_key f xs) = sort (map f xs)"
  by (rule sym, rule properties_for_sort) simp_all

lemma Scan_ok:
  assumes "fair sched" and "Scan api clk sched eng c ns w = (Inr rep, w')"
  obtains snap where "Cluster_Snapshot api c ns w = (Inr snap, w')"
    "mset (rep_Findings rep) = mset (concat (map (\<lambda>r. rule_Evaluate r (clk w') snap) (Enabled (eng_disabled eng) (eng_rules eng))))"
    "sorted (map finding_key (rep_Findings rep))"
proof -
  from assms(2) obtain snap where snap: "Cluster_Snapshot api c ns w = (Inr snap, w')"
    by (auto simp: Scan_def Let_def split: prod.splits sum.splits)
  let ?xs = "map (\<lambda>r. rule_Evaluate r (clk w') snap) (Enabled (eng_disabled eng) (eng_rules eng))"
  have rep: "rep_Findings rep = sortFindings (concat (sched ?xs))"
    using assms(2) snap by (auto simp: Scan_def Let_def)
  show ?thesis
  proof (rule that [OF snap])
    show "mset (rep_Findings rep) = mset (concat ?xs)"
      using assms(1) by (simp add: rep sortFindings_def fair_def mset_concat_perm)
    show "sorted (map finding_key (rep_Findings rep))" by (simp add: rep sortFindings_def)
  qed
qed

section \<open>Properties\<close>


text \<open>The order in which the rules finish changes a report only within a group of equal severity and category:
  two scans of the same state report the same findings, and the same sequence of severities and
  categories.\<close>

theorem scan_order_independence:
  assumes "fair sched" and "fair sched'"
    and "Scan api clk sched eng c ns w = (Inr rep, w1)" and "Scan api clk sched' eng c ns w = (Inr rep', w1')"
  shows "mset (rep_Findings rep) = mset (rep_Findings rep') \<and>
    map finding_key (rep_Findings rep) = map finding_key (rep_Findings rep') \<and> BySeverity rep = BySeverity rep'"
proof -
  obtain snap where 1: "Cluster_Snapshot api c ns w = (Inr snap, w1)"
    "mset (rep_Findings rep) = mset (concat (map (\<lambda>r. rule_Evaluate r (clk w1) snap) (Enabled (eng_disabled eng) (eng_rules eng))))"
    "sorted (map finding_key (rep_Findings rep))"
    using Scan_ok [OF assms(1,3)] by blast
  obtain snap' where 2: "Cluster_Snapshot api c ns w = (Inr snap', w1')"
    "mset (rep_Findings rep') = mset (concat (map (\<lambda>r. rule_Evaluate r (clk w1') snap') (Enabled (eng_disabled eng) (eng_rules eng))))"
    "sorted (map finding_key (rep_Findings rep'))"
    using Scan_ok [OF assms(2,4)] by blast
  have m: "mset (rep_Findings rep) = mset (rep_Findings rep')" using 1 2 by simp
  then have "mset (map finding_key (rep_Findings rep)) = mset (map finding_key (rep_Findings rep'))" by simp
  with 1(3) 2(3) have "map finding_key (rep_Findings rep) = map finding_key (rep_Findings rep')"
    by (metis properties_for_sort sorted_sort_id)
  moreover have "BySeverity rep = BySeverity rep'"
    using m by (simp add: BySeverity_def fun_eq_iff) (metis mset_filter size_mset)
  ultimately show ?thesis using m by blast
qed

section \<open>Witnesses\<close>

text \<open>A cluster with one deployment of three replicas whose only container sets nothing.\<close>

definition demo_deployment :: Deployment where
  "demo_deployment =
     \<lparr>dep_Namespace = ''prod'', dep_Name = ''api'', dep_SpecReplicas = Some 3,
      dep_Containers = [\<lparr>ctr_Name = ''app'', ctr_ReadinessProbe = False, ctr_LivenessProbe = True,
        ctr_SecurityContext = None, ctr_Requests = None, ctr_Limits = Some [''memory'']\<rparr>],
      dep_Volumes = [], dep_Replicas = 3, dep_ReadyReplicas = 3, dep_AvailableReplicas = 3,
      dep_UpdatedReplicas = 3, dep_Conditions = []\<rparr>"

definition demo_cluster :: Cluster where
  "demo_cluster = \<lparr>c_Name = ''kind'', c_Context = ''kind''\<rparr>"

text \<open>An API server whose world is the number of patches applied for real, per namespace.\<close>

definition demo_api :: "(string \<Rightarrow> nat) KubeApi" where
  "demo_api =
     \<lparr>k_ListPods = (\<lambda>c ns w. (Inr [], w)),
      k_ListDeployments = (\<lambda>c ns w. (Inr [demo_deployment], w)),
      k_ListNodes = (\<lambda>c w. (Inr [''n1''], w)),
      k_GetPod = (\<lambda>c ns n w. (Inl (ErrNew ''not found''), w)),
      k_GetDeployment = (\<lambda>c ns n w. (Inr demo_deployment, w)),
      k_ListEvents = (\<lambda>c ns sel w. (Inr [], w)),
      k_GetLogs = (\<lambda>c ns pod opts w. (Inr ''log'', w)),
      k_AccessReview = (\<lambda>c verb grp res ns w. (Inr True, w)),
      k_PatchDeployment = (\<lambda>c ns n ty p dry w. (None, if dry then w else w(ns := w ns + 1)))\<rparr>"

definition demo_engine :: Engine where
  "demo_engine = \<lparr>eng_rules = RegisterAll [], eng_disabled = []\<rparr>"

definition demo_snapshot :: Snapshot where
  "demo_snapshot = \<lparr>snap_Cluster = ''kind'', snap_Pods = [], snap_Deployments = [demo_deployment], snap_Nodes = [''n1'']\<rparr>"

lemma demo_snapshot: "Cluster_Snapshot demo_api demo_cluster ns w = (Inr demo_snapshot, w)"
  by (simp add: Cluster_Snapshot_def demo_api_def demo_snapshot_def demo_cluster_def)

lemma demo_scan: "\<exists>rep. Scan demo_api (\<lambda>_. 0) sched demo_engine demo_cluster ns w = (Inr rep, w)"
  by (simp add: Scan_def Let_def demo_snapshot)

lemma fair_rev: "fair rev" and fair_id: "fair (\<lambda>xs. xs)"
  by (simp_all add: fair_def)


theorem scan_order_independence_witness:
  "\<exists>rep rep'. Scan demo_api (\<lambda>_. 0) rev demo_engine demo_cluster [] (\<lambda>_. 0) = (Inr rep, \<lambda>_. 0) \<and>
     Scan demo_api (\<lambda>_. 0) (\<lambda>xs. xs) demo_engine demo_cluster [] (\<lambda>_. 0) = (Inr rep', \<lambda>_. 0) \<and>
     map finding_key (rep_Findings rep) = map finding_key (rep_Findings rep')"
proof -
  obtain rep rep' where
    "Scan demo_api (\<lambda>_. 0) rev demo_engine demo_cluster [] (\<lambda>_. 0) = (Inr rep, \<lambda>_. 0)"
    "Scan demo_api (\<lambda>_. 0) (\<lambda>xs. xs) demo_engine demo_cluster [] (\<lambda>_. 0) = (Inr rep', \<lambda>_. 0)"
    using demo_scan by blast
  with scan_order_independence [OF fair_rev fair_id this] show ?thesis by blast
qed

end
