(* ===== verification/MoreTools.thy ===== *)
theory MoreTools
  imports Kubectl AuditEngine
begin

text \<open>
  The three tools that do not talk to the API server directly: the audit scan
  (internal/tools/audit.go), the memory tool (remember.go) and the Prometheus query
  (prometheus.go). The HTTP client is a parameter.
\<close>

section \<open>audit_scan (audit.go)\<close>

text \<open>\<open>time.Duration.Round(1e6)\<close> of a non-negative duration, in milliseconds, and its \<open>String\<close>.\<close>

definition round_ms :: "int \<Rightarrow> nat" where
  "round_ms d = nat ((d + 500000) div 1000000)"

definition trim_zeros :: "string \<Rightarrow> string" where
  "trim_zeros s = rev (dropWhile (\<lambda>c. c = CHR ''0'') (rev s))"

definition pad3 :: "nat \<Rightarrow> string" where
  "pad3 n = replicate (3 - length (show_nat n)) (CHR ''0'') @ show_nat n"

definition show_seconds :: "nat \<Rightarrow> string" where
  "show_seconds ms =
     (let frac = trim_zeros (pad3 (ms mod 1000))
      in show_nat (ms div 1000) @ (if frac = [] then [] else ''.'' @ frac) @ ''s'')"

definition show_duration :: "nat \<Rightarrow> string" where
  "show_duration ms =
     (if ms = 0 then ''0s''
      else if ms < 1000 then show_nat ms @ ''ms''
      else if ms < 60000 then show_seconds ms
      else if ms < 3600000 then show_nat (ms div 60000) @ ''m'' @ show_seconds (ms mod 60000)
      else show_nat (ms div 3600000) @ ''h'' @ show_nat (ms mod 3600000 div 60000) @ ''m'' @ show_seconds (ms mod 60000))"

definition finding_lines :: "Finding \<Rightarrow> string" where
  "finding_lines f =
     ''['' @ fd_Severity f @ ''] '' @ fd_Category f @ '' '' @ rr_Namespace (fd_Resource f) @ ''/''
     @ rr_Name (fd_Resource f) @ '' '' @ em_dash @ '' '' @ fd_Title f @ newline
     @ ''      fix: '' @ rm_Summary (fd_Remediation f) @ newline"

definition AuditScan_Execute ::
  "'w KubeApi \<Rightarrow> ('w \<Rightarrow> ClusterRegistry) \<Rightarrow> ('w \<Rightarrow> int) \<Rightarrow> Finding list schedule \<Rightarrow> Engine \<Rightarrow>
   RawArgs \<Rightarrow> bool \<Rightarrow> 'w \<Rightarrow> (Result \<times> go_error option) \<times> 'w" where
  "AuditScan_Execute api cl clk sched eng args dryRun w =
     (let ns = str_field ''namespace'' [] (fst (struct_members args))
      in case Active (cl w) of
           Inl e \<Rightarrow> ((empty_Result, Some e), w)
         | Inr c \<Rightarrow>
             (case Scan api clk sched eng c ns w of
                (Inl e, w1) \<Rightarrow> ((empty_Result, Some e), w1)
              | (Inr rep, w1) \<Rightarrow>
                  (let n = BySeverity rep; total = show_nat (length (rep_Findings rep))
                   in ((ok_result
                          (''audit: '' @ total @ '' findings ('' @ show_nat (n P0 + n P1) @ '' P0/P1) in '' @ nsLabel ns)
                          (total @ '' findings in '' @ nsLabel ns @ '' '' @ em_dash @ '' P0='' @ show_nat (n P0)
                           @ '' P1='' @ show_nat (n P1) @ '' P2='' @ show_nat (n P2) @ '' P3='' @ show_nat (n P3)
                           @ '' (scanned in '' @ show_duration (round_ms (rep_Duration rep)) @ '')'' @ newline
                           @ concat (map finding_lines (rep_Findings rep))), None), w1))))"

definition AuditScan_tool ::
  "'w KubeApi \<Rightarrow> ('w \<Rightarrow> ClusterRegistry) \<Rightarrow> ('w \<Rightarrow> int) \<Rightarrow> Finding list schedule \<Rightarrow> Engine \<Rightarrow> 'w Tool" where
  "AuditScan_tool api cl clk sched eng =
     \<lparr>t_Name = ''audit_scan'',
      t_Description = ''Audit the active cluster for reliability, security, cost, and optimization issues. Returns findings ranked by severity (P0..P3) with impact, root cause, and recommended remediation. Use this to answer 'what's wrong / wasteful / insecure in my cluster?' before proposing fixes.'',
      t_Schema = object_schema [] [prop_desc ''namespace'' ''string'' ''Namespace to scan; empty scans all namespaces.''],
      t_Risk = Read, t_Execute = AuditScan_Execute api cl clk sched eng\<rparr>"

section \<open>remember (remember.go)\<close>

type_synonym 'w MemorySink = "string \<Rightarrow> string \<Rightarrow> 'w \<Rightarrow> go_error option \<times> 'w" \<comment> \<open>kind, text\<close>

definition remember_fields :: "(string \<times> field_type) list" where
  "remember_fields = [(''kind'', FStr), (''text'', FStr)]"

definition Remember_Execute ::
  "'w MemorySink option \<Rightarrow> RawArgs \<Rightarrow> bool \<Rightarrow> 'w \<Rightarrow> (Result \<times> go_error option) \<times> 'w" where
  "Remember_Execute sink args dryRun w =
     (case sink of
        None \<Rightarrow> ((empty_Result, Some (ErrNew ''memory is not configured'')), w)
      | Some save \<Rightarrow>
          (let kvs = fst (struct_members args); txt = str_field ''text'' [] kvs;
               kind0 = str_field ''kind'' [] kvs; kind = (if kind0 = [] then ''decision'' else kind0)
           in case unmarshal_err remember_fields args of
                Some e \<Rightarrow> ((empty_Result, Some e), w)
              | None \<Rightarrow>
                  if trim_space txt = [] then ((empty_Result, Some (ErrNew ''text is required'')), w)
                  else (case save kind txt w of
                          (Some e, w1) \<Rightarrow> ((empty_Result, Some e), w1)
                        | (None, w1) \<Rightarrow>
                            (let summary = ''remembered ('' @ kind @ ''): '' @ txt
                             in ((ok_result summary summary, None), w1)))))"

definition Remember_tool :: "'w MemorySink option \<Rightarrow> 'w Tool" where
  "Remember_tool sink =
     \<lparr>t_Name = ''remember'',
      t_Description = ''Persist a durable operational fact for future sessions: a recurring root cause, a cluster quirk, an approved remediation, or a user preference. Use sparingly for conclusions that stay true '' @ em_dash @ '' not transient cluster state (which is re-read live).'',
      t_Schema = object_schema [''text'']
        [(''kind'', JObj [(''type'', JStr ''string''),
           (''enum'', JArr (map JStr [''root_cause'', ''cluster_quirk'', ''decision'', ''preference'']))]),
         prop_desc ''text'' ''string'' ''the fact to remember, self-contained''],
      t_Risk = Read, t_Execute = Remember_Execute sink\<rparr>"

section \<open>prometheus_query (prometheus.go)\<close>

definition upper_hex :: "nat \<Rightarrow> char" where
  "upper_hex n = (if n < 10 then char_of (48 + n) else char_of (55 + n))"

definition unreserved :: "char \<Rightarrow> bool" where
  "unreserved c =
     (let n = (of_char c :: nat)
      in 48 \<le> n \<and> n \<le> 57 \<or> 65 \<le> n \<and> n \<le> 90 \<or> 97 \<le> n \<and> n \<le> 122
         \<or> c = CHR ''-'' \<or> c = CHR ''_'' \<or> c = CHR ''.'' \<or> c = CHR ''~'')"

definition escape_char :: "char \<Rightarrow> string" where
  "escape_char c =
     (if unreserved c then [c] else if c = CHR '' '' then ''+''
      else [CHR 0x25, upper_hex (of_char c div 16), upper_hex (of_char c mod 16)])"

text \<open>\<open>url.QueryEscape\<close> and \<open>strings.TrimRight(s, "/")\<close>.\<close>

definition QueryEscape :: "string \<Rightarrow> string" where
  "QueryEscape s = concat (map escape_char s)"

definition trim_right_slash :: "string \<Rightarrow> string" where
  "trim_right_slash s = rev (dropWhile (\<lambda>c. c = CHR ''/'') (rev s))"

definition prom_endpoint :: "string \<Rightarrow> string \<Rightarrow> string" where
  "prom_endpoint base query = trim_right_slash base @ ''/api/v1/query?query='' @ QueryEscape query"

text \<open>Building a request may fail (a malformed URL), sending it too; the answer is the body.\<close>

record 'w Http =
  h_Request :: "string \<Rightarrow> go_error option"
  h_Get :: "string \<Rightarrow> 'w \<Rightarrow> (go_error + string) \<times> 'w"

text \<open>
  The decoded answer: status, error and the series, each with its labels and value list.
  \<open>Decode\<close> reads one JSON value and ignores what follows it; of duplicate members the last counts.
\<close>

record Series =
  se_Metric :: "(string \<times> string) list"
  se_Value :: "json list"

record PromResponse =
  pr_Status :: string
  pr_Error :: string
  pr_Result :: "Series list"

fun field_value :: "string \<Rightarrow> json option \<Rightarrow> (string \<times> json) list \<Rightarrow> json option" where
  "field_value f cur [] = cur"
| "field_value f cur ((k, v) # kvs) = field_value f (if field_matches f k then Some v else cur) kvs"

definition metric_of_json :: "json option \<Rightarrow> (string \<times> string) list option" where
  "metric_of_json v =
     (case v of
        None \<Rightarrow> Some [] | Some JNull \<Rightarrow> Some []
      | Some (JObj kvs) \<Rightarrow>
          (if list_all (\<lambda>(k, v). field_accepts FStr v) kvs
           then Some (map (\<lambda>k. (k, as_string (obj_get kvs k))) (obj_keys kvs)) else None)
      | Some _ \<Rightarrow> None)"

definition array_of_json :: "json option \<Rightarrow> json list option" where
  "array_of_json v =
     (case v of None \<Rightarrow> Some [] | Some JNull \<Rightarrow> Some [] | Some (JArr vs) \<Rightarrow> Some vs | Some _ \<Rightarrow> None)"

definition values_of_json :: "json option \<Rightarrow> json list option" where
  "values_of_json v =
     (case array_of_json v of
        None \<Rightarrow> None | Some vs \<Rightarrow> if list_all numbers_ok vs then Some vs else None)"

definition series_of_json :: "json \<Rightarrow> Series option" where
  "series_of_json v =
     (case v of
        JNull \<Rightarrow> Some \<lparr>se_Metric = [], se_Value = []\<rparr>
      | JObj kvs \<Rightarrow>
          (case (metric_of_json (field_value ''metric'' None kvs), values_of_json (field_value ''value'' None kvs)) of
             (Some m, Some vs) \<Rightarrow> Some \<lparr>se_Metric = m, se_Value = vs\<rparr> | _ \<Rightarrow> None)
      | _ \<Rightarrow> None)"

definition data_of_json :: "json option \<Rightarrow> Series list option" where
  "data_of_json v =
     (case v of
        None \<Rightarrow> Some [] | Some JNull \<Rightarrow> Some []
      | Some (JObj kvs) \<Rightarrow>
          (if fields_error [(''resultType'', FStr)] kvs then None
           else (case array_of_json (field_value ''result'' None kvs) of
                   None \<Rightarrow> None | Some vs \<Rightarrow> those (map series_of_json vs)))
      | Some _ \<Rightarrow> None)"

definition decode_prom :: "string \<Rightarrow> PromResponse option" where
  "decode_prom body =
     (case pvalue (2 * length body + 2) body of
        Some (JNull, _) \<Rightarrow> Some \<lparr>pr_Status = [], pr_Error = [], pr_Result = []\<rparr>
      | Some (JObj kvs, _) \<Rightarrow>
          (if fields_error [(''status'', FStr), (''error'', FStr)] kvs then None
           else map_option (\<lambda>d. \<lparr>pr_Status = str_field ''status'' [] kvs, pr_Error = str_field ''error'' [] kvs,
                                 pr_Result = d\<rparr>)
                  (data_of_json (field_value ''data'' None kvs)))
      | _ \<Rightarrow> None)"

definition labelsString :: "(string \<times> string) list \<Rightarrow> string" where
  "labelsString m =
     (if m = [] then ''{}''
      else ''{'' @ join '','' (map (\<lambda>(k, v). k @ ''='' @ go_quote v) (sort_key fst m)) @ ''}'')"

text \<open>\<open>%v\<close> of the decoded value: Prometheus sends it as a string; the text of anything else is \<open>other\<close>.\<close>

definition series_line :: "(json \<Rightarrow> string) \<Rightarrow> Series \<Rightarrow> string" where
  "series_line other r =
     ''  '' @ labelsString (se_Metric r) @ '' = ''
     @ (case se_Value r of [_, JStr s] \<Rightarrow> s | [_, v] \<Rightarrow> other v | _ \<Rightarrow> []) @ newline"

definition prom_view :: "(json \<Rightarrow> string) \<Rightarrow> string \<Rightarrow> Series list \<Rightarrow> string" where
  "prom_view other query rs =
     ''query: '' @ query @ newline @ show_nat (length rs) @ '' series:'' @ newline
     @ concat (map (series_line other) (take 50 rs))
     @ (if 50 < length rs then ''  '' @ ellipsis @ ''('' @ show_nat (length rs - 50) @ '' more)'' @ newline else [])"

definition prom_fields :: "(string \<times> field_type) list" where
  "prom_fields = [(''query'', FStr)]"

definition PrometheusQuery_Execute ::
  "'w Http \<Rightarrow> (json \<Rightarrow> string) \<Rightarrow> string \<Rightarrow> RawArgs \<Rightarrow> bool \<Rightarrow> 'w \<Rightarrow> (Result \<times> go_error option) \<times> 'w" where
  "PrometheusQuery_Execute http other base args dryRun w =
     (if base = [] then ((empty_Result, Some (ErrNew ''prometheus_url not configured'')), w)
      else
        (let query = str_field ''query'' [] (fst (struct_members args)) in
         case unmarshal_err prom_fields args of
           Some e \<Rightarrow> ((empty_Result, Some e), w)
         | None \<Rightarrow>
             if trim_space query = [] then ((empty_Result, Some (ErrNew ''query is required'')), w)
             else
               (case h_Request http (prom_endpoint base query) of
                  Some e \<Rightarrow> ((empty_Result, Some e), w)
                | None \<Rightarrow>
                    (case h_Get http (prom_endpoint base query) w of
                       (Inl e, w1) \<Rightarrow> ((empty_Result, Some (errorf_prefix ''prometheus'' e)), w1)
                     | (Inr body, w1) \<Rightarrow>
                         (case decode_prom body of
                            None \<Rightarrow> ((empty_Result, Some (errorf_prefix ''decode prometheus response'' json_syntax_error)), w1)
                          | Some out \<Rightarrow>
                              if pr_Status out \<noteq> ''success''
                              then ((empty_Result, Some (ErrNew (''prometheus error: '' @ pr_Error out))), w1)
                              else ((ok_result (''prometheus: '' @ show_nat (length (pr_Result out)) @ '' series'')
                                       (prom_view other query (pr_Result out)), None), w1))))))"

definition PrometheusQuery_tool :: "'w Http \<Rightarrow> (json \<Rightarrow> string) \<Rightarrow> string \<Rightarrow> 'w Tool" where
  "PrometheusQuery_tool http other base =
     \<lparr>t_Name = ''prometheus_query'',
      t_Description = ''Run a PromQL instant query against the configured Prometheus and return the matching series. Use for metric-backed analysis: CPU/memory usage, error rates, request latency, and saturation.'',
      t_Schema = object_schema [''query'']
        [prop_desc ''query'' ''string''
           (''PromQL expression, e.g. sum(rate(http_requests_total{code=~'' @ go_quote ''5..'' @ ''}[5m])) by (service)'')],
      t_Risk = Read, t_Execute = PrometheusQuery_Execute http other base\<rparr>"

section \<open>The query cannot leave its place in the URL\<close>

text \<open>
  Whatever the model writes, the request goes to the configured base, to the query path, with one
  parameter: the escaped text has no character that ends the value, the query or the URL.
\<close>

definition url_special :: "char set" where
  "url_special = {CHR ''/'', CHR ''?'', CHR ''#'', CHR ''&'', CHR ''='', CHR '':'', CHR ''@'', CHR '';'', CHR '' '', CHR 0x0D, CHR 0x0A}"

lemma escape_char_plain: "c \<in> set (escape_char d) \<Longrightarrow> unreserved c \<or> c = CHR ''+'' \<or> c = CHR 0x25"
proof -
  have hex: "unreserved (upper_hex n)" if "n < 16" for n
    using that by (auto simp: unreserved_def upper_hex_def Let_def)
  have "(of_char d :: nat) div 16 < 16"
    using of_char_less_256 [of d] by (simp add: div_less_iff_less_mult)
  then show "c \<in> set (escape_char d) \<Longrightarrow> ?thesis"
    using hex by (auto simp: escape_char_def split: if_splits)
qed

lemma QueryEscape_plain: "set (QueryEscape s) \<inter> url_special = {}"
proof -
  have "\<not> unreserved c \<and> c \<noteq> CHR ''+'' \<and> c \<noteq> CHR 0x25" if "c \<in> url_special" for c
    using that by (auto simp: url_special_def unreserved_def)
  then show ?thesis using escape_char_plain by (fastforce simp: QueryEscape_def)
qed

section \<open>The audit scan reads only\<close>

lemma Cluster_Snapshot_view:
  "kube_laws api view \<Longrightarrow> Cluster_Snapshot api c ns w = (r, w') \<Longrightarrow> view w' = view w"
  by (auto simp: Cluster_Snapshot_def split: prod.splits sum.splits)
    (metis kube_lawsD(1) kube_lawsD(9) kube_lawsD(10))+

lemma Scan_view:
  assumes "kube_laws api view" and "Scan api clk sched eng c ns w = (r, w')"
  shows "view w' = view w"
  using assms(2) Cluster_Snapshot_view [OF assms(1)]
  by (auto simp: Scan_def Let_def split: prod.splits sum.splits)

interpretation audit_scan: kube_reader "\<lambda>api. AuditScan_Execute api cl clk sched eng" view for cl clk sched eng view
proof
  fix api :: "'a KubeApi" and args dry w
  assume laws: "kube_laws api view"
  show "view (snd (AuditScan_Execute api cl clk sched eng args dry w)) = view w"
    using Scan_view [OF laws] by (auto simp: AuditScan_Execute_def Let_def split: sum.split prod.split)
qed

end
