(* ===== verification/Wiring.thy ===== *)
theory Wiring
  imports SecPolicy MoreTools
begin

text \<open>
  How the composition root (cmd/voujr/main.go, \<open>run\<close>) wires the dispatch chain: the registry with
  the default policy and every tool the program registers, in its order; and what follows for the
  clusters from any one dispatch on it.
\<close>

section \<open>The registry of the program\<close>

text \<open>\<open>None\<close> is the panic on a duplicate name.\<close>

fun register_all :: "'w Tool list \<Rightarrow> 'w Registry \<Rightarrow> 'w Registry option" where
  "register_all [] reg = Some reg"
| "register_all (t # ts) reg = Option.bind (Register reg t) (register_all ts)"

text \<open>What the tools are made of: the API server, the cluster registry in the world, the clocks, the
  order in which audit rules finish, the audit configuration, the memory and Prometheus.\<close>

record 'w Deps =
  dp_api :: "'w KubeApi"
  dp_clusters :: "'w \<Rightarrow> ClusterRegistry"
  dp_clock :: "'w \<Rightarrow> int"
  dp_timestamp :: "'w \<Rightarrow> string"
  dp_sched :: "Finding list schedule"
  dp_disabled :: "string list"
  dp_memory :: "'w MemorySink"
  dp_http :: "'w Http"
  dp_show :: "json \<Rightarrow> string"
  dp_prometheus :: string

definition newAuditEngine :: "string list \<Rightarrow> Engine" where
  "newAuditEngine disabled = \<lparr>eng_rules = RegisterAll [], eng_disabled = disabled\<rparr>"

definition main_tools :: "'w Deps \<Rightarrow> 'w Tool list" where
  "main_tools d =
     [KubectlGet_tool (dp_api d) (dp_clusters d), KubectlDescribe_tool (dp_api d) (dp_clusters d),
      KubectlLogs_tool (dp_api d) (dp_clusters d), KubectlEvents_tool (dp_api d) (dp_clusters d),
      AuditScan_tool (dp_api d) (dp_clusters d) (dp_clock d) (dp_sched d) (newAuditEngine (dp_disabled d)),
      Remember_tool (Some (dp_memory d)),
      KubectlScale_tool (dp_api d) (dp_clusters d),
      KubectlRolloutRestart_tool (dp_api d) (dp_clusters d) (dp_timestamp d)]
     @ (if dp_prometheus d \<noteq> []
        then [PrometheusQuery_tool (dp_http d) (dp_show d) (dp_prometheus d)] else [])"

definition main_registry ::
  "'w Deps \<Rightarrow> 'w Approver \<Rightarrow> 'w AuditSink \<Rightarrow> (string \<Rightarrow> string) \<Rightarrow> 'w Observer \<Rightarrow> 'w Registry option" where
  "main_registry d ui sink scrub ob =
     register_all (main_tools d)
       ((NewRegistry (Some (Policy_Check DefaultPolicy)) (Some ui) (Some sink) (Some scrub))\<lparr>observer := Some ob\<rparr>)"

lemma register_all_distinct_names:
  "distinct (map t_Name ts) \<Longrightarrow> set (map t_Name ts) \<inter> set (map fst (tools reg)) = {} \<Longrightarrow>
     register_all ts reg = Some (reg\<lparr>tools := tools reg @ map (\<lambda>t. (t_Name t, t)) ts\<rparr>)"
proof (induction ts arbitrary: reg)
  case (Cons t ts)
  have "map_of (tools reg) (t_Name t) = None" using Cons.prems by (auto simp: map_of_eq_None_iff)
  then have "Register reg t = Some (reg\<lparr>tools := tools reg @ [(t_Name t, t)]\<rparr>)" by (simp add: Register_def)
  moreover have "set (map t_Name ts) \<inter> set (map fst (tools (reg\<lparr>tools := tools reg @ [(t_Name t, t)]\<rparr>))) = {}"
    using Cons.prems by auto
  ultimately show ?case using Cons.IH [of "reg\<lparr>tools := tools reg @ [(t_Name t, t)]\<rparr>"] Cons.prems(1) by simp
qed simp

lemmas tool_defs = KubectlGet_tool_def KubectlDescribe_tool_def KubectlLogs_tool_def KubectlEvents_tool_def
  AuditScan_tool_def Remember_tool_def KubectlScale_tool_def KubectlRolloutRestart_tool_def
  PrometheusQuery_tool_def

lemma tool_sel [simp]:
  "t_Name (KubectlGet_tool api cl) = ''kubectl_get_pods''" "t_Risk (KubectlGet_tool api cl) = Read"
  "t_Execute (KubectlGet_tool api cl) = KubectlGet_Execute api cl"
  "t_Name (KubectlDescribe_tool api cl) = ''kubectl_describe''" "t_Risk (KubectlDescribe_tool api cl) = Read"
  "t_Execute (KubectlDescribe_tool api cl) = KubectlDescribe_Execute api cl"
  "t_Name (KubectlLogs_tool api cl) = ''kubectl_logs''" "t_Risk (KubectlLogs_tool api cl) = Read"
  "t_Execute (KubectlLogs_tool api cl) = KubectlLogs_Execute api cl"
  "t_Name (KubectlEvents_tool api cl) = ''kubectl_events''" "t_Risk (KubectlEvents_tool api cl) = Read"
  "t_Execute (KubectlEvents_tool api cl) = KubectlEvents_Execute api cl"
  "t_Name (AuditScan_tool api cl clk sched eng) = ''audit_scan''" "t_Risk (AuditScan_tool api cl clk sched eng) = Read"
  "t_Execute (AuditScan_tool api cl clk sched eng) = AuditScan_Execute api cl clk sched eng"
  "t_Name (Remember_tool sink) = ''remember''" "t_Risk (Remember_tool sink) = Read"
  "t_Execute (Remember_tool sink) = Remember_Execute sink"
  "t_Name (KubectlScale_tool api cl) = ''kubectl_scale_deployment''" "t_Risk (KubectlScale_tool api cl) = Mutate"
  "t_Execute (KubectlScale_tool api cl) = KubectlScale_Execute api cl"
  "t_Name (KubectlRolloutRestart_tool api cl now) = ''kubectl_rollout_restart''" "t_Risk (KubectlRolloutRestart_tool api cl now) = Mutate"
  "t_Execute (KubectlRolloutRestart_tool api cl now) = KubectlRolloutRestart_Execute api cl now"
  "t_Name (PrometheusQuery_tool http other base) = ''prometheus_query''" "t_Risk (PrometheusQuery_tool http other base) = Read"
  "t_Execute (PrometheusQuery_tool http other base) = PrometheusQuery_Execute http other base"
  by (simp_all only: tool_defs Tool.simps)

definition wired_registry ::
  "'w Deps \<Rightarrow> 'w Approver \<Rightarrow> 'w AuditSink \<Rightarrow> (string \<Rightarrow> string) \<Rightarrow> 'w Observer \<Rightarrow> 'w Registry" where
  "wired_registry d ui sink scrub ob =
     \<lparr>tools = map (\<lambda>t. (t_Name t, t)) (main_tools d), policy = Some (Policy_Check DefaultPolicy),
      approver = Some ui, audit = Some sink, redactor = Some scrub, observer = Some ob\<rparr>"

lemma main_tool_names: "distinct (map t_Name (main_tools d))"
  by (simp add: main_tools_def)

text \<open>The registration does not panic.\<close>

lemma main_registry_ok: "main_registry d ui sink scrub ob = Some (wired_registry d ui sink scrub ob)"
proof -
  let ?reg = "(NewRegistry (Some (Policy_Check DefaultPolicy)) (Some ui) (Some sink) (Some scrub))\<lparr>observer := Some ob\<rparr>"
  have "set (map t_Name (main_tools d)) \<inter> set (map fst (tools ?reg)) = {}" by (simp add: NewRegistry_def)
  from register_all_distinct_names [OF main_tool_names this] show ?thesis
    by (simp add: main_registry_def wired_registry_def) (simp add: NewRegistry_def)
qed

lemma wired_wf: "wf_registry (wired_registry d ui sink scrub ob)"
  using main_tool_names by (auto simp: wf_registry_def wired_registry_def comp_def)

section \<open>An invariant of the world through a dispatch\<close>

text \<open>The collaborators other than the tools keep a predicate on the world.\<close>

definition collaborators_keep :: "'w Registry \<Rightarrow> ('w \<Rightarrow> bool) \<Rightarrow> bool" where
  "collaborators_keep reg P \<longleftrightarrow>
     (\<forall>check t a w. policy reg = Some check \<longrightarrow> P w \<longrightarrow> P (snd (check t a w))) \<and>
     (\<forall>ap req w. approver reg = Some ap \<longrightarrow> P w \<longrightarrow> P (snd (ap req w))) \<and>
     (\<forall>sink e w. audit reg = Some sink \<longrightarrow> P w \<longrightarrow> P (snd (sink e w))) \<and>
     (\<forall>ob n status d w. observer reg = Some ob \<longrightarrow> P w \<longrightarrow> P (ToolExecuted ob n status d w)) \<and>
     (\<forall>ob ok w. observer reg = Some ob \<longrightarrow> P w \<longrightarrow> P (ApprovalDecided ob ok w))"

lemma collaborators_keepD:
  assumes "collaborators_keep reg P" and "P w"
  shows "policy reg = Some check \<Longrightarrow> check t a w = (r1, w') \<Longrightarrow> P w'"
    and "approver reg = Some ap \<Longrightarrow> ap req w = (r2, w') \<Longrightarrow> P w'"
    and "audit reg = Some sink \<Longrightarrow> P (snd (sink e w))"
    and "observer reg = Some ob \<Longrightarrow> P (ToolExecuted ob n status d w)"
    and "observer reg = Some ob \<Longrightarrow> P (ApprovalDecided ob ok w)"
  using assms unfolding collaborators_keep_def by (metis snd_conv)+

lemma keep_reg_record:
  "collaborators_keep reg P \<Longrightarrow> P (world s) \<Longrightarrow> P (world (reg_record clk reg t sp a diff who dry status sm d s))"
  by (auto simp: reg_record_def Let_def intro: collaborators_keepD(3) split: option.split)

lemma keep_emit:
  assumes "collaborators_keep reg P" "P (world s)"
  shows "P (world (emitTool reg n status d s))" "P (world (emitApproval reg ok s))"
  using collaborators_keepD(4,5) [OF assms] assms(2)
  by (auto simp: emitTool_def emitApproval_def split: option.split)

lemma keep_policy_step:
  assumes "collaborators_keep reg P" "P (world s)"
  shows "P (world (snd (policy_step clk reg t sp name args start s)))"
proof (cases "policy reg")
  case (Some check)
  obtain pd err w where k: "check t args (world s) = ((pd, err), w)" by (metis prod.exhaust)
  have w: "P w" by (rule collaborators_keepD(1) [OF assms Some k])
  let ?s1 = "step_world w (EvPolicy name pd) s"
  have denied: "P (world (emitTool reg name ''denied'' d (reg_record clk reg t sp args [] [] False ''denied'' sm d' ?s1)))" for d d' sm
    using w by (intro keep_emit [of reg P] keep_reg_record [of reg P] assms(1)) simp
  show ?thesis
    by (cases err; cases "pd_Allow pd") (simp_all add: policy_step_def Let_def Some k w denied)
qed (use assms in \<open>simp add: policy_step_def\<close>)

lemma keep_approval_step:
  assumes "collaborators_keep reg P" "P (world s)"
  shows "P (world (snd (approval_step clk reg t sp name args pd diff start s)))"
proof (cases "need_approval t sp pd \<and> approver reg \<noteq> None")
  case False
  with assms(2) show ?thesis by (cases "need_approval t sp pd") (simp_all add: approval_step_def)
next
  case True
  then obtain ap where ap: "approver reg = Some ap" "need_approval t sp pd" by blast
  let ?req = "\<lparr>req_Tool = name, req_Cluster = sp_Cluster sp, req_Args = args, req_Diff = diff,
    req_Risk = t_Risk t, req_BlastRadius = pd_BlastRadius pd\<rparr>"
  obtain ok who err w where k: "ap ?req (world s) = ((ok, who, err), w)" by (metis prod.exhaust)
  have w: "P w" by (rule collaborators_keepD(2) [OF assms ap(1) k])
  have s2: "P (world (emitApproval reg ok (step_world w (EvApprove ?req b who) s)))" for b
    using w by (intro keep_emit [of reg P] assms(1)) simp
  have rejected: "P (world (emitTool reg name ''rejected'' d
      (reg_record clk reg t sp args diff who False ''rejected'' sm d' (emitApproval reg ok (step_world w (EvApprove ?req b who) s)))))"
    for d d' sm b
    by (intro keep_emit [of reg P] keep_reg_record [of reg P] assms(1) s2)
  show ?thesis
    by (cases err; cases ok) (use s2 rejected in \<open>simp_all add: approval_step_def Let_def ap k w\<close>)
qed

lemma keep_dry_run_step:
  assumes "Mutating t \<Longrightarrow> P (snd (t_Execute t args True (world s)))" "P (world s)"
  shows "P (world (snd (dry_run_step t sp args s)))"
proof (cases "Mutating t \<and> sp_DryRunFirst sp")
  case True
  obtain dr e w where k: "t_Execute t args True (world s) = ((dr, e), w)" by (metis prod.exhaust)
  with assms(1) True have "P w" by simp
  with k True show ?thesis by (cases e) (simp_all add: dry_run_step_def run_tool_def)
qed (use assms(2) in \<open>auto simp: dry_run_step_def\<close>)

lemma keep_execute_step:
  assumes "collaborators_keep reg P" "P (snd (t_Execute t args False (world s)))"
  shows "P (world (snd (execute_step clk reg t sp name args diff who start s)))"
proof -
  obtain res err w where x: "t_Execute t args False (world s) = ((res, err), w)" by (metis prod.exhaust)
  let ?s1 = "step_world w (EvExecute (t_Name t) args False) s"
  have "P w" using assms(2) x by simp
  then have "P (world (emitTool reg name st d (reg_record clk reg t sp args diff who False st sm d' ?s1)))" for st d d' sm
    by (intro keep_emit [of reg P] keep_reg_record [of reg P] assms(1)) simp
  then show ?thesis by (simp add: execute_step_def run_tool_def Let_def x)
qed

text \<open>
  How a dispatch that executes for real got there: the checks it passed, the decision of the policy,
  and the calls \<open>evs\<close> it made.
\<close>

definition reached ::
  "'w Registry \<Rightarrow> SessionPolicy \<Rightarrow> string \<Rightarrow> RawArgs \<Rightarrow> 'w Tool \<Rightarrow> event list \<Rightarrow> bool" where
  "reached reg sp name args t evs \<longleftrightarrow>
     (\<exists>pd diff who ent status summary w. admitted reg sp name args t \<and>
        (\<forall>check. policy reg = Some check \<longrightarrow> pd_Allow pd \<and> pd = fst (fst (check t args w))) \<and>
        entry_of t sp args diff who status summary ent \<and>
        evs = evs_before reg sp t name args pd diff who @ evs_execute reg t name args ent status)"

lemma policy_step_decision:
  "policy_step clk reg t sp name args start s = (Inr pd, s') \<Longrightarrow> policy reg = Some check \<Longrightarrow>
     pd_Allow pd \<and> pd = fst (fst (check t args (world s)))"
  by (auto simp: policy_step_def Let_def split: prod.splits option.splits if_splits)

lemma executed_reached:
  assumes adm: "admitted reg sp name args t"
    and p: "policy_step clk reg t sp name args start s = (Inr pd, s1)"
    and d: "dry_run_step t sp args s1 = (Inr diff, s2)"
    and a: "approval_step clk reg t sp name args pd diff start s2 = (Inr who, s3)"
    and x: "execute_step clk reg t sp name args diff who start s3 = ((res, err), s')"
    and tr: "trace s' = trace s @ evs"
  shows "reached reg sp name args t evs"
proof -
  have "trace s3 = trace s @ evs_before reg sp t name args pd diff who"
    using policy_step_Inr [OF p] dry_run_step_trace [OF d] approval_step_Inr [OF a]
    by (auto simp: evs_before_def approval_request_def split: if_splits)
  moreover obtain ent status summary where "trace s' = trace s3 @ evs_execute reg t name args ent status"
    and ent: "entry_of t sp args diff who status summary ent"
    using execute_step_trace [OF x] by (auto simp: evs_execute_def)
  ultimately have "evs = evs_before reg sp t name args pd diff who @ evs_execute reg t name args ent status"
    using tr by simp
  with adm ent policy_step_decision [OF p] show ?thesis unfolding reached_def by blast
qed

text \<open>
  A predicate on the world survives a dispatch if the collaborators keep it, the dry run of the tool
  keeps it, and a real execution, if the calls made led to one, keeps it.
\<close>

lemma Dispatch_keeps:
  assumes coll: "collaborators_keep reg P" and start: "P (world s)"
    and dry: "\<And>t w. admitted reg sp name args t \<Longrightarrow> Mutating t \<Longrightarrow> P w \<Longrightarrow> P (snd (t_Execute t args True w))"
    and real: "\<And>t w. reached reg sp name args t evs \<Longrightarrow> P w \<Longrightarrow> P (snd (t_Execute t args False w))"
    and D: "Dispatch clk reg sp name args s = (r, s')" and tr: "trace s' = trace s @ evs"
  shows "P (world s')"
proof -
  obtain res err where r: "r = (res, err)" by fastforce
  note policy_k = keep_policy_step [OF coll start]
    and approval_k = keep_approval_step [OF coll] and execute_k = keep_execute_step [OF coll]
  have dry_k: "P (world (snd (dry_run_step t sp args s1)))" if "admitted reg sp name args t" "P (world s1)" for t s1
    by (rule keep_dry_run_step [of t P args s1, OF dry [OF that(1) _ that(2)] that(2)])
  have policy_w: "P (world s1)" if "policy_step clk reg t sp name args (clk (world s)) s = (p, s1)" for t p s1
    using policy_k [of clk t sp name args "clk (world s)"] that by simp
  have dry_w: "P (world s2)" if "dry_run_step t sp args s1 = (d, s2)" "admitted reg sp name args t" "P (world s1)" for t d s1 s2
    using dry_k [OF that(2,3)] that(1) by simp
  have approval_w: "P (world s3)"
    if "approval_step clk reg t sp name args pd diff (clk (world s)) s2 = (a, s3)" "P (world s2)" for t pd diff s2 a s3
    using approval_k [OF that(2), of clk t sp name args pd diff "clk (world s)"] that(1) by simp
  from D [unfolded r] show ?thesis
  proof (cases rule: Dispatch_cases)
    case (refused e)
    show ?thesis unfolding refused(3) by (rule start)
  next
    case (policy t e)
    show ?thesis by (rule policy_w [OF policy(4)])
  next
    case (dry t pd s1 e)
    show ?thesis by (rule dry_w [OF dry(5,1) policy_w [OF dry(4)]])
  next
    case (approval t pd s1 diff s2 e)
    show ?thesis by (rule approval_w [OF approval(6) dry_w [OF approval(5,1) policy_w [OF approval(4)]]])
  next
    case (executed t pd s1 diff s2 who s3)
    have s3: "P (world s3)" by (rule approval_w [OF executed(4) dry_w [OF executed(3,1) policy_w [OF executed(2)]]])
    have "P (snd (t_Execute t args False (world s3)))"
      by (rule real [OF executed_reached [OF executed tr] s3])
    from execute_k [OF this, of clk sp name diff who "clk (world s)"] executed(5) show ?thesis by simp
  qed
qed

end
