(* ===== verification/Composition.thy ===== *)
theory Composition
  imports Wiring
begin

text \<open>
  What the wired program does to the clusters: the contracts of the tools (\<open>kube_tool\<close>,
  \<open>kube_reader\<close>), the policy and the dispatch chain put together. The state of the clusters is seen
  through a \<open>view\<close> that gives, for a cluster name and a namespace, whatever is in it.
\<close>

section \<open>The tools of the program over a view\<close>

text \<open>
  What the program relies on from outside: the API server's laws, and that saving a memory and asking
  Prometheus leave the clusters alone.
\<close>

definition deps_laws :: "'w Deps \<Rightarrow> ('w \<Rightarrow> string \<Rightarrow> string \<Rightarrow> 'v) \<Rightarrow> bool" where
  "deps_laws d view \<longleftrightarrow> kube_laws (dp_api d) view \<and>
     (\<forall>kind txt w. view (snd (dp_memory d kind txt w)) = view w) \<and>
     (\<forall>url w. view (snd (h_Get (dp_http d) url w)) = view w)"

lemma deps_lawsD:
  assumes "deps_laws d view"
  shows "kube_laws (dp_api d) view" "dp_memory d kind txt w = (r1, w') \<Longrightarrow> view w' = view w"
    "h_Get (dp_http d) url w = (r2, w') \<Longrightarrow> view w' = view w"
  using assms unfolding deps_laws_def by (metis snd_conv)+

lemma remember_view:
  "deps_laws d view \<Longrightarrow> view (snd (Remember_Execute (Some (dp_memory d)) args dry w)) = view w"
  using deps_lawsD(2) [of d view]
  by (auto simp: Remember_Execute_def Let_def split: option.splits prod.splits)

lemma prometheus_view:
  "deps_laws d view \<Longrightarrow> view (snd (PrometheusQuery_Execute (dp_http d) other base args dry w)) = view w"
  using deps_lawsD(3) [of d view]
  by (auto simp: PrometheusQuery_Execute_def Let_def split: option.splits prod.splits sum.splits)

lemma main_tools_cases:
  assumes "t \<in> set (main_tools d)" and laws: "deps_laws d view"
  shows "view (snd (t_Execute t args True w)) = view w"
    and "ns \<noteq> args_namespace args \<Longrightarrow> view (snd (t_Execute t args dry w)) c ns = view w c ns"
    and "\<not> Mutating t \<Longrightarrow> view (snd (t_Execute t args dry w)) = view w"
proof -
  note k = deps_lawsD(1) [OF laws]
  note readers = get_pods.reads [OF k] logs.reads [OF k] events.reads [OF k] describe.reads [OF k]
    audit_scan.reads [OF k] remember_view [OF laws] prometheus_view [OF laws]
  show "view (snd (t_Execute t args True w)) = view w"
    using assms(1) readers scale.dry_run [OF k] rollout.dry_run [OF k]
    by (auto simp: main_tools_def split: if_splits)
  show "view (snd (t_Execute t args dry w)) c ns = view w c ns" if "ns \<noteq> args_namespace args"
    using assms(1) readers scale.scope [OF k that [unfolded args_namespace_def]]
      rollout.scope [OF k that [unfolded args_namespace_def]]
    by (auto simp: main_tools_def split: if_splits)
  show "view (snd (t_Execute t args dry w)) = view w" if "\<not> Mutating t"
    using assms(1) that readers by (auto simp: main_tools_def Mutating_def split: if_splits)
qed

lemma wired_lookup:
  "main_registry d ui sink scrub ob = Some reg \<Longrightarrow> map_of (tools reg) name = Some t \<Longrightarrow>
     t \<in> set (main_tools d) \<and> policy reg = Some (Policy_Check DefaultPolicy)"
  by (auto simp: main_registry_ok wired_registry_def dest: map_of_SomeD)

section \<open>One dispatch\<close>

text \<open>The collaborators of the wired registry leave the clusters alone.\<close>

definition collaborators_look :: "'w Registry \<Rightarrow> ('w \<Rightarrow> 'v) \<Rightarrow> bool" where
  "collaborators_look reg view \<longleftrightarrow> (\<forall>v. collaborators_keep reg (\<lambda>w. view w = v))"

lemma wired_dispatch_writes:
  assumes main: "main_registry d ui sink scrub ob = Some reg" and laws: "deps_laws d view"
    and coll: "collaborators_look reg (\<lambda>w. view w c ns)"
    and D: "Dispatch clk reg sp name args s = (r, s')" and tr: "trace s' = trace s @ evs"
    and changed: "view (world s') c ns \<noteq> view (world s) c ns"
  shows "\<exists>t. reached reg sp name args t evs \<and> Mutating t \<and> ns = args_namespace args"
proof (rule ccontr)
  assume no: "\<not> ?thesis"
  note keep = Dispatch_keeps [of reg "\<lambda>w. view w c ns = view (world s) c ns", OF _ _ _ _ D tr]
  have "view (world s') c ns = view (world s) c ns"
  proof (rule keep)
    show "collaborators_keep reg (\<lambda>w. view w c ns = view (world s) c ns)"
      using coll by (simp add: collaborators_look_def)
    show "view (snd (t_Execute t args True w)) c ns = view (world s) c ns"
      if "admitted reg sp name args t" "view w c ns = view (world s) c ns" for t w
    proof -
      have "t \<in> set (main_tools d)" using that(1) wired_lookup [OF main] unfolding admitted_def by blast
      from main_tools_cases(1) [OF this laws] that(2) show ?thesis by metis
    qed
    show "view (snd (t_Execute t args False w)) c ns = view (world s) c ns"
      if re: "reached reg sp name args t evs" and v: "view w c ns = view (world s) c ns" for t w
    proof -
      have "t \<in> set (main_tools d)" using re wired_lookup [OF main] by (auto simp: reached_def admitted_def)
      from main_tools_cases(2,3) [OF this laws] no re v show ?thesis by metis
    qed
  qed simp
  with changed show False by simp
qed

text \<open>The events of a dispatch are appended to the trace.\<close>

lemma Dispatch_appends: "Dispatch clk reg sp name args s = (r, s') \<Longrightarrow> \<exists>evs. trace s' = trace s @ evs"
  by (cases r) (auto elim: Dispatch_trace)

definition protected_namespaces :: "string set" where
  "protected_namespaces = {''kube-system'', ''kube-node-lease''}"

lemma wired_policy_decision:
  assumes "pd_Allow pd" and "pd = fst (fst (Policy_Check DefaultPolicy t args w))" and "Mutating t"
  shows "args_namespace args \<notin> protected_namespaces"
    and "args_namespace args = [] \<longrightarrow> pd_RequireApproval pd"
  using assms Policy_Check_allow_iff [of DefaultPolicy t args w] Policy_Check_approval_iff [of DefaultPolicy t args w]
  by (auto simp: DefaultPolicy_def protected_namespaces_def)

section \<open>A fleet to try it on\<close>

text \<open>The world counts the patches applied for real, per cluster and namespace.\<close>

definition demo_fleet_api :: "(string \<Rightarrow> string \<Rightarrow> nat) KubeApi" where
  "demo_fleet_api =
     \<lparr>k_ListPods = (\<lambda>c ns w. (Inr [], w)), k_ListDeployments = (\<lambda>c ns w. (Inr [demo_deployment], w)),
      k_ListNodes = (\<lambda>c w. (Inr [''n1''], w)), k_GetPod = (\<lambda>c ns n w. (Inl (ErrNew ''not found''), w)),
      k_GetDeployment = (\<lambda>c ns n w. (Inr demo_deployment, w)), k_ListEvents = (\<lambda>c ns sel w. (Inr [], w)),
      k_GetLogs = (\<lambda>c ns pod opts w. (Inr ''log'', w)),
      k_AccessReview = (\<lambda>c verb grp res ns w. (Inr True, w)),
      k_PatchDeployment = (\<lambda>c ns n ty p dry w.
        (None, if dry then w else w(c_Name c := (w (c_Name c))(ns := w (c_Name c) ns + 1))))\<rparr>"

definition demo_deps :: "(string \<Rightarrow> string \<Rightarrow> nat) Deps" where
  "demo_deps =
     \<lparr>dp_api = demo_fleet_api, dp_clusters = (\<lambda>_. demo_clusters), dp_clock = (\<lambda>_. 0), dp_timestamp = (\<lambda>_. ''now''),
      dp_sched = (\<lambda>fs. fs), dp_disabled = [], dp_memory = (\<lambda>kind txt w. (None, w)),
      dp_http = \<lparr>h_Request = (\<lambda>_. None), h_Get = (\<lambda>url w. (Inr [], w))\<rparr>, dp_show = (\<lambda>_. []),
      dp_prometheus = []\<rparr>"

definition demo_wired :: "(string \<Rightarrow> string \<Rightarrow> nat) Registry" where
  "demo_wired = wired_registry demo_deps (\<lambda>req w. ((True, ''alice'', None), w)) (\<lambda>e w. (None, w)) (\<lambda>s. s)
     \<lparr>ToolExecuted = (\<lambda>n st d w. w), ApprovalDecided = (\<lambda>ok w. w)\<rparr>"

definition demo_scale_args :: "string \<Rightarrow> RawArgs" where
  "demo_scale_args ns =
     ''{'' @ json_quote ''namespace'' @ '':'' @ json_quote ns @ '','' @ json_quote ''name'' @ '':'' @ json_quote ''api''
     @ '','' @ json_quote ''replicas'' @ '':5}''"

definition demo_world :: "(string \<Rightarrow> string \<Rightarrow> nat) st" where
  "demo_world = \<lparr>world = (\<lambda>_ _. 0), trace = []\<rparr>"

lemma demo_deps_laws: "deps_laws demo_deps (\<lambda>w. w)"
  by (auto simp: deps_laws_def kube_laws_def demo_deps_def demo_fleet_api_def fun_eq_iff)

lemma demo_wired_main: "\<exists>ui sink scrub ob. main_registry demo_deps ui sink scrub ob = Some demo_wired"
  unfolding demo_wired_def using main_registry_ok by blast

lemma demo_wired_look: "collaborators_look demo_wired (\<lambda>w. w c ns)"
  by (simp add: collaborators_look_def collaborators_keep_def demo_wired_def wired_registry_def)

definition demo_scale_run :: "string \<Rightarrow> string \<Rightarrow> (Result \<times> go_error option) \<times> (string \<Rightarrow> string \<Rightarrow> nat) st" where
  "demo_scale_run mode ns =
     Dispatch (\<lambda>_. 0) demo_wired (demo_session mode) ''kubectl_scale_deployment'' (demo_scale_args ns) demo_world"

section \<open>Properties\<close>


text \<open>C3: A tool call changes a namespace of a cluster only as an authorised, recorded mutation of that namespace:
  the session is not read-only, the tool is a mutating one whose arguments name the namespace, it was
  previewed by a dry run (when the session asks for one), the approver said yes to exactly this call,
  with the previewed diff, unless the session is in apply mode and the call names a namespace, and
  the audit sink got the entry of the call with who approved it, right after the execution.\<close>

theorem cluster_changes_are_authorised:
  assumes "main_registry d ui sink scrub ob = Some reg" and "deps_laws d view"
    and "collaborators_look reg (\<lambda>w. view w c ns)"
    and "Dispatch clk reg sp name args s = (r, s')" and "trace s' = trace s @ evs"
    and "view (world s') c ns \<noteq> view (world s) c ns"
  shows "\<exists>t pd diff who ent pre post status summary. sp_Mode sp \<noteq> ''read-only'' \<and> map_of (tools reg) name = Some t \<and>
    Mutating t \<and> ns = args_namespace args \<and> evs = pre @ [EvExecute name args False, EvRecord ent] @ post \<and>
    entry_of t sp args diff who status summary ent \<and>
    (sp_DryRunFirst sp \<longrightarrow> EvExecute name args True \<in> set pre) \<and>
    (sp_Mode sp \<noteq> ''apply'' \<or> ns = [] \<longrightarrow>
       EvApprove (approval_request t sp name args pd diff) True who \<in> set pre)"
proof -
  from wired_dispatch_writes [OF assms]
  obtain t where t: "reached reg sp name args t evs" "Mutating t" "ns = args_namespace args" by blast
  from assms(1) have reg: "reg = wired_registry d ui sink scrub ob" by (simp add: main_registry_ok)
  then have look: "policy reg = Some (Policy_Check DefaultPolicy)" "audit reg = Some sink"
    by (simp_all add: wired_registry_def)
  from t(1) look obtain pd diff who ent status summary w where r: "admitted reg sp name args t" "pd_Allow pd"
    "pd = fst (fst (Policy_Check DefaultPolicy t args w))" "entry_of t sp args diff who status summary ent"
    "evs = evs_before reg sp t name args pd diff who @ evs_execute reg t name args ent status"
    by (auto simp: reached_def)
  have name: "t_Name t = name"
    using r(1) wired_wf [of d ui sink scrub ob] wf_registry_lookup [of reg name t]
    unfolding reg by (auto simp: admitted_def wf_registry_def)
  let ?pre = "evs_before reg sp t name args pd diff who" and ?post = "evs_tool reg name status"
  have "evs = ?pre @ [EvExecute name args False, EvRecord ent] @ ?post"
    using r(5) look name by (simp add: evs_execute_def evs_record_def)
  moreover have "sp_DryRunFirst sp \<longrightarrow> EvExecute name args True \<in> set ?pre"
    using t(2) name by (simp add: evs_before_def)
  moreover have "sp_Mode sp \<noteq> ''apply'' \<or> ns = [] \<longrightarrow>
       EvApprove (approval_request t sp name args pd diff) True who \<in> set ?pre"
    using t(2,3) wired_policy_decision(2) [OF r(2,3) t(2)] by (auto simp: evs_before_def need_approval_def)
  moreover have "sp_Mode sp \<noteq> ''read-only''" using r(1) t(2) by (simp add: admitted_def)
  moreover have "map_of (tools reg) name = Some t" using r(1) by (simp add: admitted_def)
  ultimately show ?thesis using t(2,3) r(4)
    by (intro exI [of _ t] exI [of _ pd] exI [of _ diff] exI [of _ who] exI [of _ ent] exI [of _ ?pre]
        exI [of _ ?post] exI [of _ status] exI [of _ summary]) blast
qed


theorem cluster_changes_are_authorised_witness:
  "\<exists>t pd diff who. map_of (tools demo_wired) ''kubectl_scale_deployment'' = Some t \<and>
     EvApprove (approval_request t (demo_session ''propose'') ''kubectl_scale_deployment'' (demo_scale_args ''prod'') pd diff)
       True who \<in> set (trace (snd (demo_scale_run ''propose'' ''prod'')))"
proof -
  obtain ui sink scrub ob where main: "main_registry demo_deps ui sink scrub ob = Some demo_wired"
    using demo_wired_main by blast
  obtain r s' where D: "demo_scale_run ''propose'' ''prod'' = (r, s')" by fastforce
  have "world s' ''b'' ''prod'' = 1"
  proof -
    have "world (snd (demo_scale_run ''propose'' ''prod'')) ''b'' ''prod'' = 1" by code_simp
    with D show ?thesis by simp
  qed
  then have changed: "world s' ''b'' ''prod'' \<noteq> world demo_world ''b'' ''prod''" by (simp add: demo_world_def)
  have tr: "trace s' = trace demo_world @ trace s'" by (simp add: demo_world_def)
  have mode: "sp_Mode (demo_session ''propose'') \<noteq> ''apply''" by (simp add: demo_session_def)
  obtain t pd diff who pre post where "map_of (tools demo_wired) ''kubectl_scale_deployment'' = Some t"
      "trace s' = pre @ post"
      "EvApprove (approval_request t (demo_session ''propose'') ''kubectl_scale_deployment'' (demo_scale_args ''prod'') pd diff)
         True who \<in> set pre"
    using cluster_changes_are_authorised [where view = "\<lambda>w :: string \<Rightarrow> string \<Rightarrow> nat. w" and c = "''b''" and ns = "''prod''",
        OF main demo_deps_laws demo_wired_look D [unfolded demo_scale_run_def] tr changed] mode
    by blast
  then show ?thesis unfolding D by auto
qed

end
