(* ===== verification/Router.thy ===== *)
theory Router
  imports Ai ToolApi "HOL-Library.Word"
begin

text \<open>
  The provider interface of internal/ai/provider.go (requests, streams, providers as records of
  functions over the world), the model router (router.go) and the failover chain of providers
  (failover.go). The gateway itself is a parameter: a provider is any record of such functions.
\<close>

section \<open>Requests and providers (provider.go)\<close>

record ToolSpec =
  ts_Name :: string
  ts_Description :: string
  ts_Schema :: schema

record Routing =
  ro_Model :: string
  ro_Fallbacks :: "string list"
  ro_Reason :: string

record Request =
  rq_Messages :: "Message list"
  rq_Tools :: "ToolSpec list"
  rq_Temperature :: rat
  rq_MaxTokens :: int
  rq_Routing :: Routing
  rq_Metadata :: "(string \<times> string) list"

record Response =
  rp_Message :: Message
  rp_Usage :: Usage

record Delta =
  dl_Text :: string
  dl_ToolCall :: "ToolCall option"
  dl_Done :: bool
  dl_Usage :: "Usage option"
  dl_Err :: "go_error option"

record 'w Stream =
  Recv :: "'w \<Rightarrow> (Delta \<times> go_error option) \<times> 'w"
  Close :: "'w \<Rightarrow> 'w"

type_synonym embedding = "32 word list" \<comment> \<open>the bits of each \<open>float32\<close>\<close>

record 'w Provider =
  p_Chat :: "Request \<Rightarrow> 'w \<Rightarrow> (go_error + Response) \<times> 'w"
  p_Stream :: "Request \<Rightarrow> 'w \<Rightarrow> (go_error + 'w Stream) \<times> 'w"
  p_Embed :: "string list \<Rightarrow> 'w \<Rightarrow> (go_error + embedding list) \<times> 'w"
  p_Name :: string
  p_Models :: "ModelInfo list"

section \<open>The model router (router.go)\<close>

datatype Complexity = Trivial | Investigation

record Classified =
  cl_Prompt :: string
  cl_Complexity :: Complexity
  cl_EstTokens :: int
  cl_InToolLoop :: bool
  cl_BudgetCents :: int
  cl_SpentCents :: rat

record Decision =
  de_Routing :: Routing
  de_MaxTokens :: int

record Router =
  rt_tiers :: "(string \<times> string) list"
  rt_longContextThreshold :: int

definition NewRouter :: "(string \<times> string) list \<Rightarrow> Router" where
  "NewRouter tiers = \<lparr>rt_tiers = tiers, rt_longContextThreshold = 150000\<rparr>"

definition hard_words :: "string list" where
  "hard_words = [''why'', ''investigate'', ''debug'', ''root cause'', ''fix'', ''remediate'', ''optimize'',
     ''audit'', ''diagnose'', ''unavailable'', ''failing'']"

definition Classify :: "string \<Rightarrow> int \<Rightarrow> bool \<Rightarrow> int \<Rightarrow> rat \<Rightarrow> Classified" where
  "Classify prompt estTokens inToolLoop budget spent =
     (let lower = to_lower prompt;
          hard = list_ex (str_contains lower) hard_words
      in \<lparr>cl_Prompt = prompt, cl_Complexity = (if inToolLoop \<or> hard then Investigation else Trivial),
          cl_EstTokens = estTokens, cl_InToolLoop = inToolLoop, cl_BudgetCents = budget,
          cl_SpentCents = spent\<rparr>)"

text \<open>A Go map yields the empty string for an absent key.\<close>

definition tier_ref :: "Router \<Rightarrow> string \<Rightarrow> string" where
  "tier_ref r t = (case map_of (rt_tiers r) t of None \<Rightarrow> [] | Some v \<Rightarrow> v)"

definition tier_order :: "string \<Rightarrow> string list" where
  "tier_order tier =
     (if tier = ''fast'' then [''reasoning'', ''long'']
      else if tier = ''reasoning'' then [''long'', ''fast'']
      else if tier = ''long'' then [''reasoning'', ''fast''] else [])"

definition fallbacksFor :: "Router \<Rightarrow> string \<Rightarrow> string \<Rightarrow> string list" where
  "fallbacksFor r tier primary = filter (\<lambda>v. v \<noteq> [] \<and> v \<noteq> primary) (map (tier_ref r) (tier_order tier))"

definition maxTokensFor :: "string \<Rightarrow> int" where
  "maxTokensFor tier = (if tier = ''long'' then 8192 else if tier = ''reasoning'' then 4096 else 2048)"

definition budget_pressure :: "Classified \<Rightarrow> bool" where
  "budget_pressure c \<longleftrightarrow>
     cl_BudgetCents c > 0 \<and> cl_SpentCents c > 4 / 5 * of_int (cl_BudgetCents c)"

definition Route :: "Router \<Rightarrow> Classified \<Rightarrow> Decision" where
  "Route r c =
     (let (tier0, reason0) =
            (if cl_EstTokens c \<ge> rt_longContextThreshold r
             then (''long'', ''large context '' @ right_arrow @ '' long-context tier'')
             else if cl_Complexity c = Investigation
             then (''reasoning'', ''investigation '' @ right_arrow @ '' strong reasoning tier'')
             else (''fast'', ''trivial query '' @ right_arrow @ '' fast tier''));
          (tier, reason) =
            (if budget_pressure c \<and> tier0 = ''reasoning''
             then (''fast'', ''budget pressure '' @ right_arrow @ '' downgraded reasoning'' @ right_arrow @ ''fast'')
             else (tier0, reason0));
          primary0 = tier_ref r tier;
          primary =
            (if primary0 = []
             then (case find (\<lambda>t. tier_ref r t \<noteq> []) [''reasoning'', ''long'', ''fast''] of
                     None \<Rightarrow> [] | Some t \<Rightarrow> tier_ref r t)
             else primary0)
      in \<lparr>de_Routing = \<lparr>ro_Model = primary, ro_Fallbacks = fallbacksFor r tier primary, ro_Reason = reason\<rparr>,
          de_MaxTokens = maxTokensFor tier\<rparr>)"

text \<open>The tier in one expression.\<close>

definition routed_tier :: "Router \<Rightarrow> Classified \<Rightarrow> string" where
  "routed_tier r c =
     (if cl_EstTokens c \<ge> rt_longContextThreshold r then ''long''
      else if cl_Complexity c = Investigation \<and> \<not> budget_pressure c then ''reasoning'' else ''fast'')"

abbreviation all_tiers :: "string set" where "all_tiers \<equiv> {''fast'', ''reasoning'', ''long''}"

lemma Route_sel:
  "de_MaxTokens (Route r c) = maxTokensFor (routed_tier r c)"
  "ro_Fallbacks (de_Routing (Route r c)) = fallbacksFor r (routed_tier r c) (ro_Model (de_Routing (Route r c)))"
  "ro_Model (de_Routing (Route r c)) =
     (if tier_ref r (routed_tier r c) \<noteq> [] then tier_ref r (routed_tier r c)
      else case find (\<lambda>t. tier_ref r t \<noteq> []) [''reasoning'', ''long'', ''fast''] of
             None \<Rightarrow> [] | Some t \<Rightarrow> tier_ref r t)"
  by (simp_all add: Route_def Let_def routed_tier_def)

lemma routed_tier_all: "routed_tier r c \<in> all_tiers"
  by (simp add: routed_tier_def)

lemma Route_model_configured:
  assumes "t \<in> all_tiers" and "tier_ref r t \<noteq> []"
  shows "ro_Model (de_Routing (Route r c)) \<in> tier_ref r ` all_tiers - {[]}"
  using assms routed_tier_all [of r c] unfolding Route_sel(3) by (auto split: option.splits)

lemma Route_fallbacks:
  "set (ro_Fallbacks (de_Routing (Route r c))) =
     tier_ref r ` (all_tiers - {routed_tier r c}) - {[], ro_Model (de_Routing (Route r c))}"
  unfolding Route_sel(2) using routed_tier_all [of r c]
  by (auto simp: fallbacksFor_def tier_order_def)

section \<open>Failover between providers (failover.go)\<close>

definition wrapAllFailed :: "go_error option \<Rightarrow> go_error" where
  "wrapAllFailed lastErr =
     errorf_prefix ''all providers failed''
       (case lastErr of None \<Rightarrow> ErrNew ''no providers configured'' | Some e \<Rightarrow> e)"

text \<open>
  The loop the three methods share: \<open>ctx\<close> reads the cancellation error of the context, which is
  looked at after every failure.
\<close>

fun try_each ::
  "('w \<Rightarrow> go_error option) \<Rightarrow> ('p \<Rightarrow> 'w \<Rightarrow> (go_error + 'a) \<times> 'w) \<Rightarrow> 'p list \<Rightarrow> go_error option \<Rightarrow> 'w \<Rightarrow>
   (go_error + 'a) \<times> 'w" where
  "try_each ctx call [] lastErr w = (Inl (wrapAllFailed lastErr), w)"
| "try_each ctx call (p # ps) lastErr w =
     (case call p w of
        (Inr r, w1) \<Rightarrow> (Inr r, w1)
      | (Inl e, w1) \<Rightarrow>
          (case ctx w1 of
             Some ce \<Rightarrow> (Inl ce, w1)
           | None \<Rightarrow> try_each ctx call ps (Some e) w1))"

definition Failover_Chat ::
  "('w \<Rightarrow> go_error option) \<Rightarrow> 'w Provider list \<Rightarrow> Request \<Rightarrow> 'w \<Rightarrow> (go_error + Response) \<times> 'w" where
  "Failover_Chat ctx ps req w = try_each ctx (\<lambda>p. p_Chat p req) ps None w"

definition Failover_Stream ::
  "('w \<Rightarrow> go_error option) \<Rightarrow> 'w Provider list \<Rightarrow> Request \<Rightarrow> 'w \<Rightarrow> (go_error + 'w Stream) \<times> 'w" where
  "Failover_Stream ctx ps req w = try_each ctx (\<lambda>p. p_Stream p req) ps None w"

definition Failover_Embed ::
  "('w \<Rightarrow> go_error option) \<Rightarrow> 'w Provider list \<Rightarrow> string list \<Rightarrow> 'w \<Rightarrow> (go_error + embedding list) \<times> 'w" where
  "Failover_Embed ctx ps inputs w = try_each ctx (\<lambda>p. p_Embed p inputs) ps None w"

definition Failover_Models :: "'w Provider list \<Rightarrow> ModelInfo list" where
  "Failover_Models ps = (case ps of [] \<Rightarrow> [] | p # _ \<Rightarrow> p_Models p)"

definition NewFailover :: "('w \<Rightarrow> go_error option) \<Rightarrow> 'w Provider list \<Rightarrow> 'w Provider" where
  "NewFailover ctx ps =
     \<lparr>p_Chat = Failover_Chat ctx ps, p_Stream = Failover_Stream ctx ps, p_Embed = Failover_Embed ctx ps,
      p_Name = ''failover'', p_Models = Failover_Models ps\<rparr>"

text \<open>
  The calls on providers that all fail, with the context alive after each: the world they leave and
  the last error.
\<close>

inductive all_fail ::
  "('w \<Rightarrow> go_error option) \<Rightarrow> ('p \<Rightarrow> 'w \<Rightarrow> (go_error + 'a) \<times> 'w) \<Rightarrow> 'p list \<Rightarrow> go_error option \<Rightarrow> 'w \<Rightarrow>
   go_error option \<Rightarrow> 'w \<Rightarrow> bool" for ctx call where
  none: "all_fail ctx call [] e w e w"
| fail: "call p w = (Inl e, w1) \<Longrightarrow> ctx w1 = None \<Longrightarrow> all_fail ctx call ps (Some e) w1 e' w' \<Longrightarrow>
     all_fail ctx call (p # ps) e0 w e' w'"

inductive_cases all_failE: "all_fail ctx call ps e0 w e' w'"

lemma try_each_prefix:
  "all_fail ctx call ps e0 w e' w' \<Longrightarrow> try_each ctx call (ps @ qs) e0 w = try_each ctx call qs e' w'"
  by (induction rule: all_fail.induct) auto

text \<open>How a chain of attempts ends.\<close>

lemma try_each_cases:
  assumes "try_each ctx call ps e0 w = (r, w')"
  obtains
    (exhausted) e' where "all_fail ctx call ps e0 w e' w'" "r = Inl (wrapAllFailed e')"
  | (first) pre p post e' w1 x where "ps = pre @ p # post" "all_fail ctx call pre e0 w e' w1"
      "call p w1 = (Inr x, w')" "r = Inr x"
  | (cancelled) pre p post e' w1 e ce where "ps = pre @ p # post" "all_fail ctx call pre e0 w e' w1"
      "call p w1 = (Inl e, w')" "ctx w' = Some ce" "r = Inl ce"
  using assms
proof (induction ps arbitrary: e0 w thesis)
  case Nil
  show ?case by (rule Nil.prems(1)) (use Nil.prems(4) in \<open>auto intro: all_fail.none\<close>)
next
  case (Cons q ps)
  obtain x w1 where q: "call q w = (x, w1)" by fastforce
  show ?case
  proof (cases x)
    case (Inr y)
    show ?thesis by (rule Cons.prems(2) [of "[]"]) (use Cons.prems(4) q Inr in \<open>auto intro: all_fail.none\<close>)
  next
    case (Inl e)
    show ?thesis
    proof (cases "ctx w1")
      case (Some ce)
      show ?thesis by (rule Cons.prems(3) [of "[]"]) (use Cons.prems(4) q Inl Some in \<open>auto intro: all_fail.none\<close>)
    next
      case None
      from q Inl None Cons.prems(4) have rest: "try_each ctx call ps (Some e) w1 = (r, w')" by simp
      note step = all_fail.fail [of call q w e w1 ctx, OF q [unfolded Inl] None]
      show ?thesis
      proof (rule Cons.IH [OF _ _ _ rest])
        fix e' assume "all_fail ctx call ps (Some e) w1 e' w'" "r = Inl (wrapAllFailed e')"
        with step show ?thesis by (intro Cons.prems(1))
      next
        fix pre p post e' w2 y
        assume "ps = pre @ p # post" "all_fail ctx call pre (Some e) w1 e' w2" "call p w2 = (Inr y, w')" "r = Inr y"
        with step show ?thesis by (intro Cons.prems(2) [of "q # pre"]) auto
      next
        fix pre p post e' w2 e2 ce
        assume "ps = pre @ p # post" "all_fail ctx call pre (Some e) w1 e' w2" "call p w2 = (Inl e2, w')"
          "ctx w' = Some ce" "r = Inl ce"
        with step show ?thesis by (intro Cons.prems(3) [of "q # pre"]) auto
      qed
    qed
  qed
qed

section \<open>Properties\<close>

text \<open>C29: Routing follows the policy and never leaves the configured models: as soon as one of the three tiers is
  configured, the model chosen is a configured one, and it is the model of the tier that the size of
  the context, the complexity and the budget pressure ask for whenever that tier is configured; the
  fallbacks are the other configured models and never the primary; under budget pressure a context
  below the long-context threshold goes to the fast tier, never to the reasoning tier.\<close>

theorem routing_policy:
  assumes "t \<in> {''fast'', ''reasoning'', ''long''}" and "tier_ref r t \<noteq> []"
  shows "ro_Model (de_Routing (Route r c)) \<in> tier_ref r ` {''fast'', ''reasoning'', ''long''} - {[]} \<and>
    (tier_ref r (routed_tier r c) \<noteq> [] \<longrightarrow> ro_Model (de_Routing (Route r c)) = tier_ref r (routed_tier r c)) \<and>
    set (ro_Fallbacks (de_Routing (Route r c))) =
      tier_ref r ` ({''fast'', ''reasoning'', ''long''} - {routed_tier r c}) - {[], ro_Model (de_Routing (Route r c))} \<and>
    (budget_pressure c \<and> cl_EstTokens c < rt_longContextThreshold r \<longrightarrow>
       routed_tier r c = ''fast'' \<and> de_MaxTokens (Route r c) = 2048)"
proof (intro conjI impI)
  show "ro_Model (de_Routing (Route r c)) \<in> tier_ref r ` all_tiers - {[]}"
    by (rule Route_model_configured [OF assms])
  show "set (ro_Fallbacks (de_Routing (Route r c))) =
      tier_ref r ` (all_tiers - {routed_tier r c}) - {[], ro_Model (de_Routing (Route r c))}"
    by (rule Route_fallbacks)
qed (simp_all add: Route_sel(3) Route_sel(1) routed_tier_def maxTokensFor_def)

definition demo_router :: Router where
  "demo_router = NewRouter [(''fast'', ''m/haiku''), (''reasoning'', ''m/opus'')]"

theorem routing_policy_witness:
  "ro_Model (de_Routing (Route demo_router (Classify ''why is it down?'' 10 False 100 (90 :: rat)))) = ''m/haiku'' \<and>
   de_MaxTokens (Route demo_router (Classify ''why is it down?'' 10 False 100 90)) = 2048"
proof -
  let ?c = "Classify ''why is it down?'' 10 False 100 (90 :: rat)"
  have p: "budget_pressure ?c" "cl_EstTokens ?c < rt_longContextThreshold demo_router"
    by (simp_all add: budget_pressure_def Classify_def Let_def demo_router_def NewRouter_def)
  have "tier_ref demo_router ''fast'' = ''m/haiku''" by (simp add: tier_ref_def demo_router_def NewRouter_def)
  with routing_policy [of "''fast''" demo_router ?c] p show ?thesis by simp
qed

text \<open>C28: The failover chain answers with the first provider that succeeds, after each earlier one was tried once,
  in order, and failed while the caller had not cancelled; if all fail the caller gets the last error
  wrapped, and if the caller cancelled the chain stops at once with the cancellation.\<close>

theorem failover_returns_the_first_answer:
  assumes "p_Chat (NewFailover ctx ps) req w = (r, w')"
  shows "(\<exists>pre p post e w1 x. ps = pre @ p # post \<and> all_fail ctx (\<lambda>p. p_Chat p req) pre None w e w1 \<and>
            p_Chat p req w1 = (Inr x, w') \<and> r = Inr x) \<or>
    (\<exists>e. all_fail ctx (\<lambda>p. p_Chat p req) ps None w e w' \<and> r = Inl (wrapAllFailed e)) \<or>
    (\<exists>pre p post e w1 pe ce. ps = pre @ p # post \<and> all_fail ctx (\<lambda>p. p_Chat p req) pre None w e w1 \<and>
            p_Chat p req w1 = (Inl pe, w') \<and> ctx w' = Some ce \<and> r = Inl ce)"
proof -
  from assms have "try_each ctx (\<lambda>p. p_Chat p req) ps None w = (r, w')"
    by (simp add: NewFailover_def Failover_Chat_def)
  then show ?thesis by (cases rule: try_each_cases) blast+
qed

definition demo_provider :: "(go_error + Response) \<Rightarrow> nat Provider" where
  "demo_provider answer =
     \<lparr>p_Chat = (\<lambda>req w. (answer, w + 1)), p_Stream = (\<lambda>req w. (Inl (ErrNew ''no stream''), w + 1)),
      p_Embed = (\<lambda>xs w. (Inl (ErrNew ''no embeddings''), w + 1)), p_Name = ''demo'', p_Models = []\<rparr>"

definition demo_response :: Response where
  "demo_response = \<lparr>rp_Message = msg RoleAssistant ''hi'',
     rp_Usage = \<lparr>u_InputTokens = 1, u_OutputTokens = 1, u_CostCents = 0, u_Model = []\<rparr>\<rparr>"

theorem failover_returns_the_first_answer_witness:
  "\<exists>pre p post. [demo_provider (Inl (ErrNew ''down'')), demo_provider (Inr demo_response)] = pre @ p # post \<and> pre \<noteq> []"
proof -
  let ?ps = "[demo_provider (Inl (ErrNew ''down'')), demo_provider (Inr demo_response)]"
  fix req :: Request
  have "p_Chat (NewFailover (\<lambda>_. None) ?ps) req 0 = (Inr demo_response, 2)"
    by (simp add: NewFailover_def Failover_Chat_def demo_provider_def)
  from failover_returns_the_first_answer [OF this]
  obtain pre p post w1 where "?ps = pre @ p # post" "p_Chat p req w1 = (Inr demo_response, 2)"
    by blast
  moreover from this have "pre \<noteq> []" by (auto simp: demo_provider_def)
  ultimately show ?thesis by blast
qed

end
