(* ===== verification/AgentTurn.thy ===== *)
theory AgentTurn
  imports AgentLoop
begin

text \<open>
  What a turn of the agent guarantees: it returns if the provider's streams end, it asks the
  provider at most as often as the step budget allows, it keeps the conversation well formed (every
  tool call answered in order), and it persists exactly the conversation without the ephemeral
  grounding.
\<close>

section \<open>What the small operations change\<close>

lemma on_world_sel [simp]:
  "ag_sp (on_world f a) = ag_sp a" "ag_history (on_world f a) = ag_history a"
  "ag_maxSteps (on_world f a) = ag_maxSteps a" "ag_spent (on_world f a) = ag_spent a"
  "ag_events (on_world f a) = ag_events a" "ag_recorded (on_world f a) = ag_recorded a"
  "ag_requests (on_world f a) = ag_requests a" "world (ag_st (on_world f a)) = f (world (ag_st a))"
  "trace (ag_st (on_world f a)) = trace (ag_st a)"
  by (simp_all add: on_world_def)

lemma emit_sel [simp]:
  "ag_sp (emit c ev a) = ag_sp a" "ag_history (emit c ev a) = ag_history a"
  "ag_maxSteps (emit c ev a) = ag_maxSteps a" "ag_spent (emit c ev a) = ag_spent a"
  "ag_events (emit c ev a) = ag_events a @ [ev]" "ag_recorded (emit c ev a) = ag_recorded a"
  "ag_requests (emit c ev a) = ag_requests a" "world (ag_st (emit c ev a)) = cf_Emit c ev (world (ag_st a))"
  "trace (ag_st (emit c ev a)) = trace (ag_st a)"
  by (simp_all add: emit_def)

lemma agent_record_sel [simp]:
  "ag_sp (agent_record c m a) = ag_sp a" "ag_history (agent_record c m a) = ag_history a"
  "ag_maxSteps (agent_record c m a) = ag_maxSteps a" "ag_spent (agent_record c m a) = ag_spent a"
  "ag_events (agent_record c m a) = ag_events a"
  "ag_recorded (agent_record c m a) = ag_recorded a @ (if cf_Persist c = None then [] else [m])"
  "ag_requests (agent_record c m a) = ag_requests a" "trace (ag_st (agent_record c m a)) = trace (ag_st a)"
  by (simp_all add: agent_record_def split: option.split)

lemma account_sel [simp]:
  "ag_sp (account c u r a) = ag_sp a" "ag_history (account c u r a) = ag_history a"
  "ag_maxSteps (account c u r a) = ag_maxSteps a" "ag_spent (account c u r a) = ag_spent a"
  "ag_events (account c u r a) = ag_events a" "ag_recorded (account c u r a) = ag_recorded a"
  "ag_requests (account c u r a) = ag_requests a" "trace (ag_st (account c u r a)) = trace (ag_st a)"
  by (simp_all add: account_def split: option.split)

lemma say_sel [simp]:
  "ag_sp (say m a) = ag_sp a" "ag_history (say m a) = ag_history a @ [m]"
  "ag_maxSteps (say m a) = ag_maxSteps a" "ag_spent (say m a) = ag_spent a"
  "ag_events (say m a) = ag_events a" "ag_recorded (say m a) = ag_recorded a"
  "ag_requests (say m a) = ag_requests a" "ag_st (say m a) = ag_st a"
  by (simp_all add: say_def)

lemma on_turn_sel [simp]:
  "ag_sp (on_turn c start a) = ag_sp a" "ag_history (on_turn c start a) = ag_history a"
  "ag_maxSteps (on_turn c start a) = ag_maxSteps a" "ag_spent (on_turn c start a) = ag_spent a"
  "ag_events (on_turn c start a) = ag_events a" "ag_recorded (on_turn c start a) = ag_recorded a"
  "ag_requests (on_turn c start a) = ag_requests a" "trace (ag_st (on_turn c start a)) = trace (ag_st a)"
  by (simp_all add: on_turn_def split: option.split)

section \<open>Streams that end\<close>

definition after_delta :: "'w Config \<Rightarrow> Delta \<Rightarrow> 'w \<Rightarrow> 'w" where
  "after_delta c d w =
     (if dl_Text d \<noteq> [] then cf_Emit c (ui_event EventToken (dl_Text d) [] None) w else w)"

text \<open>
  A stream ends from a world if receiving, and emitting what was received, leads to an error or to
  a delta marked \<open>Done\<close> after finitely many deltas.
\<close>

inductive ends :: "'w Config \<Rightarrow> 'w Stream \<Rightarrow> 'w \<Rightarrow> bool" for c st where
  stop: "Recv st w = ((d, err), w1) \<Longrightarrow> err \<noteq> None \<or> dl_Done d \<Longrightarrow> ends c st w"
| more: "Recv st w = ((d, None), w1) \<Longrightarrow> \<not> dl_Done d \<Longrightarrow> ends c st (after_delta c d w1) \<Longrightarrow> ends c st w"

inductive_cases endsE: "ends c st w"

lemma take_delta_world:
  "take_delta c d (m, final, a) = (m', final', a') \<Longrightarrow> world (ag_st a') = after_delta c d (world (ag_st a))"
  by (auto simp: take_delta_def after_delta_def split: if_splits option.splits)

lemma streamLoop_returns:
  assumes "ends c st (world (ag_st a))"
  shows "streamLoop c st m usage final a \<noteq> None"
  using assms
proof (induction "world (ag_st a)" arbitrary: a m usage final rule: ends.induct)
  case (stop d err w1)
  then show ?case by (subst streamLoop.simps) (auto simp: Let_def split: prod.splits)
next
  case (more d w1)
  obtain m' final' a' where t: "take_delta c d (m, final, on_world (\<lambda>_. w1) a) = (m', final', a')"
    by (metis prod.exhaust)
  then have "world (ag_st a') = after_delta c d w1" by (auto dest: take_delta_world)
  with more t show ?case by (subst streamLoop.simps) (simp add: Let_def)
qed

lemma streamLoop_ends:
  assumes "streamLoop c st m usage final a = Some out"
  shows "ends c st (world (ag_st a))"
proof (rule streamLoop.raw_induct [where P = "\<lambda>c st m usage final a out. ends c st (world (ag_st a))", OF _ assms])
  fix loop c st m usage final a out
  assume IH: "\<And>c st m usage final a out. loop c st m usage final a = Some out \<Longrightarrow> ends c st (world (ag_st a))"
    and body: "(let ((d, err), w1) = Recv st (world (ag_st a)); a1 = on_world (\<lambda>_. w1) a;
        (m', final', a2) = take_delta c d (m, final, a1);
        usage' = (case dl_Usage d of None \<Rightarrow> usage | Some u \<Rightarrow> u)
      in if err \<noteq> None then if dl_Done d then Some ((m, usage, final, None), a1) else Some ((m, usage, final, err), a1)
         else if dl_Done d then Some ((m', usage', final', None), a2)
         else loop c st m' usage' final' a2) = Some out"
  obtain d err w1 where r: "Recv st (world (ag_st a)) = ((d, err), w1)" by (metis prod.exhaust)
  obtain m' final' a' where t: "take_delta c d (m, final, on_world (\<lambda>_. w1) a) = (m', final', a')"
    by (metis prod.exhaust)
  then have w: "world (ag_st a') = after_delta c d w1" by (auto dest: take_delta_world)
  show "ends c st (world (ag_st a))"
  proof (cases "err \<noteq> None \<or> dl_Done d")
    case True
    with r show ?thesis by (rule ends.stop)
  next
    case False
    with body r t have "loop c st m' (case dl_Usage d of Some u \<Rightarrow> u | None \<Rightarrow> usage) final' a' = Some out"
      by (simp add: Let_def)
    from IH [OF this] w have "ends c st (after_delta c d w1)" by simp
    with False r show ?thesis by (auto intro: ends.more)
  qed
qed

text \<open>What a stream leaves behind.\<close>

definition streamed ::
  "Message \<times> string \<times> 'w Agent \<Rightarrow> Message \<times> string \<times> 'w Agent \<Rightarrow> bool" where
  "streamed = (\<lambda>(m, final, a) (m', final', a').
     m_Role m' = m_Role m \<and> m_ToolCallID m' = m_ToolCallID m \<and> m_Name m' = m_Name m \<and>
     (\<exists>txt evs. m_Content m' = m_Content m @ txt \<and> final' = final @ txt \<and> ag_events a' = ag_events a @ evs \<and>
        (\<forall>ev \<in> set evs. evt_Kind ev = EventToken) \<and> concat (map evt_Text evs) = txt) \<and>
     ag_sp a' = ag_sp a \<and> ag_history a' = ag_history a \<and> ag_maxSteps a' = ag_maxSteps a \<and>
     ag_spent a' = ag_spent a \<and> ag_recorded a' = ag_recorded a \<and> ag_requests a' = ag_requests a \<and>
     trace (ag_st a') = trace (ag_st a))"

lemma streamed_refl: "streamed (m, final, a) (m, final, on_world f a)"
  by (simp add: streamed_def)

lemma streamed_trans: "streamed x y \<Longrightarrow> streamed y z \<Longrightarrow> streamed x z"
  by (cases x; cases y; cases z) (fastforce simp: streamed_def)

lemma take_delta_streamed:
  "take_delta c d (m, final, on_world f a) = y \<Longrightarrow> streamed (m, final, a) y"
  by (auto simp: take_delta_def streamed_def ui_event_def split: option.splits if_splits)

lemma streamLoop_streamed:
  assumes "streamLoop c st m usage final a = Some ((m', usage', final', err), a')"
  shows "streamed (m, final, a) (m', final', a')"
proof -
  let ?Q = "\<lambda>m final a out. case out of ((m', usage', final', err), a') \<Rightarrow> streamed (m, final, a) (m', final', a')"
  have "?Q m final a ((m', usage', final', err), a')"
  proof (rule streamLoop.raw_induct [where P = "\<lambda>c st m usage final a out. ?Q m final a out", OF _ assms])
    fix loop c st m usage final a out
    assume IH: "\<And>c st m usage final a out. loop c st m usage final a = Some out \<Longrightarrow> ?Q m final a out"
      and body: "(let ((d, err), w1) = Recv st (world (ag_st a)); a1 = on_world (\<lambda>_. w1) a;
        (m', final', a2) = take_delta c d (m, final, a1);
        usage' = (case dl_Usage d of None \<Rightarrow> usage | Some u \<Rightarrow> u)
      in if err \<noteq> None then if dl_Done d then Some ((m, usage, final, None), a1) else Some ((m, usage, final, err), a1)
         else if dl_Done d then Some ((m', usage', final', None), a2)
         else loop c st m' usage' final' a2) = Some out"
    obtain d err w1 where r: "Recv st (world (ag_st a)) = ((d, err), w1)" by (metis prod.exhaust)
    obtain m2 final2 a2 where t: "take_delta c d (m, final, on_world (\<lambda>_. w1) a) = (m2, final2, a2)"
      by (metis prod.exhaust)
    note step = take_delta_streamed [OF t]
    show "?Q m final a out"
    proof (cases "err \<noteq> None \<or> dl_Done d")
      case True
      with body r t step streamed_refl [of m final a] show ?thesis by (auto simp: Let_def split: if_splits)
    next
      case False
      with body r t have "loop c st m2 (case dl_Usage d of Some u \<Rightarrow> u | None \<Rightarrow> usage) final2 a2 = Some out"
        by (simp add: Let_def)
      from IH [OF this] step show ?thesis by (auto split: prod.splits intro: streamed_trans)
    qed
  qed
  then show ?thesis by simp
qed

section \<open>The conversation a turn adds\<close>

definition token_text :: "AgentEvent list \<Rightarrow> string" where
  "token_text evs = concat (map evt_Text (filter (\<lambda>ev. evt_Kind ev = EventToken) evs))"

lemma token_text_append [simp]: "token_text (xs @ ys) = token_text xs @ token_text ys"
  by (simp add: token_text_def)

lemma token_text_other [simp]:
  "token_text [] = []" "k \<noteq> EventToken \<Longrightarrow> token_text (ui_event k txt tool e # evs) = token_text evs"
  by (simp_all add: token_text_def ui_event_def)

lemma token_text_tokens: "\<forall>ev \<in> set evs. evt_Kind ev = EventToken \<Longrightarrow> token_text evs = concat (map evt_Text evs)"
  by (simp add: token_text_def filter_True)

text \<open>
  One step of reasoning and acting: what the assistant said and the answers to its tool calls, one
  for each, in their order, with the call's id and name.
\<close>

type_synonym block = "Message \<times> Message list"

definition answers :: "ToolCall \<Rightarrow> Message \<Rightarrow> bool" where
  "answers tc m \<longleftrightarrow> m_Role m = RoleTool \<and> m_ToolCallID m = tc_ID tc \<and> m_Name m = tc_Name tc \<and> m_ToolCalls m = []"

definition block_ok :: "block \<Rightarrow> bool" where
  "block_ok = (\<lambda>(m, outs). m_Role m = RoleAssistant \<and> list_all2 answers (m_ToolCalls m) outs)"

definition flat :: "block list \<Rightarrow> Message list" where
  "flat blocks = concat (map (\<lambda>(m, outs). m # outs) blocks)"

lemma flat_simps [simp]: "flat [] = []" "flat ((m, outs) # bs) = m # outs @ flat bs"
  by (simp_all add: flat_def)

lemma dispatch_sel:
  assumes "dispatch c tc a = (ob, a')"
  shows "ag_sp a' = ag_sp a" "ag_history a' = ag_history a" "ag_maxSteps a' = ag_maxSteps a"
    "ag_spent a' = ag_spent a" "ag_events a' = ag_events a" "ag_recorded a' = ag_recorded a"
    "ag_requests a' = ag_requests a"
    "ag_st a' = snd (Dispatch (cf_Clock c) (cf_Registry c) (ag_sp a) (tc_Name tc) (tc_Args tc) (ag_st a))"
  using assms by (auto simp: dispatch_def Let_def split: prod.splits option.splits)

definition keeps_turn :: "'w Agent \<Rightarrow> 'w Agent \<Rightarrow> bool" where
  "keeps_turn a a' \<longleftrightarrow> ag_sp a' = ag_sp a \<and> ag_maxSteps a' = ag_maxSteps a"

lemma act_one_adds:
  "\<exists>m. answers tc m \<and> ag_history (act_one c tc a) = ag_history a @ [m] \<and>
     ag_recorded (act_one c tc a) = ag_recorded a @ (if cf_Persist c = None then [] else [m]) \<and>
     ag_requests (act_one c tc a) = ag_requests a \<and> keeps_turn a (act_one c tc a) \<and>
     (\<exists>evs. ag_events (act_one c tc a) = ag_events a @ evs \<and> token_text evs = [])"
proof -
  obtain ob a2 where d: "dispatch c tc (emit c (ui_event EventToolStart [] (tc_Name tc) None) a) = (ob, a2)"
    by fastforce
  show ?thesis
    by (rule exI [of _ "tool_message tc (ob_view ob)"])
      (simp add: act_one_def Let_def d dispatch_sel [OF d] answers_def tool_message_def keeps_turn_def)
qed

lemma act_adds:
  "\<exists>outs. list_all2 answers tcs outs \<and> ag_history (act c tcs a) = ag_history a @ outs \<and>
     ag_recorded (act c tcs a) = ag_recorded a @ (if cf_Persist c = None then [] else outs) \<and>
     ag_requests (act c tcs a) = ag_requests a \<and> keeps_turn a (act c tcs a) \<and>
     (\<exists>evs. ag_events (act c tcs a) = ag_events a @ evs \<and> token_text evs = [])"
proof (induction tcs arbitrary: a)
  case Nil
  show ?case by (simp add: keeps_turn_def)
next
  case (Cons tc tcs)
  from act_one_adds [of tc c a] obtain m evs1 where one: "answers tc m"
    "ag_history (act_one c tc a) = ag_history a @ [m]"
    "ag_recorded (act_one c tc a) = ag_recorded a @ (if cf_Persist c = None then [] else [m])"
    "ag_requests (act_one c tc a) = ag_requests a" "keeps_turn a (act_one c tc a)"
    "ag_events (act_one c tc a) = ag_events a @ evs1" "token_text evs1 = []" by blast
  from Cons.IH [of "act_one c tc a"] obtain outs evs2 where rest: "list_all2 answers tcs outs"
    "ag_history (act c tcs (act_one c tc a)) = ag_history (act_one c tc a) @ outs"
    "ag_recorded (act c tcs (act_one c tc a)) = ag_recorded (act_one c tc a) @ (if cf_Persist c = None then [] else outs)"
    "ag_requests (act c tcs (act_one c tc a)) = ag_requests (act_one c tc a)"
    "keeps_turn (act_one c tc a) (act c tcs (act_one c tc a))"
    "ag_events (act c tcs (act_one c tc a)) = ag_events (act_one c tc a) @ evs2" "token_text evs2 = []" by blast
  show ?case
    by (rule exI [of _ "m # outs"]) (use one rest in \<open>simp add: keeps_turn_def\<close>)
qed

lemma streamTurn_adds:
  assumes "streamTurn c req final a = Some ((m, usage, final', err), a')"
  shows "\<exists>part evs. final' = final @ part \<and> (err = None \<longrightarrow> m_Role m = RoleAssistant \<and> m_Content m = part) \<and>
    ag_events a' = ag_events a @ evs \<and> token_text evs = part \<and> ag_history a' = ag_history a \<and>
    ag_recorded a' = ag_recorded a \<and> ag_requests a' = ag_requests a @ [req] \<and> keeps_turn a a' \<and>
    ag_spent a' = ag_spent a"
proof -
  obtain r w1 where r: "p_Stream (cf_Provider c) req (world (ag_st a)) = (r, w1)" by fastforce
  let ?a1 = "(on_world (\<lambda>_. w1) a)\<lparr>ag_requests := ag_requests a @ [req]\<rparr>"
  show ?thesis
  proof (cases r)
    case (Inl e)
    with assms r show ?thesis by (intro exI [of _ "[]"]) (auto simp: streamTurn_def keeps_turn_def)
  next
    case (Inr st)
    obtain a2 where loop: "streamLoop c st (msg RoleAssistant []) zero_Usage final ?a1 = Some ((m, usage, final', err), a2)"
      and a': "a' = on_world (Close st) a2"
      using assms r Inr by (auto simp: streamTurn_def split: option.splits)
    from streamLoop_streamed [OF loop] obtain part evs where "m_Role m = RoleAssistant" "m_Content m = part"
      "final' = final @ part" "ag_events a2 = ag_events a @ evs" "\<forall>ev \<in> set evs. evt_Kind ev = EventToken"
      "concat (map evt_Text evs) = part" "ag_sp a2 = ag_sp a" "ag_history a2 = ag_history a"
      "ag_maxSteps a2 = ag_maxSteps a" "ag_spent a2 = ag_spent a" "ag_recorded a2 = ag_recorded a"
      "ag_requests a2 = ag_requests a @ [req]" by (auto simp: streamed_def)
    then show ?thesis by (intro exI [of _ part] exI [of _ evs]) (auto simp: a' token_text_tokens keeps_turn_def)
  qed
qed

lemma streamTurn_returns:
  assumes "\<And>st w1. p_Stream (cf_Provider c) req (world (ag_st a)) = (Inr st, w1) \<Longrightarrow> ends c st w1"
  shows "streamTurn c req final a \<noteq> None"
proof -
  obtain r w1 where r: "p_Stream (cf_Provider c) req (world (ag_st a)) = (r, w1)" by fastforce
  show ?thesis
  proof (cases r)
    case (Inr st)
    let ?a1 = "(on_world (\<lambda>_. w1) a)\<lparr>ag_requests := ag_requests a @ [req]\<rparr>"
    have "ends c st (world (ag_st ?a1))" using assms r Inr by simp
    from streamLoop_returns [OF this, of "msg RoleAssistant []" zero_Usage final] obtain out
      where "streamLoop c st (msg RoleAssistant []) zero_Usage final ?a1 = Some out" by blast
    with r Inr show ?thesis by (cases out) (simp add: streamTurn_def)
  qed (simp add: streamTurn_def r)
qed

text \<open>The whole loop.\<close>

definition turn_adds ::
  "'w Config \<Rightarrow> nat \<Rightarrow> string \<Rightarrow> 'w Agent \<Rightarrow> string \<Rightarrow> go_error option \<Rightarrow> 'w Agent \<Rightarrow> block list \<Rightarrow> bool" where
  "turn_adds c n final a txt err a' blocks \<longleftrightarrow>
     ag_history a' = ag_history a @ flat blocks \<and> (\<forall>b \<in> set blocks. block_ok b) \<and>
     ag_recorded a' = ag_recorded a @ (if cf_Persist c = None then [] else flat blocks) \<and>
     keeps_turn a a' \<and> length blocks \<le> n \<and>
     (\<exists>rs. ag_requests a' = ag_requests a @ rs \<and> length rs \<le> n \<and> length blocks \<le> length rs) \<and>
     (\<exists>part. txt = final @ concat (map (m_Content \<circ> fst) blocks) @ part \<and> (err = None \<longrightarrow> part = [])) \<and>
     (\<exists>evs. ag_events a' = ag_events a @ evs \<and> txt = final @ token_text evs) \<and>
     (err = None \<longrightarrow> blocks \<noteq> [] \<and> m_ToolCalls (fst (last blocks)) = []) \<and>
     (\<forall>b \<in> set (butlast blocks). m_ToolCalls (fst b) \<noteq> [])"

lemma steps_adds:
  assumes "steps c userMsg n inLoop final a = Some ((txt, err), a')"
  shows "\<exists>blocks. turn_adds c n final a txt err a' blocks \<and>
    (err \<noteq> None \<longrightarrow> (\<forall>b \<in> set blocks. m_ToolCalls (fst b) \<noteq> []))"
  using assms
proof (induction n arbitrary: inLoop final a)
  case 0
  then show ?case by (intro exI [of _ "[]"]) (auto simp: turn_adds_def keeps_turn_def)
next
  case (Suc n)
  show ?case
  proof (cases "cf_Done c (world (ag_st a))")
    case (Some e)
    with Suc.prems have "txt = final" "err = Some e" "a' = a" by auto
    then show ?thesis by (intro exI [of _ "[]"]) (auto simp: turn_adds_def keeps_turn_def)
  next
    case None
    let ?dec = "route_step c userMsg inLoop a"
    let ?ev = "ui_event EventRouting (ro_Model (de_Routing ?dec) @ '' '' @ em_dash @ '' '' @ ro_Reason (de_Routing ?dec)) [] None"
    let ?a1 = "emit c ?ev a"
    obtain m usage final' err' a2 where st:
      "streamTurn c (step_request c ?dec ?a1) final ?a1 = Some ((m, usage, final', err'), a2)"
      using Suc.prems None by (auto simp: Let_def split: option.splits)
    from streamTurn_adds [OF st] obtain part evs where part: "final' = final @ part"
      "err' = None \<longrightarrow> m_Role m = RoleAssistant \<and> m_Content m = part" "ag_events a2 = ag_events a @ [?ev] @ evs"
      "token_text evs = part" "ag_history a2 = ag_history a" "ag_recorded a2 = ag_recorded a"
      "ag_requests a2 = ag_requests a @ [step_request c ?dec ?a1]" "keeps_turn a a2"
      by (auto simp: keeps_turn_def)
    show ?thesis
    proof (cases err')
      case (Some e)
      with Suc.prems None st have "txt = final'" "err = Some e" "a' = emit c (ui_event EventError [] [] (Some e)) a2"
        by (auto simp: Let_def)
      with part show ?thesis by (intro exI [of _ "[]"]) (auto simp: turn_adds_def keeps_turn_def)
    next
      case ok: None
      let ?a3 = "observe_step c ?dec m usage a2"
      have a3: "ag_history ?a3 = ag_history a @ [m]" "ag_requests ?a3 = ag_requests a2" "keeps_turn a ?a3"
        "ag_recorded ?a3 = ag_recorded a @ (if cf_Persist c = None then [] else [m])" "ag_events ?a3 = ag_events a2"
        using part by (simp_all add: observe_step_def Let_def keeps_turn_def)
      show ?thesis
      proof (cases "m_ToolCalls m = []")
        case True
        with Suc.prems None st ok have "txt = final'" "err = None" "a' = emit c (ui_event EventDone [] [] None) ?a3"
          by (auto simp: Let_def)
        with part a3 ok True show ?thesis
          by (intro exI [of _ "[(m, [])]"]) (auto simp: turn_adds_def block_ok_def keeps_turn_def)
      next
        case False
        from act_adds [of "m_ToolCalls m" c ?a3] obtain outs evs2 where outs: "list_all2 answers (m_ToolCalls m) outs"
          "ag_history (act c (m_ToolCalls m) ?a3) = ag_history a @ m # outs"
          "ag_recorded (act c (m_ToolCalls m) ?a3) = ag_recorded a @ (if cf_Persist c = None then [] else m # outs)"
          "ag_requests (act c (m_ToolCalls m) ?a3) = ag_requests a @ [step_request c ?dec ?a1]"
          "keeps_turn a (act c (m_ToolCalls m) ?a3)"
          "ag_events (act c (m_ToolCalls m) ?a3) = ag_events a @ [?ev] @ evs @ evs2" "token_text evs2 = []"
          using a3 part by (auto simp: keeps_turn_def)
        from Suc.prems None st ok False
        have "steps c userMsg n True final' (act c (m_ToolCalls m) ?a3) = Some ((txt, err), a')" by (simp add: Let_def)
        from Suc.IH [OF this] obtain blocks where
          b: "turn_adds c n final' (act c (m_ToolCalls m) ?a3) txt err a' blocks"
             "err \<noteq> None \<longrightarrow> (\<forall>b \<in> set blocks. m_ToolCalls (fst b) \<noteq> [])" by blast
        have "turn_adds c (Suc n) final a txt err a' ((m, outs) # blocks)"
          unfolding turn_adds_def
        proof (intro conjI)
          show "\<exists>evs. ag_events a' = ag_events a @ evs \<and> txt = final @ token_text evs"
            using b(1) outs(6,7) part(1,4) by (auto simp: turn_adds_def)
        qed (use b(1) outs part ok False in \<open>auto simp: turn_adds_def block_ok_def keeps_turn_def\<close>)
        with b(2) False show ?thesis by (intro exI [of _ "(m, outs) # blocks"]) auto
      qed
    qed
  qed
qed

text \<open>The messages put before the turn: the cluster card and perhaps the recalled facts.\<close>

lemma assemble_adds:
  "\<exists>ground. ag_history (assemble c userMsg a) = ag_history a @ ground @ [msg RoleUser userMsg] \<and>
     length ground \<le> 2 \<and> (\<forall>m \<in> set ground. m_ToolCalls m = []) \<and>
     ag_recorded (assemble c userMsg a) = ag_recorded a @ (if cf_Persist c = None then [] else [msg RoleUser userMsg]) \<and>
     ag_requests (assemble c userMsg a) = ag_requests a \<and> ag_events (assemble c userMsg a) = ag_events a \<and>
     ag_maxSteps (assemble c userMsg a) = ag_maxSteps a \<and>
     sp_Mode (ag_sp (assemble c userMsg a)) = sp_Mode (ag_sp a)"
proof -
  let ?a1 = "track_cluster c a"
  have a1: "ag_history ?a1 = ag_history a" "ag_recorded ?a1 = ag_recorded a" "ag_requests ?a1 = ag_requests a"
    "ag_events ?a1 = ag_events a" "ag_maxSteps ?a1 = ag_maxSteps a" "sp_Mode (ag_sp ?a1) = sp_Mode (ag_sp a)"
    by (simp_all add: track_cluster_def split: sum.split)
  obtain card w1 where card: "contextCard c (world (ag_st ?a1)) = (card, w1)" by fastforce
  let ?a2 = "add_card c ?a1"
  have a2: "ag_history ?a2 = ag_history a @ [msg RoleUser (''[cluster context]'' @ newline @ card)]"
    "ag_recorded ?a2 = ag_recorded a" "ag_requests ?a2 = ag_requests a"
    "ag_events ?a2 = ag_events a" "ag_maxSteps ?a2 = ag_maxSteps a" "sp_Mode (ag_sp ?a2) = sp_Mode (ag_sp a)"
    using a1 by (simp_all add: add_card_def card)
  let ?a3 = "add_recall c userMsg ?a2"
  have "\<exists>ms. ag_history ?a3 = ag_history ?a2 @ ms \<and> length ms \<le> 1 \<and> (\<forall>m \<in> set ms. m_ToolCalls m = []) \<and>
      ag_recorded ?a3 = ag_recorded ?a2 \<and> ag_requests ?a3 = ag_requests ?a2 \<and> ag_events ?a3 = ag_events ?a2 \<and>
      ag_maxSteps ?a3 = ag_maxSteps ?a2 \<and> ag_sp ?a3 = ag_sp ?a2"
    by (auto simp: add_recall_def split: option.split sum.split prod.split)
  then obtain ms where ms: "ag_history ?a3 = ag_history ?a2 @ ms" "length ms \<le> 1" "\<forall>m \<in> set ms. m_ToolCalls m = []"
      "ag_recorded ?a3 = ag_recorded ?a2" "ag_requests ?a3 = ag_requests ?a2" "ag_events ?a3 = ag_events ?a2"
      "ag_maxSteps ?a3 = ag_maxSteps ?a2" "ag_sp ?a3 = ag_sp ?a2" by blast
  show ?thesis
    by (rule exI [of _ "msg RoleUser (''[cluster context]'' @ newline @ card) # ms"])
      (use a2 ms in \<open>simp add: assemble_def Let_def\<close>)
qed

lemma runLoop_steps:
  assumes "runLoop c userMsg a = Some ((out, err), a')"
  obtains a1 where "steps c userMsg (nat (ag_maxSteps a)) False [] (assemble c userMsg a) = Some ((out, err), a1)"
    "a' = on_turn c (cf_Clock c (world (ag_st a))) a1"
  using assms by (auto simp: runLoop_def Let_def)

section \<open>Properties\<close>

text \<open>C10: A turn keeps the conversation well formed and persists it faithfully: it appends at most two grounding
  messages, the user's message, and then steps, each an assistant message followed by one answer per
  tool call, in order, with the call's id and name. What is handed to persistence is exactly the user
  message and the steps, never the grounding. A turn that succeeds ends with an assistant message
  without tool calls, its text is the text of its assistant messages, and that is what the user saw
  token by token.\<close>

theorem turn_keeps_the_conversation:
  assumes "Run c userMsg a = Some ((out, err), a')"
  shows "\<exists>ground blocks evs. ag_history a' = ag_history a @ ground @ msg RoleUser userMsg # flat blocks \<and>
    length ground \<le> 2 \<and> (\<forall>m \<in> set ground. m_ToolCalls m = []) \<and> (\<forall>b \<in> set blocks. block_ok b) \<and>
    ag_recorded a' = ag_recorded a @ (if cf_Persist c = None then [] else msg RoleUser userMsg # flat blocks) \<and>
    (\<forall>b \<in> set (butlast blocks). m_ToolCalls (fst b) \<noteq> []) \<and>
    (err = None \<longrightarrow> blocks \<noteq> [] \<and> m_ToolCalls (fst (last blocks)) = [] \<and>
       out = concat (map (m_Content \<circ> fst) blocks)) \<and>
    ag_events a' = ag_events a @ evs \<and> out = token_text evs"
proof -
  from assms obtain a1 where
    st: "steps c userMsg (nat (ag_maxSteps a)) False [] (assemble c userMsg a) = Some ((out, err), a1)"
    and a': "a' = on_turn c (cf_Clock c (world (ag_st a))) a1" by (rule runLoop_steps)
  from assemble_adds [of c userMsg a] obtain ground where
    g: "ag_history (assemble c userMsg a) = ag_history a @ ground @ [msg RoleUser userMsg]"
    "length ground \<le> 2" "\<forall>m \<in> set ground. m_ToolCalls m = []"
    "ag_recorded (assemble c userMsg a) = ag_recorded a @ (if cf_Persist c = None then [] else [msg RoleUser userMsg])"
    "ag_events (assemble c userMsg a) = ag_events a" by blast
  from steps_adds [OF st] obtain blocks where
    b: "turn_adds c (nat (ag_maxSteps a)) [] (assemble c userMsg a) out err a1 blocks" by blast
  then obtain evs where "ag_events a1 = ag_events a @ evs" "out = token_text evs"
    using g by (auto simp: turn_adds_def)
  with b g show ?thesis
    by (intro exI [of _ ground] exI [of _ blocks] exI [of _ evs]) (auto simp: turn_adds_def a')
qed

text \<open>C36: A turn asks the provider at most as often as the step budget allows, 12 times by default; a turn that
  uses the whole budget without an answer ends with the step-budget error, not with more requests.\<close>

theorem turn_requests_are_bounded:
  assumes "Run c userMsg a = Some ((out, err), a')"
  shows "(\<exists>rs. ag_requests a' = ag_requests a @ rs \<and> length rs \<le> nat (ag_maxSteps a)) \<and>
    ag_maxSteps a' = ag_maxSteps a \<and> (cf_MaxSteps c = 0 \<longrightarrow> ag_maxSteps (New c s) = 12)"
proof -
  from assms obtain a1 where
    st: "steps c userMsg (nat (ag_maxSteps a)) False [] (assemble c userMsg a) = Some ((out, err), a1)"
    and a': "a' = on_turn c (cf_Clock c (world (ag_st a))) a1" by (rule runLoop_steps)
  from steps_adds [OF st] assemble_adds [of c userMsg a] show ?thesis
    by (auto simp: turn_adds_def keeps_turn_def a' New_def)
qed

lemma steps_return:
  assumes "\<And>req w st w1. p_Stream (cf_Provider c) req w = (Inr st, w1) \<Longrightarrow> ends c st w1"
  shows "steps c userMsg n inLoop final a \<noteq> None"
proof (induction n arbitrary: inLoop final a)
  case (Suc n)
  let ?dec = "route_step c userMsg inLoop a"
  let ?a1 = "emit c (ui_event EventRouting (ro_Model (de_Routing ?dec) @ '' '' @ em_dash @ '' '' @ ro_Reason (de_Routing ?dec)) [] None) a"
  have "streamTurn c (step_request c ?dec ?a1) final ?a1 \<noteq> None" by (rule streamTurn_returns) (rule assms)
  then obtain m usage final' err a2 where
    "streamTurn c (step_request c ?dec ?a1) final ?a1 = Some ((m, usage, final', err), a2)" by fastforce
  with Suc.IH show ?case by (auto simp: Let_def split: option.split)
qed simp

text \<open>Every turn returns provided that the streams of the provider end (each leads to an error or a delta
  marked Done after finitely many deltas); and that is what is needed of a stream: reading it returns
  exactly if it ends.\<close>

theorem turn_returns:
  assumes "\<And>req w st w1. p_Stream (cf_Provider c) req w = (Inr st, w1) \<Longrightarrow> ends c st w1"
  shows "(\<exists>out err a'. Run c userMsg a = Some ((out, err), a')) \<and>
    (\<forall>st m usage final b. (\<exists>res. streamLoop c st m usage final b = Some res) = ends c st (world (ag_st b)))"
proof
  have "steps c userMsg (nat (ag_maxSteps a)) False [] (assemble c userMsg a) \<noteq> None"
    by (rule steps_return) (rule assms)
  then show "\<exists>out err a'. Run c userMsg a = Some ((out, err), a')" by (auto simp: runLoop_def)
  show "\<forall>st m usage final b. (\<exists>res. streamLoop c st m usage final b = Some res) = ends c st (world (ag_st b))"
    using streamLoop_ends streamLoop_returns by blast
qed

text \<open>What an agent can be: made, then turns and resumptions in any order, in any world.\<close>

inductive reachable_agent :: "'w Config \<Rightarrow> 'w Agent \<Rightarrow> bool" for c where
  new: "reachable_agent c (New c s)"
| turn: "reachable_agent c a \<Longrightarrow> Run c userMsg a = Some (r, a') \<Longrightarrow> reachable_agent c a'"
| resume: "reachable_agent c a \<Longrightarrow> reachable_agent c (Restore msgs a)"
| outside: "reachable_agent c a \<Longrightarrow> reachable_agent c (on_world f a)"

text \<open>However an agent got where it is, its history starts with the system preamble and its session keeps the
  mode it was created with; so a resumption drops everything but the preamble before it takes over
  the stored messages.\<close>

theorem preamble_and_mode_are_kept:
  assumes "reachable_agent c a"
  shows "(\<exists>ms. ag_history a = msg RoleSystem systemPreamble # ms) \<and> sp_Mode (ag_sp a) = sp_Mode (cf_Session c) \<and>
    ag_history (Restore msgs a) = msg RoleSystem systemPreamble # msgs"
  using assms
proof (induction rule: reachable_agent.induct)
  case (turn a userMsg r a')
  obtain out err where r: "r = (out, err)" by fastforce
  from turn.hyps(2) [unfolded r] obtain a1 where
    st: "steps c userMsg (nat (ag_maxSteps a)) False [] (assemble c userMsg a) = Some ((out, err), a1)"
    and a': "a' = on_turn c (cf_Clock c (world (ag_st a))) a1" by (rule runLoop_steps)
  from steps_adds [OF st] assemble_adds [of c userMsg a] turn.IH show ?case
    by (auto simp: turn_adds_def keeps_turn_def a' Restore_def)
qed (auto simp: New_def Restore_def)

section \<open>A turn to try it on\<close>

text \<open>A model that calls the tool once and then answers.\<close>

definition demo_delta :: "ToolCall \<Rightarrow> bool \<Rightarrow> Delta" where
  "demo_delta tc answered =
     \<lparr>dl_Text = (if answered then ''all good'' else []), dl_ToolCall = (if answered then None else Some tc),
      dl_Done = True, dl_Usage = Some \<lparr>u_InputTokens = 10, u_OutputTokens = 5, u_CostCents = 2, u_Model = ''m''\<rparr>,
      dl_Err = None\<rparr>"

definition demo_llm :: "ToolCall \<Rightarrow> 'w Provider" where
  "demo_llm tc = \<lparr>p_Chat = (\<lambda>req w. (Inl (ErrNew ''no chat''), w)),
     p_Stream = (\<lambda>req w. (Inr \<lparr>Recv = (\<lambda>w. ((demo_delta tc (list_ex (\<lambda>m. m_Role m = RoleTool) (rq_Messages req)), None), w)),
                               Close = (\<lambda>w. w)\<rparr>, w)),
     p_Embed = (\<lambda>xs w. (Inl (ErrNew ''no embeddings''), w)), p_Name = ''demo'', p_Models = []\<rparr>"

definition demo_call :: ToolCall where
  "demo_call = \<lparr>tc_ID = ''c1'', tc_Name = ''t'', tc_Args = demo_args\<rparr>"

definition silent_api :: "'w KubeApi" where
  "silent_api =
     \<lparr>k_ListPods = (\<lambda>c ns w. (Inr [], w)), k_ListDeployments = (\<lambda>c ns w. (Inr [], w)),
      k_ListNodes = (\<lambda>c w. (Inr [], w)), k_GetPod = (\<lambda>c ns n w. (Inl (ErrNew ''not found''), w)),
      k_GetDeployment = (\<lambda>c ns n w. (Inl (ErrNew ''not found''), w)), k_ListEvents = (\<lambda>c ns sel w. (Inr [], w)),
      k_GetLogs = (\<lambda>c ns pod opts w. (Inr [], w)), k_AccessReview = (\<lambda>c verb grp res ns w. (Inr True, w)),
      k_PatchDeployment = (\<lambda>c ns n ty p dry w. (None, w))\<rparr>"

definition demo_config :: "nat Config" where
  "demo_config =
     \<lparr>cf_Provider = demo_llm demo_call, cf_Router = demo_router, cf_Registry = demo_registry True True,
      cf_Clusters = (\<lambda>_. demo_clusters), cf_Api = silent_api, cf_Session = demo_session ''propose'',
      cf_MaxSteps = 0, cf_BudgetCents = 0, cf_Persist = Some (\<lambda>m w. (None, w)), cf_RecordUsage = None,
      cf_Memory = None, cf_OnTurn = None, cf_Emit = (\<lambda>ev w. w), cf_Clock = (\<lambda>_. 0), cf_Done = (\<lambda>_. None)\<rparr>"

definition demo_agent :: "int \<Rightarrow> Message list \<Rightarrow> nat Agent" where
  "demo_agent n ms = (New demo_config demo_start)\<lparr>ag_history := msg RoleSystem ''sys'' # ms, ag_maxSteps := n\<rparr>"

definition demo_answered :: Message where
  "demo_answered = tool_message demo_call ''done''"

lemma demo_llm_ends: "p_Stream (demo_llm tc) req w = (Inr st, w1) \<Longrightarrow> ends c st w1"
  by (auto simp: demo_llm_def demo_delta_def intro!: ends.stop)

lemma demo_config_ends: "p_Stream (cf_Provider demo_config) req w = (Inr st, w1) \<Longrightarrow> ends demo_config st w1"
  by (rule demo_llm_ends) (simp add: demo_config_def)

text \<open>A turn answered at once, and one whose budget of one step is used up by the tool call.\<close>

lemma demo_turn: "map_option fst (Run demo_config ''fix it'' (demo_agent 12 [demo_answered])) = Some (''all good'', None)"
  by code_simp

lemma demo_spent: "map_option fst (Run demo_config ''fix it'' (demo_agent 1 [])) = Some ([], Some errStepBudget)"
  by code_simp

theorem turn_keeps_the_conversation_witness:
  "\<exists>a' ground blocks. Run demo_config ''fix it'' (demo_agent 12 [demo_answered]) = Some ((''all good'', None), a') \<and>
     ag_recorded a' = msg RoleUser ''fix it'' # flat blocks \<and> ''all good'' = concat (map (m_Content \<circ> fst) blocks)"
proof -
  from demo_turn obtain a' where a': "Run demo_config ''fix it'' (demo_agent 12 [demo_answered]) = Some ((''all good'', None), a')"
    by auto
  from turn_keeps_the_conversation [OF a'] obtain blocks where
    "ag_recorded a' = ag_recorded (demo_agent 12 [demo_answered]) @
       (if cf_Persist demo_config = None then [] else msg RoleUser ''fix it'' # flat blocks)"
    "''all good'' = concat (map (m_Content \<circ> fst) blocks)" by blast
  then have "ag_recorded a' = msg RoleUser ''fix it'' # flat blocks"
    by (simp add: demo_agent_def New_def demo_config_def)
  with a' \<open>''all good'' = _\<close> show ?thesis by blast
qed

theorem turn_requests_are_bounded_witness:
  "\<exists>a'. Run demo_config ''fix it'' (demo_agent 1 []) = Some (([], Some errStepBudget), a') \<and> length (ag_requests a') \<le> 1"
proof -
  from demo_spent obtain a' where a': "Run demo_config ''fix it'' (demo_agent 1 []) = Some (([], Some errStepBudget), a')"
    by auto
  from turn_requests_are_bounded [OF a'] have "length (ag_requests a') \<le> 1"
    by (auto simp: demo_agent_def New_def)
  with a' show ?thesis by blast
qed

theorem turn_returns_witness:
  "\<exists>out err a'. Run demo_config ''why?'' (New demo_config demo_start) = Some ((out, err), a')"
proof -
  have "(\<exists>out err a'. Run demo_config ''why?'' (New demo_config demo_start) = Some ((out, err), a')) \<and>
    (\<forall>st m usage final b. (\<exists>res. streamLoop demo_config st m usage final b = Some res) =
       ends demo_config st (world (ag_st b)))"
    by (rule turn_returns) (rule demo_config_ends)
  then show ?thesis by (rule conjunct1)
qed

theorem preamble_and_mode_are_kept_witness:
  "ag_history (Restore [demo_answered] (on_world Suc (New demo_config demo_start))) =
     [msg RoleSystem systemPreamble, demo_answered]"
proof -
  have "reachable_agent demo_config (on_world Suc (New demo_config demo_start))"
    by (rule reachable_agent.outside, rule reachable_agent.new)
  from preamble_and_mode_are_kept [OF this] show ?thesis by blast
qed

end
