(* ===== verification/AgentSafety.thy ===== *)
theory AgentSafety
  imports AgentTurn Composition
begin

text \<open>
  The safety of a whole turn: whatever the model says, in however many steps, a turn of the wired
  program does to the clusters only what its single tool calls may do.
\<close>

section \<open>A predicate on the world through a turn\<close>

text \<open>The collaborators of the agent, other than the tool registry, keep a predicate.\<close>

definition stream_keeps :: "'w Stream \<Rightarrow> ('w \<Rightarrow> bool) \<Rightarrow> bool" where
  "stream_keeps st P \<longleftrightarrow> (\<forall>w. P w \<longrightarrow> P (snd (Recv st w)) \<and> P (Close st w))"

definition config_keeps :: "'w Config \<Rightarrow> ('w \<Rightarrow> bool) \<Rightarrow> bool" where
  "config_keeps c P \<longleftrightarrow>
     (\<forall>req w r w1. p_Stream (cf_Provider c) req w = (r, w1) \<longrightarrow> P w \<longrightarrow>
        P w1 \<and> (\<forall>st. r = Inr st \<longrightarrow> stream_keeps st P)) \<and>
     (\<forall>ev w. P w \<longrightarrow> P (cf_Emit c ev w)) \<and>
     (\<forall>f m w. cf_Persist c = Some f \<longrightarrow> P w \<longrightarrow> P (snd (f m w))) \<and>
     (\<forall>f u r w. cf_RecordUsage c = Some f \<longrightarrow> P w \<longrightarrow> P (snd (f u r w))) \<and>
     (\<forall>f q k w. cf_Memory c = Some f \<longrightarrow> P w \<longrightarrow> P (snd (f q k w))) \<and>
     (\<forall>f t w. cf_OnTurn c = Some f \<longrightarrow> P w \<longrightarrow> P (f t w)) \<and>
     (\<forall>cl ns w. P w \<longrightarrow> P (snd (Cluster_Snapshot (cf_Api c) cl ns w)))"

lemma config_keepsD:
  assumes "config_keeps c P"
  shows "p_Stream (cf_Provider c) req w = (r, w1) \<Longrightarrow> P w \<Longrightarrow> P w1"
    and "p_Stream (cf_Provider c) req w = (Inr st, w1) \<Longrightarrow> P w \<Longrightarrow> stream_keeps st P"
    and "P w \<Longrightarrow> P (cf_Emit c ev w)"
    and "cf_Persist c = Some f1 \<Longrightarrow> P w \<Longrightarrow> P (snd (f1 m w))"
    and "cf_RecordUsage c = Some f2 \<Longrightarrow> P w \<Longrightarrow> P (snd (f2 u reason w))"
    and "cf_Memory c = Some f3 \<Longrightarrow> P w \<Longrightarrow> P (snd (f3 q k w))"
    and "cf_OnTurn c = Some f4 \<Longrightarrow> P w \<Longrightarrow> P (f4 t w)"
    and "P w \<Longrightarrow> P (snd (Cluster_Snapshot (cf_Api c) cl ns w))"
  using assms by (auto simp: config_keeps_def)

abbreviation holds :: "('w \<Rightarrow> bool) \<Rightarrow> 'w Agent \<Rightarrow> bool" where "holds P a \<equiv> P (world (ag_st a))"

lemma emit_keeps: "config_keeps c P \<Longrightarrow> holds P a \<Longrightarrow> holds P (emit c ev a)"
  by (simp add: config_keepsD(3))

lemma agent_record_keeps: "config_keeps c P \<Longrightarrow> holds P a \<Longrightarrow> holds P (agent_record c m a)"
  using config_keepsD(4) [of c P] by (simp add: agent_record_def split: option.split)

lemma account_keeps: "config_keeps c P \<Longrightarrow> holds P a \<Longrightarrow> holds P (account c u reason a)"
  using config_keepsD(5) [of c P] by (simp add: account_def split: option.split)

lemma on_turn_keeps: "config_keeps c P \<Longrightarrow> holds P a \<Longrightarrow> holds P (on_turn c start a)"
  using config_keepsD(7) [of c P] by (simp add: on_turn_def split: option.split)

lemma contextCard_keeps: "config_keeps c P \<Longrightarrow> P w \<Longrightarrow> P (snd (contextCard c w))"
  using config_keepsD(8) [of c P w _ "[]"]
  by (auto simp: contextCard_def split: sum.split prod.split) (metis snd_conv)+

lemma assemble_keeps:
  assumes c: "config_keeps c P" and a: "holds P a"
  shows "holds P (assemble c userMsg a)"
proof -
  have 1: "holds P (track_cluster c a)" using a by (simp add: track_cluster_def split: sum.split)
  have 2: "holds P (add_card c (track_cluster c a))"
    using contextCard_keeps [OF c 1] by (simp add: add_card_def split: prod.split) (metis snd_conv)
  have "holds P (add_recall c userMsg (add_card c (track_cluster c a)))"
    using 2 config_keepsD(6) [OF c _ 2, of _ userMsg 5]
    by (auto simp: add_recall_def split: option.split sum.split prod.split)
  then show ?thesis by (auto simp: assemble_def Let_def intro!: agent_record_keeps [OF c])
qed

lemma streamLoop_keeps:
  assumes c: "config_keeps c P" and st: "stream_keeps st P" and a: "holds P a"
    and out: "streamLoop c st m usage final a = Some (res, a')"
  shows "holds P a'"
proof -
  have "ends c st (world (ag_st a))" by (rule streamLoop_ends [OF out])
  from this a out show ?thesis
  proof (induction "world (ag_st a)" arbitrary: a m usage final rule: ends.induct)
    case (stop d err w1)
    have w1: "P w1" using stop.hyps(1) stop.prems(1) st by (metis stream_keeps_def snd_conv)
    obtain m' final' a2 where t: "take_delta c d (m, final, on_world (\<lambda>_. w1) a) = (m', final', a2)"
      by (metis prod.exhaust)
    then have "holds P a2" using w1 config_keepsD(3) [OF c]
      by (auto simp: take_delta_def split: if_splits option.splits)
    with stop t w1 show ?case by (subst (asm) streamLoop.simps) (auto simp: Let_def split: if_splits)
  next
    case (more d w1)
    have w1: "P w1" using more.hyps(1) more.prems(1) st by (metis stream_keeps_def snd_conv)
    obtain m' final' a2 where t: "take_delta c d (m, final, on_world (\<lambda>_. w1) a) = (m', final', a2)"
      by (metis prod.exhaust)
    have w2: "world (ag_st a2) = after_delta c d w1" using take_delta_world [OF t] by simp
    then have "holds P a2" using w1 config_keepsD(3) [OF c] by (simp add: after_delta_def)
    moreover have "streamLoop c st m' (case dl_Usage d of Some u \<Rightarrow> u | None \<Rightarrow> usage) final' a2 = Some (res, a')"
      using more t by (subst (asm) (2) streamLoop.simps) (simp add: Let_def)
    ultimately show ?case using more.hyps(4) [OF w2 [symmetric]] by blast
  qed
qed

lemma streamTurn_keeps:
  assumes c: "config_keeps c P" and a: "holds P a" and out: "streamTurn c req final a = Some (res, a')"
  shows "holds P a'"
proof -
  obtain r w1 where r: "p_Stream (cf_Provider c) req (world (ag_st a)) = (r, w1)" by fastforce
  note w1 = config_keepsD(1) [OF c r a]
  let ?a1 = "(on_world (\<lambda>_. w1) a)\<lparr>ag_requests := ag_requests a @ [req]\<rparr>"
  show ?thesis
  proof (cases r)
    case (Inl e)
    with out r w1 show ?thesis by (auto simp: streamTurn_def)
  next
    case (Inr st)
    from out r Inr obtain a2 where loop: "streamLoop c st (msg RoleAssistant []) zero_Usage final ?a1 = Some (res, a2)"
      and a': "a' = on_world (Close st) a2" by (auto simp: streamTurn_def split: option.splits)
    note st = config_keepsD(2) [OF c r [unfolded Inr] a]
    have "holds P a2" by (rule streamLoop_keeps [OF c st _ loop]) (use w1 in simp)
    with st show ?thesis by (simp add: a' stream_keeps_def)
  qed
qed

text \<open>The tool calls keep it in every session of the mode of the turn.\<close>

definition dispatch_keeps :: "'w Config \<Rightarrow> string \<Rightarrow> ('w \<Rightarrow> bool) \<Rightarrow> bool" where
  "dispatch_keeps c mode P \<longleftrightarrow>
     (\<forall>sp name args s. sp_Mode sp = mode \<longrightarrow> P (world s) \<longrightarrow>
        P (world (snd (Dispatch (cf_Clock c) (cf_Registry c) sp name args s))))"

lemma act_keeps:
  assumes c: "config_keeps c P" and d: "dispatch_keeps c (sp_Mode (ag_sp a)) P" and a: "holds P a"
  shows "holds P (act c tcs a)"
  using d a
proof (induction tcs arbitrary: a)
  case (Cons tc tcs)
  let ?a1 = "emit c (ui_event EventToolStart [] (tc_Name tc) None) a"
  obtain ob a2 where x: "dispatch c tc ?a1 = (ob, a2)" by fastforce
  have "holds P ?a1" by (rule emit_keeps [OF c Cons.prems(2)])
  then have "holds P a2" using Cons.prems(1) by (simp add: dispatch_sel(8) [OF x] dispatch_keeps_def)
  then have "holds P (act_one c tc a)"
    by (simp add: act_one_def Let_def x agent_record_keeps [OF c] config_keepsD(3) [OF c])
  moreover have "sp_Mode (ag_sp (act_one c tc a)) = sp_Mode (ag_sp a)"
    by (simp add: act_one_def Let_def x dispatch_sel(1) [OF x])
  ultimately show ?case using Cons.IH [of "act_one c tc a"] Cons.prems(1) by simp
qed simp

lemma steps_keeps:
  assumes c: "config_keeps c P" and "dispatch_keeps c (sp_Mode (ag_sp a)) P" and "holds P a"
    and "steps c userMsg n inLoop final a = Some (r, a')"
  shows "holds P a'"
  using assms(2-4)
proof (induction n arbitrary: inLoop final a)
  case 0
  then show ?case by (auto simp: config_keepsD(3) [OF c])
next
  case (Suc n)
  show ?case
  proof (cases "cf_Done c (world (ag_st a))")
    case (Some e)
    with Suc.prems show ?thesis by auto
  next
    case None
    let ?dec = "route_step c userMsg inLoop a"
    let ?a1 = "emit c (ui_event EventRouting (ro_Model (de_Routing ?dec) @ '' '' @ em_dash @ '' '' @ ro_Reason (de_Routing ?dec)) [] None) a"
    obtain m usage final' err a2 where st:
      "streamTurn c (step_request c ?dec ?a1) final ?a1 = Some ((m, usage, final', err), a2)"
      using Suc.prems(3) None by (auto simp: Let_def split: option.splits)
    have a2: "holds P a2" by (rule streamTurn_keeps [OF c emit_keeps [OF c Suc.prems(2)] st])
    have sp: "ag_sp a2 = ag_sp a" using streamTurn_adds [OF st] by (auto simp: keeps_turn_def)
    let ?a3 = "observe_step c ?dec m usage a2"
    have a3: "holds P ?a3"
      using account_keeps [OF c] a2 by (auto simp: observe_step_def Let_def intro!: agent_record_keeps [OF c])
    have sp3: "ag_sp ?a3 = ag_sp a" using sp by (simp add: observe_step_def Let_def)
    show ?thesis
    proof (cases "err \<noteq> None \<or> m_ToolCalls m = []")
      case True
      with Suc.prems(3) None st a2 a3 show ?thesis
        by (auto simp: Let_def config_keepsD(3) [OF c] split: option.splits if_splits)
    next
      case False
      have "keeps_turn ?a3 (act c (m_ToolCalls m) ?a3)" using act_adds [of "m_ToolCalls m" c ?a3] by blast
      then have "sp_Mode (ag_sp (act c (m_ToolCalls m) ?a3)) = sp_Mode (ag_sp a)" by (simp add: keeps_turn_def sp3)
      moreover have "holds P (act c (m_ToolCalls m) ?a3)"
        by (rule act_keeps [OF c _ a3]) (use Suc.prems(1) sp3 in simp)
      moreover have "steps c userMsg n True final' (act c (m_ToolCalls m) ?a3) = Some (r, a')"
        using Suc.prems(3) None st False by (simp add: Let_def)
      ultimately show ?thesis using Suc.IH [of "act c (m_ToolCalls m) ?a3"] Suc.prems(1) by simp
    qed
  qed
qed

lemma runLoop_keeps:
  assumes c: "config_keeps c P" and "dispatch_keeps c (sp_Mode (ag_sp a)) P" and "holds P a"
    and "Run c userMsg a = Some (r, a')"
  shows "holds P a'"
proof -
  obtain out err where r: "r = (out, err)" by fastforce
  from assms(4) [unfolded r] obtain a1 where
    st: "steps c userMsg (nat (ag_maxSteps a)) False [] (assemble c userMsg a) = Some ((out, err), a1)"
    and a': "a' = on_turn c (cf_Clock c (world (ag_st a))) a1" by (rule runLoop_steps)
  have "sp_Mode (ag_sp (assemble c userMsg a)) = sp_Mode (ag_sp a)" using assemble_adds [of c userMsg a] by blast
  then have "holds P a1" using steps_keeps [OF c _ assemble_keeps [OF c assms(3)] st] assms(2) by simp
  then show ?thesis by (simp only: a' on_turn_keeps [OF c])
qed

section \<open>The tool calls of the wired program\<close>

definition config_looks :: "'w Config \<Rightarrow> ('w \<Rightarrow> 'v) \<Rightarrow> bool" where
  "config_looks c view \<longleftrightarrow> (\<forall>v. config_keeps c (\<lambda>w. view w = v))"

lemma wired_dispatch_keeps:
  assumes main: "main_registry d ui sink scrub ob = Some (cf_Registry (c :: 'a Config))" and laws: "deps_laws d view"
    and coll: "collaborators_look (cf_Registry c) (\<lambda>w. view w cl ns)"
    and safe: "ns \<in> protected_namespaces \<or> mode = ''read-only''"
  shows "dispatch_keeps c mode (\<lambda>w. view w cl ns = v)"
  unfolding dispatch_keeps_def
proof (intro allI impI)
  fix sp :: SessionPolicy and name args and s :: "'a st"
  assume mode: "sp_Mode sp = mode" and v: "view (world s) cl ns = v"
  obtain r s' where D: "Dispatch (cf_Clock c) (cf_Registry c) sp name args s = (r, s')" by fastforce
  obtain evs where tr: "trace s' = trace s @ evs" using Dispatch_appends [OF D] by blast
  have "view (world s') cl ns = view (world s) cl ns"
  proof (rule ccontr)
    assume "\<not> ?thesis"
    from wired_dispatch_writes [OF main laws coll D tr this]
    obtain t where t: "reached (cf_Registry c) sp name args t evs" "Mutating t" "ns = args_namespace args" by blast
    moreover from t have "policy (cf_Registry c) = Some (Policy_Check DefaultPolicy)"
      using wired_lookup [OF main] by (auto simp: reached_def admitted_def)
    ultimately show False
      using safe mode wired_policy_decision(1) unfolding reached_def admitted_def by metis
  qed
  with v show "view (world (snd (Dispatch (cf_Clock c) (cf_Registry c) sp name args s))) cl ns = v" by (simp add: D)
qed

section \<open>Properties\<close>

text \<open>C26: A whole turn of the agent, whatever the model replies and however many tools it calls, changes nothing in
  the protected namespaces kube-system and kube-node-lease of any cluster; in a read-only session it
  changes nothing in any namespace of any cluster.\<close>

theorem turn_leaves_clusters_alone:
  assumes "main_registry d ui sink scrub ob = Some (cf_Registry c)" and "deps_laws d view"
    and "collaborators_look (cf_Registry c) (\<lambda>w. view w cl ns)" and "config_looks c (\<lambda>w. view w cl ns)"
    and "Run c userMsg a = Some (r, a')"
    and "ns \<in> {''kube-system'', ''kube-node-lease''} \<or> sp_Mode (ag_sp a) = ''read-only''"
  shows "view (world (ag_st a')) cl ns = view (world (ag_st a)) cl ns"
proof -
  let ?P = "\<lambda>w. view w cl ns = view (world (ag_st a)) cl ns"
  have "config_keeps c ?P" using assms(4) by (simp add: config_looks_def)
  moreover have "dispatch_keeps c (sp_Mode (ag_sp a)) ?P"
    by (rule wired_dispatch_keeps [OF assms(1-3)]) (use assms(6) in \<open>simp add: protected_namespaces_def\<close>)
  ultimately show ?thesis by (rule runLoop_keeps [of c ?P a userMsg r a', OF _ _ refl assms(5)])
qed

text \<open>The model insists on scaling a deployment of kube-system, in apply mode.\<close>

definition demo_fleet_config :: "(string \<Rightarrow> string \<Rightarrow> nat) Config" where
  "demo_fleet_config =
     \<lparr>cf_Provider = demo_llm \<lparr>tc_ID = ''c1'', tc_Name = ''kubectl_scale_deployment'', tc_Args = demo_scale_args ''kube-system''\<rparr>,
      cf_Router = demo_router, cf_Registry = demo_wired, cf_Clusters = (\<lambda>_. demo_clusters), cf_Api = demo_fleet_api,
      cf_Session = demo_session ''apply'', cf_MaxSteps = 0, cf_BudgetCents = 0, cf_Persist = None,
      cf_RecordUsage = None, cf_Memory = None, cf_OnTurn = None, cf_Emit = (\<lambda>ev w. w), cf_Clock = (\<lambda>_. 0),
      cf_Done = (\<lambda>_. None)\<rparr>"

lemma demo_fleet_looks: "config_looks demo_fleet_config (\<lambda>w. w cl ns)"
  by (auto simp: config_looks_def config_keeps_def demo_fleet_config_def demo_llm_def stream_keeps_def
      Cluster_Snapshot_def demo_fleet_api_def)

theorem turn_leaves_clusters_alone_witness:
  "\<exists>r a'. Run demo_fleet_config ''scale it'' (New demo_fleet_config demo_world) = Some (r, a') \<and>
     world (ag_st a') ''b'' ''kube-system'' = 0"
proof -
  let ?a = "New demo_fleet_config demo_world"
  obtain ui sink scrub ob where main: "main_registry demo_deps ui sink scrub ob = Some (cf_Registry demo_fleet_config)"
    using demo_wired_main by (auto simp: demo_fleet_config_def)
  have look: "collaborators_look (cf_Registry demo_fleet_config) (\<lambda>w. w ''b'' ''kube-system'')"
    using demo_wired_look by (simp add: demo_fleet_config_def)
  have "steps demo_fleet_config ''scale it'' (nat (ag_maxSteps ?a)) False [] (assemble demo_fleet_config ''scale it'' ?a) \<noteq> None"
    by (rule steps_return) (rule demo_llm_ends, simp add: demo_fleet_config_def)
  then obtain r a' where run: "Run demo_fleet_config ''scale it'' ?a = Some (r, a')" by (auto simp: runLoop_def)
  from turn_leaves_clusters_alone [where view = "\<lambda>w :: string \<Rightarrow> string \<Rightarrow> nat. w" and cl = "''b''" and ns = "''kube-system''",
      OF main demo_deps_laws look demo_fleet_looks run]
  have "world (ag_st a') ''b'' ''kube-system'' = world demo_world ''b'' ''kube-system''" by (simp add: New_def)
  with run show ?thesis by (simp add: demo_world_def)
qed

end
