(* ===== verification/MemoryStore.thy ===== *)
theory MemoryStore
  imports Store Router
begin

text \<open>
  Long-term memory: the vector helpers of internal/store/store.go, the store's \<open>SaveMemory\<close> and
  \<open>RecallMemories\<close> (sqlite.go), and the adapter of the composition root that embeds a text and
  recalls or remembers (\<open>memoryStore\<close> in cmd/voujr/main.go).

  A \<open>float32\<close> is its 32 bits. Where the code computes with it, a parameter \<open>val\<close> gives the number the
  bits stand for and the arithmetic is that of the reals (the program rounds to float64).
\<close>

section \<open>Vectors (store.go)\<close>

definition put_uint32 :: "32 word \<Rightarrow> string" where
  "put_uint32 w = (let n = unat w in
     [char_of (n mod 256), char_of (n div 256 mod 256), char_of (n div 65536 mod 256), char_of (n div 16777216 mod 256)])"

text \<open>An empty vector is a nil slice, which the driver stores as NULL.\<close>

definition encodeVector :: "embedding \<Rightarrow> string option" where
  "encodeVector v = (if v = [] then None else Some (concat (map put_uint32 v)))"

fun decode_bytes :: "string \<Rightarrow> embedding" where
  "decode_bytes (a # b # c # d # rest) =
     word_of_nat (of_char a + 256 * of_char b + 65536 * of_char c + 16777216 * of_char d) # decode_bytes rest"
| "decode_bytes _ = []"

definition decodeVector :: "string option \<Rightarrow> embedding" where
  "decodeVector b = (case b of None \<Rightarrow> [] | Some bs \<Rightarrow> decode_bytes bs)"

lemma bytes_of_32:
  fixes n :: nat
  assumes "n < 4294967296"
  shows "n mod 256 + 256 * (n div 256 mod 256) + 65536 * (n div 65536 mod 256) + 16777216 * (n div 16777216 mod 256) = n"
proof -
  have "n = n mod 256 + 256 * (n div 256)" by simp
  also have "n div 256 = n div 256 mod 256 + 256 * (n div 65536)"
    using mod_mult_div_eq [of "n div 256" 256] by (simp add: div_mult2_eq [of n 256 256, simplified, symmetric])
  also have "n div 65536 = n div 65536 mod 256 + 256 * (n div 16777216)"
    using mod_mult_div_eq [of "n div 65536" 256] by (simp add: div_mult2_eq [of n 65536 256, simplified, symmetric])
  finally show ?thesis using assms by (simp add: mod_less div_less_iff_less_mult)
qed

lemma decode_put [simp]: "decode_bytes (put_uint32 w @ bs) = w # decode_bytes bs"
proof -
  have "unat w < 4294967296" using unsigned_less [of w] by simp
  note sum = bytes_of_32 [OF this]
  have byte: "(of_char (char_of (n mod 256)) :: nat) = n mod 256" for n :: nat by (simp add: take_bit_eq_mod)
  show ?thesis unfolding put_uint32_def Let_def by (simp only: append_Cons append_Nil decode_bytes.simps byte sum) simp
qed

lemma decode_encode_bytes: "decode_bytes (concat (map put_uint32 v)) = v"
  by (induction v) auto

definition cosine :: "(32 word \<Rightarrow> real) \<Rightarrow> embedding \<Rightarrow> embedding \<Rightarrow> real" where
  "cosine val a b =
     (if a = [] \<or> length a \<noteq> length b then 0
      else
        (let dot = (\<Sum>(x, y)\<leftarrow>zip a b. val x * val y);
             na = (\<Sum>x\<leftarrow>a. val x * val x);
             nb = (\<Sum>y\<leftarrow>b. val y * val y)
         in if na = 0 \<or> nb = 0 then 0 else dot / (sqrt na * sqrt nb)))"

lemma cauchy_schwarz_list:
  fixes f :: "'a \<Rightarrow> real"
  assumes "length a = length b"
  shows "(\<Sum>(x, y)\<leftarrow>zip a b. f x * f y)\<^sup>2 \<le> (\<Sum>x\<leftarrow>a. f x * f x) * (\<Sum>y\<leftarrow>b. f y * f y)"
  using assms
proof (induction a b rule: list_induct2)
  case (Cons x a y b)
  let ?d = "\<Sum>(x, y)\<leftarrow>zip a b. f x * f y" and ?p = "\<Sum>x\<leftarrow>a. f x * f x" and ?q = "\<Sum>y\<leftarrow>b. f y * f y"
  have p: "0 \<le> ?p" and q: "0 \<le> ?q" by (auto intro!: sum_list_nonneg)
  have "\<bar>?d\<bar> \<le> sqrt ?p * sqrt ?q"
    using real_sqrt_le_mono [OF Cons.IH] by (simp add: real_sqrt_mult)
  then have "2 * (?d * (f x * f y)) \<le> 2 * ((sqrt ?p * \<bar>f y\<bar>) * (sqrt ?q * \<bar>f x\<bar>))"
    using mult_right_mono [of "\<bar>?d\<bar>" "sqrt ?p * sqrt ?q" "\<bar>f x\<bar> * \<bar>f y\<bar>"] abs_ge_self [of "?d * (f x * f y)"]
    by (simp add: abs_mult mult_ac)
  also have "\<dots> \<le> (sqrt ?p * \<bar>f y\<bar>)\<^sup>2 + (sqrt ?q * \<bar>f x\<bar>)\<^sup>2"
    using sum_squares_bound [of "sqrt ?p * \<bar>f y\<bar>" "sqrt ?q * \<bar>f x\<bar>"] by (simp add: mult_ac)
  also have "\<dots> = ?p * (f y * f y) + ?q * (f x * f x)"
    using p q by (simp add: power_mult_distrib power2_eq_square [of "f _"])
  finally show ?case using Cons.IH by (simp add: power2_eq_square algebra_simps)
qed simp

lemma cosine_bounds: "\<bar>cosine val a b\<bar> \<le> 1"
proof (cases "a = [] \<or> length a \<noteq> length b")
  case False
  let ?d = "\<Sum>(x, y)\<leftarrow>zip a b. val x * val y" and ?p = "\<Sum>x\<leftarrow>a. val x * val x" and ?q = "\<Sum>y\<leftarrow>b. val y * val y"
  have "0 \<le> ?p" "0 \<le> ?q" by (auto intro!: sum_list_nonneg)
  moreover have "\<bar>?d\<bar> \<le> sqrt ?p * sqrt ?q"
    using real_sqrt_le_mono [OF cauchy_schwarz_list [of a b val]] False by (simp add: real_sqrt_mult)
  ultimately show ?thesis using False
    by (auto simp: cosine_def Let_def abs_mult divide_le_eq_1)
qed (auto simp: cosine_def)

section \<open>Memories (sqlite.go)\<close>

record Memory =
  me_ID :: string
  me_SessionID :: string
  me_Kind :: string
  me_Text :: string
  me_Embedding :: embedding

definition SaveMemory :: "Encryptor option \<Rightarrow> env \<Rightarrow> Memory \<Rightarrow> DB \<Rightarrow> go_error option \<times> DB" where
  "SaveMemory cph e m db =
     (let i = (if me_ID m = [] then env_uuid e else me_ID m)
      in case store_enc cph (env_rand e 0) (me_Text m) of
           Inl err \<Rightarrow> (Some err, db)
         | Inr text' \<Rightarrow>
             (case env_fault e 0 of
                Some err \<Rightarrow> (Some err, db)
              | None \<Rightarrow>
                  if i \<in> set (map yr_id (db_memories db)) \<or>
                     \<not> fk_ok (nullStr (me_SessionID m)) (map sr_id (db_sessions db))
                  then (Some constraint_error, db)
                  else (None, db\<lparr>db_memories := db_memories db @
                         [\<lparr>yr_id = i, yr_session = nullStr (me_SessionID m), yr_kind = me_Kind m, yr_text = text',
                           yr_embedding = encodeVector (me_Embedding m), yr_created = env_now e\<rparr>]\<rparr>)))"

text \<open>The rows of a session, or all for the empty id, newest first; a NULL session is in no session.\<close>

definition memory_rows :: "string \<Rightarrow> DB \<Rightarrow> MemoryRow list" where
  "memory_rows sessionID db =
     sort_key (\<lambda>r. - yr_created r)
       (filter (\<lambda>r. sessionID = [] \<or> yr_session r = Some sessionID) (db_memories db))"

definition row_memory :: "Encryptor option \<Rightarrow> string \<Rightarrow> MemoryRow \<Rightarrow> go_error + Memory" where
  "row_memory cph sessionID r =
     (case store_dec cph (yr_text r) of
        Inl err \<Rightarrow> Inl err
      | Inr t \<Rightarrow> Inr \<lparr>me_ID = yr_id r, me_SessionID = sessionID, me_Kind = yr_kind r, me_Text = t,
                    me_Embedding = decodeVector (yr_embedding r)\<rparr>)"

fun rows_memories :: "Encryptor option \<Rightarrow> string \<Rightarrow> MemoryRow list \<Rightarrow> go_error + Memory list" where
  "rows_memories cph sid [] = Inr []"
| "rows_memories cph sid (r # rs) =
     (case row_memory cph sid r of
        Inl err \<Rightarrow> Inl err
      | Inr m \<Rightarrow> (case rows_memories cph sid rs of Inl err \<Rightarrow> Inl err | Inr ms \<Rightarrow> Inr (m # ms)))"

text \<open>Best first when there is a query; at most \<open>k\<close> of them when \<open>k\<close> is positive.\<close>

definition rank_memories :: "(32 word \<Rightarrow> real) \<Rightarrow> embedding \<Rightarrow> Memory list \<Rightarrow> Memory list" where
  "rank_memories val query ms =
     (if query = [] then ms else sort_key (\<lambda>m. - cosine val query (me_Embedding m)) ms)"

definition top_k :: "int \<Rightarrow> 'a list \<Rightarrow> 'a list" where
  "top_k k xs = (if 0 < k \<and> k < int (length xs) then take (nat k) xs else xs)"

definition RecallMemories ::
  "(32 word \<Rightarrow> real) \<Rightarrow> Encryptor option \<Rightarrow> env \<Rightarrow> string \<Rightarrow> embedding \<Rightarrow> int \<Rightarrow> DB \<Rightarrow> go_error + Memory list" where
  "RecallMemories val cph e sessionID query k db =
     (case env_fault e 0 of
        Some err \<Rightarrow> Inl err
      | None \<Rightarrow>
          (case rows_memories cph sessionID (memory_rows sessionID db) of
             Inl err \<Rightarrow> Inl err
           | Inr ms \<Rightarrow> Inr (top_k k (rank_memories val query ms))))"

lemma rows_memories_Inr:
  "rows_memories cph sid rs = Inr ms \<Longrightarrow> list_all2 (\<lambda>r m. row_memory cph sid r = Inr m) rs ms"
  by (induction rs arbitrary: ms) (auto split: sum.splits)

lemma top_k_length: "0 < k \<Longrightarrow> int (length (top_k k xs)) \<le> k"
  by (simp add: top_k_def)

lemma top_k_split: "\<exists>rest. xs = top_k k xs @ rest"
  unfolding top_k_def by (metis append_Nil2 append_take_drop_id)

lemma sorted_prefix_le:
  assumes "sorted (map f (xs @ ys))" "x \<in> set xs" "y \<in> set ys"
  shows "f x \<le> f y"
  using assms by (auto simp: sorted_append)

section \<open>Property\<close>


text \<open>Two memories, the query being one's own vector.\<close>

definition demo_memory :: "string \<Rightarrow> 32 word list \<Rightarrow> Memory" where
  "demo_memory t v = \<lparr>me_ID = t, me_SessionID = [], me_Kind = ''decision'', me_Text = t, me_Embedding = v\<rparr>"

definition demo_memories :: DB where
  "demo_memories = snd (SaveMemory None \<lparr>env_uuid = [], env_now = 2, env_rand = (\<lambda>_. None), env_fault = (\<lambda>_. None)\<rparr>
     (demo_memory ''far'' [1, 0])
     (snd (SaveMemory None \<lparr>env_uuid = [], env_now = 1, env_rand = (\<lambda>_. None), env_fault = (\<lambda>_. None)\<rparr>
        (demo_memory ''near'' [0, 1]) empty_DB)))"

definition demo_env0 :: env where
  "demo_env0 = \<lparr>env_uuid = [], env_now = 3, env_rand = (\<lambda>_. None), env_fault = (\<lambda>_. None)\<rparr>"

lemma demo_memory_rows: "rows_memories None [] (memory_rows [] demo_memories) =
    Inr [demo_memory ''far'' [1, 0], demo_memory ''near'' [0, 1]]"
  by code_simp


section \<open>The adapter of the composition root (main.go)\<close>

text \<open>
  \<open>memoryStore\<close>: recall embeds the query and asks the store for memories of all sessions; remember
  embeds the text and saves it with the session, without a vector if embedding fails. The database
  is part of the world: \<open>db_of\<close> reads it and \<open>put\<close> replaces it; \<open>en\<close> is the environment of the call.
\<close>

definition memoryStore_Recall ::
  "(32 word \<Rightarrow> real) \<Rightarrow> 'w Provider \<Rightarrow> Encryptor option \<Rightarrow> ('w \<Rightarrow> env) \<Rightarrow> ('w \<Rightarrow> DB) \<Rightarrow> string \<Rightarrow> nat \<Rightarrow> 'w \<Rightarrow>
   (go_error + string list) \<times> 'w" where
  "memoryStore_Recall val p cph en db_of query k w =
     (case p_Embed p [query] w of
        (Inl e, w1) \<Rightarrow> (Inl e, w1)
      | (Inr [], w1) \<Rightarrow> (Inr [], w1)
      | (Inr (v # _), w1) \<Rightarrow>
          (case RecallMemories val cph (en w1) [] v (int k) (db_of w1) of
             Inl e \<Rightarrow> (Inl e, w1)
           | Inr ms \<Rightarrow> (Inr (map me_Text ms), w1)))"

definition memoryStore_Remember ::
  "'w Provider \<Rightarrow> Encryptor option \<Rightarrow> ('w \<Rightarrow> env) \<Rightarrow> ('w \<Rightarrow> DB) \<Rightarrow> (DB \<Rightarrow> 'w \<Rightarrow> 'w) \<Rightarrow> string \<Rightarrow>
   string \<Rightarrow> string \<Rightarrow> 'w \<Rightarrow> go_error option \<times> 'w" where
  "memoryStore_Remember p cph en db_of put sessionID kind txt w =
     (let (r, w1) = p_Embed p [txt] w;
          vec = (case r of Inr (v # _) \<Rightarrow> v | _ \<Rightarrow> []);
          (err, db') = SaveMemory cph (en w1)
            \<lparr>me_ID = [], me_SessionID = sessionID, me_Kind = kind, me_Text = txt, me_Embedding = vec\<rparr> (db_of w1)
      in (err, put db' w1))"

text \<open>What is remembered in one session is there for every other: the recalled texts come from all of them.\<close>

lemma decode_encodeVector [simp]: "decodeVector (encodeVector v) = v"
  by (simp add: decodeVector_def encodeVector_def decode_encode_bytes)

lemma SaveMemory_ok:
  assumes "SaveMemory cph e m db = (None, db')"
  obtains t where "store_enc cph (env_rand e 0) (me_Text m) = Inr t"
    "db' = db\<lparr>db_memories := db_memories db @
       [\<lparr>yr_id = (if me_ID m = [] then env_uuid e else me_ID m), yr_session = nullStr (me_SessionID m),
         yr_kind = me_Kind m, yr_text = t, yr_embedding = encodeVector (me_Embedding m), yr_created = env_now e\<rparr>]\<rparr>"
    "(if me_ID m = [] then env_uuid e else me_ID m) \<notin> set (map yr_id (db_memories db))"
    "fk_ok (nullStr (me_SessionID m)) (map sr_id (db_sessions db))"
  using assms by (auto simp: SaveMemory_def Let_def split: sum.splits option.splits if_splits)

lemma SaveMemory_err: "SaveMemory cph e m db = (Some x, db') \<Longrightarrow> db' = db"
  by (auto simp: SaveMemory_def Let_def split: sum.splits option.splits if_splits)

lemma saved_memory_is_recallable:
  assumes "encryptor (store_enc cph) (store_dec cph)" and "SaveMemory cph e m db = (None, db')"
    and "sid = [] \<or> sid = me_SessionID m"
  shows "\<exists>r \<in> set (memory_rows sid db'). row_memory cph sid r =
    Inr \<lparr>me_ID = (if me_ID m = [] then env_uuid e else me_ID m), me_SessionID = sid, me_Kind = me_Kind m,
         me_Text = me_Text m, me_Embedding = me_Embedding m\<rparr>"
proof -
  from assms(2) obtain t where t: "store_enc cph (env_rand e 0) (me_Text m) = Inr t" and db': "db' = db\<lparr>db_memories := db_memories db @
       [\<lparr>yr_id = (if me_ID m = [] then env_uuid e else me_ID m), yr_session = nullStr (me_SessionID m),
         yr_kind = me_Kind m, yr_text = t, yr_embedding = encodeVector (me_Embedding m), yr_created = env_now e\<rparr>]\<rparr>"
    by (rule SaveMemory_ok)
  have "store_dec cph t = Inr (me_Text m)" by (rule encryptor.dec_enc [OF assms(1) t])
  with assms(3) show ?thesis by (auto simp: db' memory_rows_def row_memory_def nullStr_def)
qed

end
