(* ===== verification/SessionManager.thy ===== *)
theory SessionManager
  imports MemoryStore
begin

text \<open>
  The session manager (internal/session): the rolling window of recent messages, the summary the
  evicted ones are folded into (memory.go, summarize.go), and the recall of long-term memories. The
  store and the embedding model are parameters, records of functions on the world.
\<close>

section \<open>The summary (summarize.go)\<close>

definition oneLine :: "string \<Rightarrow> nat \<Rightarrow> string" where
  "oneLine s n =
     (let s1 = map (\<lambda>c. if c = CHR 0x0A then CHR '' '' else c) s
      in if n < length s1 then take n s1 @ ellipsis else s1)"

text \<open>The line one evicted message adds, without its newline; nothing for the other messages.\<close>

definition summary_note :: "Message \<Rightarrow> string" where
  "summary_note m =
     (if m_Role m = RoleUser then ''user asked: '' @ oneLine (m_Content m) 120
      else if m_Role m = RoleAssistant then
        (if m_ToolCalls m \<noteq> [] then ''agent called: '' @ join '', '' (map tc_Name (m_ToolCalls m))
         else if m_Content m \<noteq> [] then ''agent concluded: '' @ oneLine (m_Content m) 160
         else [])
      else [])"

definition summary_line :: "Message \<Rightarrow> string" where
  "summary_line m = (if summary_note m = [] then [] else summary_note m @ newline)"

definition foldSummary :: "string \<Rightarrow> Message list \<Rightarrow> string" where
  "foldSummary prev evicted =
     trim_space ((if prev \<noteq> [] then prev @ newline else []) @ concat (map summary_line evicted))"

section \<open>The manager (memory.go)\<close>

record 'w SessionStore =
  ss_AppendMessage :: "string \<Rightarrow> Message \<Rightarrow> 'w \<Rightarrow> go_error option \<times> 'w"
  ss_SaveMemory :: "Memory \<Rightarrow> 'w \<Rightarrow> go_error option \<times> 'w"
  ss_RecallMemories :: "string \<Rightarrow> embedding \<Rightarrow> int \<Rightarrow> 'w \<Rightarrow> (go_error + Memory list) \<times> 'w"

record Manager =
  mg_sessionID :: string
  mg_window :: "Message list"
  mg_maxWindow :: int
  mg_summary :: string

definition NewManager :: "string \<Rightarrow> int \<Rightarrow> Manager" where
  "NewManager sessionID maxWindow =
     \<lparr>mg_sessionID = sessionID, mg_window = [], mg_maxWindow = (if maxWindow = 0 then 40 else maxWindow),
      mg_summary = []\<rparr>"

text \<open>
  \<open>Append\<close>. With a negative \<open>maxWindow\<close> the slice reaches past the length of the window: it panics
  (or reads beyond the length, up to the capacity), which is \<open>None\<close> here.
\<close>

definition shift_window :: "Message \<Rightarrow> Manager \<Rightarrow> Manager option" where
  "shift_window m mg =
     (let window = mg_window mg @ [m];
          n = int (length window) - mg_maxWindow mg
      in if n > 0 then
           (if n > int (length window) then None
            else Some (mg\<lparr>mg_summary := foldSummary (mg_summary mg) (take (nat n) window),
                          mg_window := drop (nat n) window\<rparr>))
         else Some (mg\<lparr>mg_window := window\<rparr>))"

definition Manager_Append ::
  "'w SessionStore \<Rightarrow> Message \<Rightarrow> Manager \<Rightarrow> 'w \<Rightarrow> (go_error option \<times> Manager \<times> 'w) option" where
  "Manager_Append store m mg w =
     (case shift_window m mg of
        None \<Rightarrow> None
      | Some mg1 \<Rightarrow> (case ss_AppendMessage store (mg_sessionID mg) m w of (err, w1) \<Rightarrow> Some (err, mg1, w1)))"

definition Manager_recall ::
  "'w Provider \<Rightarrow> 'w SessionStore \<Rightarrow> Manager \<Rightarrow> string \<Rightarrow> int \<Rightarrow> 'w \<Rightarrow> (go_error + Memory list) \<times> 'w" where
  "Manager_recall p store mg query k w =
     (case p_Embed p [query] w of
        (Inl e, w1) \<Rightarrow> (Inl e, w1)
      | (Inr [], w1) \<Rightarrow> (Inr [], w1)
      | (Inr (v # _), w1) \<Rightarrow>
          (case ss_RecallMemories store (mg_sessionID mg) v k w1 of
             (Inl e, w2) \<Rightarrow> (Inl e, w2)
           | (Inr ms, w2) \<Rightarrow> (Inr (sort_key me_Text ms), w2)))"

definition bullets :: "Memory list \<Rightarrow> string" where
  "bullets ms = concat (map (\<lambda>m. ''- '' @ me_Text m @ newline) ms)"

definition PromptContext ::
  "'w Provider \<Rightarrow> 'w SessionStore \<Rightarrow> Manager \<Rightarrow> string \<Rightarrow> 'w \<Rightarrow> (Message list \<times> go_error option) \<times> 'w" where
  "PromptContext p store mg userMsg w =
     (let out = (if mg_summary mg \<noteq> []
                 then [msg RoleSystem (''[summary of earlier conversation]'' @ newline @ mg_summary mg)] else []);
          (r, w1) = Manager_recall p store mg userMsg 5 w
      in case r of
           Inr (m # ms) \<Rightarrow>
             ((out @ [msg RoleSystem (''[recalled operational memory]'' @ newline @ bullets (m # ms))], None), w1)
         | _ \<Rightarrow> ((out, None), w1))"

definition Manager_Remember ::
  "'w Provider \<Rightarrow> 'w SessionStore \<Rightarrow> Manager \<Rightarrow> string \<Rightarrow> string \<Rightarrow> 'w \<Rightarrow> go_error option \<times> 'w" where
  "Manager_Remember p store mg kind txt w =
     (case p_Embed p [txt] w of
        (Inl e, w1) \<Rightarrow> (Some e, w1)
      | (Inr embs, w1) \<Rightarrow>
          ss_SaveMemory store
            \<lparr>me_ID = [], me_SessionID = mg_sessionID mg, me_Kind = kind, me_Text = txt,
             me_Embedding = (case embs of [] \<Rightarrow> [] | v # _ \<Rightarrow> v)\<rparr> w1)"

section \<open>Folding in steps and at once\<close>

definition solid :: "string \<Rightarrow> bool" where
  "solid s \<longleftrightarrow> s \<noteq> [] \<and> \<not> is_space (hd s) \<and> \<not> is_space (last s)"

lemma dropWhile_solid: "solid s \<Longrightarrow> dropWhile is_space s = s"
  by (cases s) (simp_all add: solid_def)

lemma dropWhile_rev_solid: "solid s \<Longrightarrow> dropWhile is_space (rev s) = rev s"
  by (cases s rule: rev_cases) (simp_all add: solid_def)

lemma is_space_newline [simp]: "is_space (CHR 0x0A)"
  by code_simp

lemma trim_solid_newline: "solid s \<Longrightarrow> trim_space (s @ newline) = s"
proof -
  assume s: "solid s"
  then have "dropWhile is_space (s @ newline) = s @ newline" by (cases s) (auto simp: solid_def)
  with dropWhile_rev_solid [OF s] show ?thesis by (simp add: trim_space_def newline_def)
qed

lemma solid_join:
  "xs \<noteq> [] \<Longrightarrow> list_all solid xs \<Longrightarrow> solid (join sep xs)"
  by (induction sep xs rule: join.induct) (auto simp: solid_def)

lemma concat_lines:
  "xs \<noteq> [] \<Longrightarrow> concat (map (\<lambda>x. x @ newline) xs) = join newline xs @ newline"
  by (induction newline xs rule: join.induct) auto

lemma join_append:
  "xs \<noteq> [] \<Longrightarrow> ys \<noteq> [] \<Longrightarrow> join sep (xs @ ys) = join sep xs @ sep @ join sep ys"
proof (induction sep xs rule: join.induct)
  case (2 sep x)
  then show ?case by (cases ys) auto
qed auto

text \<open>The notes of messages, and the messages whose notes do not end in white space.\<close>

definition note_list :: "Message list \<Rightarrow> string list" where
  "note_list ms = filter (\<lambda>n. n \<noteq> []) (map summary_note ms)"

definition tidy :: "Message \<Rightarrow> bool" where
  "tidy m \<longleftrightarrow> summary_note m = [] \<or> \<not> is_space (last (summary_note m))"

lemma summary_note_start: "summary_note m \<noteq> [] \<Longrightarrow> hd (summary_note m) \<in> {CHR ''u'', CHR ''a''}"
  by (auto simp: summary_note_def split: if_splits)

lemma letters_solid: "\<not> is_space (CHR ''u'')" "\<not> is_space (CHR ''a'')"
  by code_simp+

lemma solid_note: "tidy m \<Longrightarrow> summary_note m \<noteq> [] \<Longrightarrow> solid (summary_note m)"
  using summary_note_start [of m] letters_solid by (auto simp: tidy_def solid_def)

lemma solid_notes: "list_all tidy ms \<Longrightarrow> list_all solid (note_list ms)"
  by (auto simp: note_list_def list_all_iff solid_note)

lemma concat_summary_lines: "concat (map summary_line ms) = concat (map (\<lambda>x. x @ newline) (note_list ms))"
  by (induction ms) (auto simp: note_list_def summary_line_def)

lemma foldSummary_notes:
  assumes "list_all solid xs" and "list_all tidy ms"
  shows "foldSummary (join newline xs) ms = join newline (xs @ note_list ms)"
proof -
  have n: "list_all solid (note_list ms)" by (rule solid_notes [OF assms(2)])
  let ?pre = "if join newline xs \<noteq> [] then join newline xs @ newline else []"
  have pre: "?pre = (if xs = [] then [] else join newline xs @ newline)"
    using solid_join [OF _ assms(1), of newline] by (auto simp: solid_def)
  show ?thesis
  proof (cases "xs @ note_list ms = []")
    case True
    then show ?thesis by (simp add: foldSummary_def concat_summary_lines trim_space_def)
  next
    case False
    have "?pre @ concat (map summary_line ms) = join newline (xs @ note_list ms) @ newline"
      unfolding pre concat_summary_lines
      by (cases "xs = []"; cases "note_list ms = []") (use False in \<open>simp_all add: concat_lines join_append\<close>)
    moreover have "solid (join newline (xs @ note_list ms))" using False assms(1) n by (intro solid_join) auto
    ultimately show ?thesis by (simp only: foldSummary_def trim_solid_newline)
  qed
qed

lemma foldSummary_Nil: "list_all tidy ms \<Longrightarrow> foldSummary [] ms = join newline (note_list ms)"
  using foldSummary_notes [of "[]" ms] by simp

lemma foldSummary_steps:
  assumes "list_all tidy (ms @ ms')"
  shows "foldSummary (foldSummary [] ms) ms' = foldSummary [] (ms @ ms')"
proof -
  have "foldSummary (join newline (note_list ms)) ms' = join newline (note_list ms @ note_list ms')"
    using assms by (intro foldSummary_notes) (auto intro: solid_notes)
  with assms show ?thesis by (simp add: foldSummary_Nil) (simp add: note_list_def)
qed

text \<open>Appending a run of messages.\<close>

fun append_run :: "'w SessionStore \<Rightarrow> Message list \<Rightarrow> Manager \<Rightarrow> 'w \<Rightarrow> (Manager \<times> 'w) option" where
  "append_run store [] mg w = Some (mg, w)"
| "append_run store (m # ms) mg w =
     (case Manager_Append store m mg w of
        None \<Rightarrow> None
      | Some (err, mg1, w1) \<Rightarrow> append_run store ms mg1 w1)"

text \<open>What the manager holds after the messages \<open>past\<close>.\<close>

definition holds :: "nat \<Rightarrow> Message list \<Rightarrow> Manager \<Rightarrow> bool" where
  "holds n past mg \<longleftrightarrow> mg_maxWindow mg = int n \<and> mg_window mg = drop (length past - n) past \<and>
     (list_all tidy past \<longrightarrow> mg_summary mg = foldSummary [] (take (length past - n) past))"

lemma shift_window_holds:
  assumes "holds n past mg"
  shows "\<exists>mg'. shift_window m mg = Some mg' \<and> holds n (past @ [m]) mg'"
proof (cases "length past < n")
  case True
  then have "foldSummary [] [] = ([] :: string)" by (simp add: foldSummary_def trim_space_def)
  with True assms show ?thesis by (auto simp: shift_window_def holds_def Let_def)
next
  case False
  let ?j = "length past - n"
  have w: "mg_window mg = drop ?j past" "mg_maxWindow mg = int n" using assms by (simp_all add: holds_def)
  have len: "length (mg_window mg @ [m]) = Suc n" using False by (simp add: w)
  have ev: "take ?j past @ take 1 (drop ?j past @ [m]) = take (Suc ?j) (past @ [m])"
  proof -
    have "take ?j past = take ?j (past @ [m])" "drop ?j past @ [m] = drop ?j (past @ [m])" using False by auto
    then show ?thesis by (simp add: take_add [symmetric] del: take_append drop_append)
  qed
  let ?mg = "mg\<lparr>mg_summary := foldSummary (mg_summary mg) (take 1 (mg_window mg @ [m])), mg_window := drop 1 (mg_window mg @ [m])\<rparr>"
  have "shift_window m mg = Some ?mg" by (simp add: shift_window_def Let_def w(2) len [simplified])
  moreover have "holds n (past @ [m]) ?mg"
  proof -
    have upd: "mg_maxWindow ?mg = mg_maxWindow mg" "mg_window ?mg = drop 1 (drop ?j past @ [m])"
      "mg_summary ?mg = foldSummary (mg_summary mg) (take 1 (drop ?j past @ [m]))"
      by (simp_all add: w(1))
    have "drop ?j past @ [m] = drop ?j (past @ [m])" by simp
    then have "drop 1 (drop ?j past @ [m]) = drop (Suc ?j) (past @ [m])"
      by (simp only: drop_drop plus_1_eq_Suc)
    moreover have "foldSummary (mg_summary mg) (take 1 (drop ?j past @ [m])) = foldSummary [] (take (Suc ?j) (past @ [m]))"
      if "list_all tidy (past @ [m])"
    proof -
      have "list_all tidy (take (Suc ?j) (past @ [m]))" using that by (metis append_take_drop_id list_all_append)
      with foldSummary_steps [of "take ?j past" "take 1 (drop ?j past @ [m])"] assms that show ?thesis
        by (simp only: holds_def ev list_all_append)
    qed
    moreover have "length (past @ [m]) - n = Suc ?j" using False by simp
    ultimately show ?thesis using w(2) by (simp only: holds_def upd) blast
  qed
  ultimately show ?thesis by blast
qed

lemma append_run_holds:
  assumes "holds n past mg"
  shows "\<exists>mg' w'. append_run store ms mg w = Some (mg', w') \<and> holds n (past @ ms) mg'"
  using assms
proof (induction ms arbitrary: past mg w)
  case (Cons m ms)
  from shift_window_holds [OF Cons.prems] obtain mg1 where 1: "shift_window m mg = Some mg1" "holds n (past @ [m]) mg1"
    by blast
  from Cons.IH [OF 1(2)] 1(1) show ?case
    by (auto simp: Manager_Append_def split: prod.split)
qed simp

section \<open>Properties\<close>


text \<open>The prompt of a session is deterministic and never fails: it has at most two messages, both of the system
  role, the summary and the recalled memories; and it does not depend on the order in which the store
  returns the memories it recalls.\<close>

theorem prompt_context_is_deterministic:
  assumes "Manager_recall p store mg userMsg 5 w = (r, w1)" and "Manager_recall p store' mg userMsg 5 w = (r', w1)"
    and "rel_sum (=) (\<lambda>ms ms'. mset (map me_Text ms) = mset (map me_Text ms')) r r'"
  shows "PromptContext p store mg userMsg w = PromptContext p store' mg userMsg w \<and>
    (\<exists>out. PromptContext p store mg userMsg w = ((out, None), w1) \<and> length out \<le> 2 \<and>
       (\<forall>m \<in> set out. m_Role m = RoleSystem))"
proof -
  have sorted: "sorted (map me_Text ms)" if "Manager_recall p st mg userMsg 5 w = (Inr ms, w1)" for st ms
    using that by (auto simp: Manager_recall_def split: prod.splits sum.splits list.splits)
  have same: "map me_Text ms = map me_Text ms'" if "r = Inr ms" "r' = Inr ms'" for ms ms'
  proof -
    have "mset (map me_Text ms) = mset (map me_Text ms')" using assms(3) that by simp
    then have "sort (map me_Text ms) = map me_Text ms'"
      using sorted [of store' ms'] assms(2) that(2) by (intro properties_for_sort) auto
    with sorted [of store ms] assms(1) that(1) show ?thesis by (simp add: sorted_sort_id)
  qed
  have eq: "PromptContext p store mg userMsg w = PromptContext p store' mg userMsg w"
  proof (cases r)
    case (Inl e)
    with assms show ?thesis by (cases r') (simp_all add: PromptContext_def)
  next
    case (Inr ms)
    with assms(3) obtain ms' where r': "r' = Inr ms'" by (cases r') auto
    have "bullets xs = concat (map (\<lambda>t. ''- '' @ t @ newline) (map me_Text xs))" for xs
      by (simp add: bullets_def comp_def)
    then have "bullets ms = bullets ms'" using same [OF Inr r'] by (simp only:)
    moreover have "ms = [] \<longleftrightarrow> ms' = []" using same [OF Inr r'] by auto
    ultimately show ?thesis using assms(1,2) Inr r'
      by (cases ms; cases ms') (simp_all add: PromptContext_def)
  qed
  moreover have "\<exists>out. PromptContext p store mg userMsg w = ((out, None), w1) \<and> length out \<le> 2 \<and>
       (\<forall>m \<in> set out. m_Role m = RoleSystem)"
    using assms(1) by (auto simp: PromptContext_def Let_def split: sum.split list.split)
  ultimately show ?thesis by blast
qed

definition demo_session_store :: "bool \<Rightarrow> nat SessionStore" where
  "demo_session_store flip =
     (let ms = map (\<lambda>t. \<lparr>me_ID = t, me_SessionID = ''s'', me_Kind = ''decision'', me_Text = t, me_Embedding = []\<rparr>)
                 (if flip then [''b'', ''a''] else [''a'', ''b''])
      in \<lparr>ss_AppendMessage = (\<lambda>sid m w. (None, w + 1)), ss_SaveMemory = (\<lambda>m w. (None, w + 1)),
          ss_RecallMemories = (\<lambda>sid v k w. (Inr ms, w))\<rparr>)"

definition demo_embedder :: "nat Provider" where
  "demo_embedder = (demo_provider (Inr demo_response))\<lparr>p_Embed := (\<lambda>xs w. (Inr [[1]], w))\<rparr>"


theorem prompt_context_is_deterministic_witness:
  "PromptContext demo_embedder (demo_session_store True) (NewManager ''s'' 1) ''q'' 0 =
     PromptContext demo_embedder (demo_session_store False) (NewManager ''s'' 1) ''q'' 0"
proof -
  obtain r r' where r: "Manager_recall demo_embedder (demo_session_store True) (NewManager ''s'' 1) ''q'' 5 0 = (r, 0)"
    "Manager_recall demo_embedder (demo_session_store False) (NewManager ''s'' 1) ''q'' 5 0 = (r', 0)"
    "rel_sum (=) (\<lambda>ms ms'. mset (map me_Text ms) = mset (map me_Text ms')) r r'"
    by (simp add: Manager_recall_def demo_embedder_def demo_session_store_def Let_def)
  from prompt_context_is_deterministic [OF this] show ?thesis by simp
qed

end
