(* ===== verification/FindingStore.thy ===== *)
theory FindingStore
  imports Store AuditEngine
begin

text \<open>
  The store's audit findings and usage accounting (internal/store/sqlite.go): the upsert of a
  finding by its dedup key, the count of open findings, and the record of a model call.
\<close>

section \<open>Findings\<close>

text \<open>The JSON of the two nested structs; an absent map of fix arguments is \<open>null\<close>.\<close>

definition remediation_json :: "Remediation \<Rightarrow> json" where
  "remediation_json r =
     JObj [(''Summary'', JStr (rm_Summary r)), (''KubectlEquivalent'', JStr (rm_KubectlEquivalent r)),
           (''AutoFixTool'', JStr (rm_AutoFixTool r)),
           (''AutoFixArgs'', if rm_AutoFixArgs r = [] then JNull else JObj (sort_key fst (rm_AutoFixArgs r)))]"

definition resource_json :: "ResourceRef \<Rightarrow> json" where
  "resource_json r =
     JObj [(''Cluster'', JStr (rr_Cluster r)), (''Namespace'', JStr (rr_Namespace r)),
           (''Kind'', JStr (rr_Kind r)), (''Name'', JStr (rr_Name r))]"

text \<open>The row inserted for a new finding, and what the upsert changes in an existing one.\<close>

definition new_finding :: "env \<Rightarrow> string \<Rightarrow> Finding \<Rightarrow> FindingRow" where
  "new_finding e clusterID f =
     \<lparr>fr_id = env_uuid e, fr_cluster = nullStr clusterID, fr_dedup = DedupKey f, fr_category = fd_Category f,
      fr_rule = fd_RuleID f, fr_severity = fd_Severity f, fr_resource = json_text (resource_json (fd_Resource f)),
      fr_title = fd_Title f, fr_impact = fd_Impact f, fr_root_cause = fd_RootCause f,
      fr_remediation = json_text (remediation_json (fd_Remediation f)),
      fr_autofixable = boolToInt (Autofixable f), fr_savings = fd_SavingsCents f, fr_status = ''open'',
      fr_first_seen = env_now e, fr_last_seen = env_now e\<rparr>"

definition refresh_finding :: "env \<Rightarrow> Finding \<Rightarrow> FindingRow \<Rightarrow> FindingRow" where
  "refresh_finding e f r =
     r\<lparr>fr_last_seen := env_now e, fr_severity := fd_Severity f, fr_title := fd_Title f, fr_impact := fd_Impact f,
       fr_root_cause := fd_RootCause f, fr_remediation := json_text (remediation_json (fd_Remediation f))\<rparr>"

definition SaveFinding :: "env \<Rightarrow> string \<Rightarrow> Finding \<Rightarrow> DB \<Rightarrow> go_error option \<times> DB" where
  "SaveFinding e clusterID f db =
     (case env_fault e 0 of
        Some err \<Rightarrow> (Some err, db)
      | None \<Rightarrow>
          if DedupKey f \<in> set (map fr_dedup (db_findings db))
          then (None, db\<lparr>db_findings :=
                 map (\<lambda>r. if fr_dedup r = DedupKey f then refresh_finding e f r else r) (db_findings db)\<rparr>)
          else if env_uuid e \<in> set (map fr_id (db_findings db)) \<or>
                  \<not> fk_ok (nullStr clusterID) (map cr_id (db_clusters db))
          then (Some constraint_error, db)
          else (None, db\<lparr>db_findings := db_findings db @ [new_finding e clusterID f]\<rparr>))"

definition OpenFindingCount :: "env \<Rightarrow> DB \<Rightarrow> go_error + nat" where
  "OpenFindingCount e db =
     (case env_fault e 0 of
        Some err \<Rightarrow> Inl err
      | None \<Rightarrow> Inr (length (filter (\<lambda>r. fr_status r \<noteq> ''resolved'') (db_findings db))))"

text \<open>The findings as a map from dedup keys, and what a successful save does to it.\<close>

definition finding_of :: "DB \<Rightarrow> string \<Rightarrow> FindingRow option" where
  "finding_of db k = find (\<lambda>r. fr_dedup r = k) (db_findings db)"

definition findings_unique :: "DB \<Rightarrow> bool" where
  "findings_unique db \<longleftrightarrow> distinct (map fr_dedup (db_findings db))"

lemma refresh_sel [simp]:
  "fr_id (refresh_finding e f r) = fr_id r" "fr_dedup (refresh_finding e f r) = fr_dedup r"
  "fr_status (refresh_finding e f r) = fr_status r" "fr_first_seen (refresh_finding e f r) = fr_first_seen r"
  "fr_cluster (refresh_finding e f r) = fr_cluster r" "fr_last_seen (refresh_finding e f r) = env_now e"
  "fr_severity (refresh_finding e f r) = fd_Severity f"
  by (simp_all add: refresh_finding_def)

lemma new_finding_sel [simp]:
  "fr_id (new_finding e c f) = env_uuid e" "fr_dedup (new_finding e c f) = DedupKey f"
  "fr_status (new_finding e c f) = ''open''" "fr_first_seen (new_finding e c f) = env_now e"
  "fr_last_seen (new_finding e c f) = env_now e" "fr_cluster (new_finding e c f) = nullStr c"
  "fr_severity (new_finding e c f) = fd_Severity f"
  by (simp_all add: new_finding_def)

lemma find_map_key:
  "(\<And>r. key (g r) = key r) \<Longrightarrow>
     find (\<lambda>r. key r = k) (map (\<lambda>r. if key r = k' then g r else r) rs) =
       (if k = k' then map_option g (find (\<lambda>r. key r = k) rs) else find (\<lambda>r. key r = k) rs)"
  by (induction rs) auto

lemma find_None_iff_key: "find (\<lambda>r. key r = k) rs = None \<longleftrightarrow> k \<notin> set (map key rs)"
  by (auto simp: find_None_iff)

lemma SaveFinding_cases:
  assumes "SaveFinding e c f db = (res, db')"
  obtains
    (failed) err where "res = Some err" "db' = db"
  | (updated) r where "res = None" "finding_of db (DedupKey f) = Some r"
      "finding_of db' = (finding_of db)(DedupKey f \<mapsto> refresh_finding e f r)"
      "map fr_dedup (db_findings db') = map fr_dedup (db_findings db)"
      "map fr_id (db_findings db') = map fr_id (db_findings db)"
      "map fr_cluster (db_findings db') = map fr_cluster (db_findings db)"
      "db' = db\<lparr>db_findings := db_findings db'\<rparr>"
  | (inserted) "res = None" "finding_of db (DedupKey f) = None"
      "finding_of db' = (finding_of db)(DedupKey f \<mapsto> new_finding e c f)"
      "db' = db\<lparr>db_findings := db_findings db @ [new_finding e c f]\<rparr>"
      "env_uuid e \<notin> set (map fr_id (db_findings db))" "fk_ok (nullStr c) (map cr_id (db_clusters db))"
proof (cases "env_fault e 0")
  case (Some err)
  with assms have "res = Some err" "db' = db" by (auto simp: SaveFinding_def)
  then show ?thesis by (rule failed)
next
  case None
  show ?thesis
  proof (cases "DedupKey f \<in> set (map fr_dedup (db_findings db))")
    case True
    let ?rows = "map (\<lambda>r. if fr_dedup r = DedupKey f then refresh_finding e f r else r) (db_findings db)"
    from assms None True have db': "res = None" "db' = db\<lparr>db_findings := ?rows\<rparr>" by (auto simp: SaveFinding_def)
    from True obtain r where r: "finding_of db (DedupKey f) = Some r"
      unfolding finding_of_def by (metis find_None_iff_key not_None_eq)
    have "finding_of db' = (finding_of db)(DedupKey f \<mapsto> refresh_finding e f r)"
      using r by (auto simp: fun_eq_iff finding_of_def db' find_map_key)
    with r show ?thesis by (intro updated) (auto simp: db' comp_def)
  next
    case False
    then have none: "finding_of db (DedupKey f) = None" by (simp only: finding_of_def find_None_iff_key not_False_eq_True)
    show ?thesis
    proof (cases "env_uuid e \<in> set (map fr_id (db_findings db)) \<or> \<not> fk_ok (nullStr c) (map cr_id (db_clusters db))")
      case True
      with assms None False failed show ?thesis by (auto simp: SaveFinding_def)
    next
      case ok: False
      with assms None False have db': "res = None" "db' = db\<lparr>db_findings := db_findings db @ [new_finding e c f]\<rparr>"
        by (auto simp: SaveFinding_def)
      have "finding_of db' = (finding_of db)(DedupKey f \<mapsto> new_finding e c f)"
        using none by (auto simp: fun_eq_iff finding_of_def db' find_append split: option.split)
      with ok db' none show ?thesis by (intro inserted) auto
    qed
  qed
qed

lemma SaveFinding_unique:
  assumes "findings_unique db" and "SaveFinding e c f db = (res, db')"
  shows "findings_unique db'"
  using assms(2)
proof (cases rule: SaveFinding_cases)
  case inserted
  then have "find (\<lambda>r. fr_dedup r = DedupKey f) (db_findings db) = None" by (simp only: finding_of_def)
  from iffD1 [OF find_None_iff_key this] have "DedupKey f \<notin> set (map fr_dedup (db_findings db))" .
  with inserted(4) assms(1) show ?thesis by (simp add: findings_unique_def)
qed (use assms(1) in \<open>simp_all add: findings_unique_def\<close>)

section \<open>Usage\<close>

definition RecordUsage :: "env \<Rightarrow> string \<Rightarrow> string \<Rightarrow> Usage \<Rightarrow> string \<Rightarrow> DB \<Rightarrow> go_error option \<times> DB" where
  "RecordUsage e sessionID provider u routeReason db =
     (case env_fault e 0 of
        Some err \<Rightarrow> (Some err, db)
      | None \<Rightarrow>
          if env_uuid e \<in> set (map gr_id (db_usage db)) \<or> \<not> fk_ok (nullStr sessionID) (map sr_id (db_sessions db))
          then (Some constraint_error, db)
          else (None, db\<lparr>db_usage := db_usage db @
            [\<lparr>gr_id = env_uuid e, gr_session = nullStr sessionID, gr_provider = provider, gr_model = u_Model u,
              gr_in = u_InputTokens u, gr_out = u_OutputTokens u, gr_cost = u_CostCents u,
              gr_reason = nullStr routeReason\<rparr>]\<rparr>))"

section \<open>Property\<close>

text \<open>C30: A recurring finding is tracked, not duplicated: a save either fails and changes nothing, or leaves exactly
  one row under the finding's dedup key. If the key is new the row is open, first and last seen now;
  if it was there, its id, cluster, status and first-seen time stay and its severity and last-seen
  time are the finding's and now. The findings under all other keys are untouched.\<close>

theorem findings_are_deduplicated:
  assumes "findings_unique db" and "SaveFinding e c f db = (res, db')"
  shows "(res \<noteq> None \<longrightarrow> db' = db) \<and>
    (res = None \<longrightarrow> (\<exists>r. finding_of db' = (finding_of db)(DedupKey f \<mapsto> r) \<and> fr_severity r = fd_Severity f \<and>
       fr_last_seen r = env_now e \<and>
       (case finding_of db (DedupKey f) of
          None \<Rightarrow> fr_status r = ''open'' \<and> fr_first_seen r = env_now e \<and> fr_id r = env_uuid e
        | Some old \<Rightarrow> fr_status r = fr_status old \<and> fr_first_seen r = fr_first_seen old \<and> fr_id r = fr_id old \<and>
                      fr_cluster r = fr_cluster old))) \<and>
    findings_unique db'"
  using assms(2) SaveFinding_unique [OF assms] by (cases rule: SaveFinding_cases) auto

definition demo_finding :: "Severity \<Rightarrow> Finding" where
  "demo_finding sev = dep_finding ''r'' Cost sev ''t'' ''i'' ''c'' (remedy ''s'' ''k'') 0 demo_snapshot demo_deployment"

definition at_time :: "string \<Rightarrow> int \<Rightarrow> env" where
  "at_time uuid now = \<lparr>env_uuid = uuid, env_now = now, env_rand = (\<lambda>_. None), env_fault = (\<lambda>_. None)\<rparr>"

theorem findings_are_deduplicated_witness:
  "\<exists>db1 db2 r. SaveFinding (at_time ''a'' 1) [] (demo_finding P3) empty_DB = (None, db1) \<and>
     SaveFinding (at_time ''b'' 2) [] (demo_finding P1) db1 = (None, db2) \<and> length (db_findings db2) = 1 \<and>
     finding_of db2 (DedupKey (demo_finding P1)) = Some r \<and> fr_id r = ''a'' \<and> fr_severity r = P1"
proof -
  let ?db1 = "empty_DB\<lparr>db_findings := [new_finding (at_time ''a'' 1) [] (demo_finding P3)]\<rparr>"
  have key: "DedupKey (demo_finding P1) = DedupKey (demo_finding P3)" by code_simp
  have 1: "SaveFinding (at_time ''a'' 1) [] (demo_finding P3) empty_DB = (None, ?db1)"
    by (simp add: SaveFinding_def at_time_def empty_DB_def fk_ok_def nullStr_def)
  have old: "finding_of ?db1 (DedupKey (demo_finding P1)) = Some (new_finding (at_time ''a'' 1) [] (demo_finding P3))"
    by (simp add: finding_of_def key)
  obtain db2 where 2: "SaveFinding (at_time ''b'' 2) [] (demo_finding P1) ?db1 = (None, db2)" "length (db_findings db2) = 1"
    by (simp add: SaveFinding_def at_time_def key)
  have "findings_unique ?db1" by (simp add: findings_unique_def)
  from findings_are_deduplicated [OF this 2(1)] obtain r where
    "finding_of db2 (DedupKey (demo_finding P1)) = Some r" "fr_id r = ''a''" "fr_severity r = P1"
    using old by (auto simp: at_time_def demo_finding_def)
  with 1 2 show ?thesis by blast
qed

end
