(* ===== verification/Incident.thy ===== *)
theory Incident
  imports FindingStore
begin

text \<open>
  Alerting (internal/incident): findings at or above a threshold go to Slack and PagerDuty.

  The HTTP client is the parameter \<open>Poster\<close>: whether a request for a URL can be built at all, and
  what sending one does to the world and returns (a transport error or a status). The state threads
  the world and the log of the requests handed to the client, which nothing reads.
\<close>

section \<open>The client\<close>

record HttpPost =
  hp_URL :: string
  hp_Headers :: "(string \<times> string) list"
  hp_Body :: string

record 'w Poster =
  po_Request :: "string \<Rightarrow> go_error option"
  po_Do :: "HttpPost \<Rightarrow> 'w \<Rightarrow> (go_error + int) \<times> 'w"

record 'w out =
  ow_world :: 'w
  ow_sent :: "HttpPost list"

definition json_post :: "string \<Rightarrow> string \<Rightarrow> HttpPost" where
  "json_post url body =
     \<lparr>hp_URL = url, hp_Headers = [(''Content-Type'', ''application/json'')], hp_Body = body\<rparr>"

text \<open>What \<open>postSlack\<close> and \<open>triggerPagerDuty\<close> share: build, send, look at the status.\<close>

definition send_json :: "'w Poster \<Rightarrow> string \<Rightarrow> HttpPost \<Rightarrow> 'w out \<Rightarrow> go_error option \<times> 'w out" where
  "send_json p what req s =
     (case po_Request p (hp_URL req) of
        Some e \<Rightarrow> (Some e, s)
      | None \<Rightarrow>
          (let (r, w1) = po_Do p req (ow_world s);
               s1 = \<lparr>ow_world = w1, ow_sent = ow_sent s @ [req]\<rparr>
           in case r of
                Inl e \<Rightarrow> (Some e, s1)
              | Inr status \<Rightarrow>
                  if status \<ge> 300 then (Some (ErrNew (what @ '' status '' @ show_int status)), s1) else (None, s1)))"

section \<open>The notifier (slack.go, pagerduty.go)\<close>

record Notifier =
  nt_slackWebhook :: string
  nt_pagerDutyKey :: string
  nt_threshold :: Severity
  nt_pdURLOverride :: string

definition NewNotifier :: "string \<Rightarrow> string \<Rightarrow> Severity \<Rightarrow> Notifier" where
  "NewNotifier slackWebhook pagerDutyKey threshold =
     \<lparr>nt_slackWebhook = slackWebhook, nt_pagerDutyKey = pagerDutyKey,
      nt_threshold = (if threshold = [] then P1 else threshold), nt_pdURLOverride = []\<rparr>"

definition Notifier_Enabled :: "Notifier \<Rightarrow> bool" where
  "Notifier_Enabled n \<longleftrightarrow> nt_slackWebhook n \<noteq> [] \<or> nt_pagerDutyKey n \<noteq> []"

text \<open>A map lookup: a severity the map does not have ranks 0, like P0.\<close>

definition incident_rank :: "Severity \<Rightarrow> nat" where
  "incident_rank s =
     (case map_of [(P0, 0), (P1, 1), (P2, 2), (P3, 3)] s of None \<Rightarrow> 0 | Some r \<Rightarrow> r)"

definition atOrAbove :: "Severity \<Rightarrow> Severity \<Rightarrow> bool" where
  "atOrAbove sev threshold \<longleftrightarrow> incident_rank sev \<le> incident_rank threshold"

definition slack_text :: "Finding \<Rightarrow> string" where
  "slack_text f =
     (let r = fd_Resource f
      in ''*['' @ fd_Severity f @ ''] '' @ fd_Title f @ ''*'' @ newline @
         ''*Cluster:* '' @ rr_Cluster r @ ''  *Resource:* '' @ rr_Namespace r @ ''/'' @ rr_Name r @ newline @
         ''*Impact:* '' @ fd_Impact f @ newline @ ''*Root cause:* '' @ fd_RootCause f @ newline @
         ''*Fix:* '' @ rm_Summary (fd_Remediation f))"

definition slack_request :: "Notifier \<Rightarrow> Finding \<Rightarrow> HttpPost" where
  "slack_request n f = json_post (nt_slackWebhook n) (json_text (JObj [(''text'', JStr (slack_text f))]))"

definition postSlack :: "'w Poster \<Rightarrow> Notifier \<Rightarrow> Finding \<Rightarrow> 'w out \<Rightarrow> go_error option \<times> 'w out" where
  "postSlack p n f = send_json p ''slack webhook'' (slack_request n f)"

definition pdEventsURL :: string where
  "pdEventsURL = ''https://events.pagerduty.com/v2/enqueue''"

definition pagerDutyURL :: "Notifier \<Rightarrow> string" where
  "pagerDutyURL n = (if nt_pdURLOverride n \<noteq> [] then nt_pdURLOverride n else pdEventsURL)"

definition pdSeverity :: "Severity \<Rightarrow> string" where
  "pdSeverity s =
     (if s = P0 then ''critical'' else if s = P1 then ''error'' else if s = P2 then ''warning'' else ''info'')"

text \<open>The payload as \<open>json.Marshal\<close> writes a map: the keys in order.\<close>

definition pd_payload :: "Notifier \<Rightarrow> Finding \<Rightarrow> json" where
  "pd_payload n f =
     (let r = fd_Resource f
      in JObj
        [(''dedup_key'', JStr (DedupKey f)),
         (''event_action'', JStr ''trigger''),
         (''payload'', JObj
           [(''class'', JStr (fd_RuleID f)),
            (''component'', JStr (rr_Kind r @ ''/'' @ rr_Name r)),
            (''custom_details'', JObj
              [(''impact'', JStr (fd_Impact f)),
               (''remediation'', JStr (rm_Summary (fd_Remediation f))),
               (''root_cause'', JStr (fd_RootCause f))]),
            (''group'', JStr (fd_Category f)),
            (''severity'', JStr (pdSeverity (fd_Severity f))),
            (''source'', JStr (rr_Cluster r)),
            (''summary'', JStr (''['' @ fd_Severity f @ ''] '' @ fd_Title f @ '' '' @ em_dash @ '' '' @
               rr_Namespace r @ ''/'' @ rr_Name r))]),
         (''routing_key'', JStr (nt_pagerDutyKey n))])"

definition pd_request :: "Notifier \<Rightarrow> Finding \<Rightarrow> HttpPost" where
  "pd_request n f = json_post (pagerDutyURL n) (json_text (pd_payload n f))"

definition triggerPagerDuty :: "'w Poster \<Rightarrow> Notifier \<Rightarrow> Finding \<Rightarrow> 'w out \<Rightarrow> go_error option \<times> 'w out" where
  "triggerPagerDuty p n f = send_json p ''pagerduty'' (pd_request n f)"

text \<open>One qualifying finding: Slack first, then PagerDuty; the first failure ends it.\<close>

definition alert_one :: "'w Poster \<Rightarrow> Notifier \<Rightarrow> Finding \<Rightarrow> 'w out \<Rightarrow> go_error option \<times> 'w out" where
  "alert_one p n f s =
     (let (e1, s1) = (if nt_slackWebhook n \<noteq> [] then postSlack p n f s else (None, s))
      in case e1 of
           Some e \<Rightarrow> (Some e, s1)
         | None \<Rightarrow> if nt_pagerDutyKey n \<noteq> [] then triggerPagerDuty p n f s1 else (None, s1))"

fun notify_each ::
  "'w Poster \<Rightarrow> Notifier \<Rightarrow> Finding list \<Rightarrow> nat \<Rightarrow> 'w out \<Rightarrow> (nat \<times> go_error option) \<times> 'w out" where
  "notify_each p n [] fired s = ((fired, None), s)"
| "notify_each p n (f # fs) fired s =
     (if \<not> atOrAbove (fd_Severity f) (nt_threshold n) then notify_each p n fs fired s
      else
        (case alert_one p n f s of
           (Some e, s1) \<Rightarrow> ((fired, Some e), s1)
         | (None, s1) \<Rightarrow> notify_each p n fs (fired + 1) s1))"

definition Notify ::
  "'w Poster \<Rightarrow> Notifier \<Rightarrow> Finding list \<Rightarrow> 'w out \<Rightarrow> (nat \<times> go_error option) \<times> 'w out" where
  "Notify p n fs s = (if \<not> Notifier_Enabled n then ((0, None), s) else notify_each p n fs 0 s)"

section \<open>What is sent\<close>

text \<open>The requests one finding stands for, and the findings that qualify.\<close>

definition alerts :: "Notifier \<Rightarrow> Finding \<Rightarrow> HttpPost list" where
  "alerts n f =
     (if nt_slackWebhook n \<noteq> [] then [slack_request n f] else []) @
     (if nt_pagerDutyKey n \<noteq> [] then [pd_request n f] else [])"

definition qualifying :: "Notifier \<Rightarrow> Finding list \<Rightarrow> Finding list" where
  "qualifying n fs = (if Notifier_Enabled n then filter (\<lambda>f. atOrAbove (fd_Severity f) (nt_threshold n)) fs else [])"

lemma send_json_sent:
  assumes "send_json p what req s = (r, s')"
  shows "(r = None \<longrightarrow> ow_sent s' = ow_sent s @ [req]) \<and> (\<exists>part. ow_sent s' = ow_sent s @ part \<and> (part = [] \<or> part = [req]))"
proof (cases "po_Request p (hp_URL req)")
  case (Some e)
  with assms have "r = Some e" "s' = s" by (auto simp: send_json_def)
  then show ?thesis by simp
next
  case None
  with assms show ?thesis by (auto simp: send_json_def Let_def split: prod.splits sum.splits if_splits)
qed

lemma alert_one_sent:
  assumes "alert_one p n f s = (r, s')"
  shows "(r = None \<longrightarrow> ow_sent s' = ow_sent s @ alerts n f) \<and>
    (\<exists>part rest. alerts n f = part @ rest \<and> ow_sent s' = ow_sent s @ part)"
proof -
  obtain e1 s1 where 1: "(if nt_slackWebhook n \<noteq> [] then postSlack p n f s else (None, s)) = (e1, s1)"
    by fastforce
  let ?slack = "if nt_slackWebhook n \<noteq> [] then [slack_request n f] else []"
  have slack: "(e1 = None \<longrightarrow> ow_sent s1 = ow_sent s @ ?slack) \<and>
      (\<exists>part. ow_sent s1 = ow_sent s @ part \<and> (part = [] \<or> part = ?slack))"
  proof (cases "nt_slackWebhook n = []")
    case False
    with 1 have "send_json p ''slack webhook'' (slack_request n f) s = (e1, s1)" by (simp add: postSlack_def)
    from send_json_sent [OF this] False show ?thesis by simp
  qed (use 1 in simp)
  show ?thesis
  proof (cases e1)
    case (Some e)
    with assms 1 have "r = Some e" "s' = s1" by (auto simp: alert_one_def Let_def)
    with slack show ?thesis by (auto simp: alerts_def)
  next
    case None
    with assms 1 have 2: "(if nt_pagerDutyKey n \<noteq> [] then triggerPagerDuty p n f s1 else (None, s1)) = (r, s')"
      by (simp add: alert_one_def Let_def)
    from slack None have s1: "ow_sent s1 = ow_sent s @ ?slack" by simp
    show ?thesis
    proof (cases "nt_pagerDutyKey n = []")
      case True
      with 2 s1 show ?thesis by (auto simp: alerts_def)
    next
      case False
      with 2 have "send_json p ''pagerduty'' (pd_request n f) s1 = (r, s')" by (simp add: triggerPagerDuty_def)
      from send_json_sent [OF this] s1 False show ?thesis by (fastforce simp: alerts_def)
    qed
  qed
qed

lemma notify_each_sent:
  assumes "notify_each p n fs k s = ((fired, err), s')"
  shows "\<exists>j. fired = k + j \<and>
    (let qs = filter (\<lambda>f. atOrAbove (fd_Severity f) (nt_threshold n)) fs
     in (err = None \<longrightarrow> j = length qs \<and> ow_sent s' = ow_sent s @ concat (map (alerts n) qs)) \<and>
        (err \<noteq> None \<longrightarrow> j < length qs \<and>
           (\<exists>part rest. alerts n (qs ! j) = part @ rest \<and>
              ow_sent s' = ow_sent s @ concat (map (alerts n) (take j qs)) @ part)))"
  using assms
proof (induction fs arbitrary: k s)
  case Nil
  then show ?case by simp
next
  case (Cons f fs)
  show ?case
  proof (cases "atOrAbove (fd_Severity f) (nt_threshold n)")
    case False
    with Cons show ?thesis by simp
  next
    case True
    obtain e s1 where one: "alert_one p n f s = (e, s1)" by fastforce
    show ?thesis
    proof (cases e)
      case (Some x)
      with Cons.prems True one have "fired = k" "err = Some x" "s' = s1" by auto
      with True alert_one_sent [OF one] show ?thesis by (auto simp: Let_def)
    next
      case None
      with Cons.prems True one have "notify_each p n fs (Suc k) s1 = ((fired, err), s')" by simp
      from Cons.IH [OF this] obtain j where j: "fired = Suc k + j"
        "let qs = filter (\<lambda>f. atOrAbove (fd_Severity f) (nt_threshold n)) fs
         in (err = None \<longrightarrow> j = length qs \<and> ow_sent s' = ow_sent s1 @ concat (map (alerts n) qs)) \<and>
            (err \<noteq> None \<longrightarrow> j < length qs \<and>
               (\<exists>part rest. alerts n (qs ! j) = part @ rest \<and>
                  ow_sent s' = ow_sent s1 @ concat (map (alerts n) (take j qs)) @ part))" by blast
      moreover have "ow_sent s1 = ow_sent s @ alerts n f" using alert_one_sent [OF one] None by simp
      ultimately show ?thesis using True by (intro exI [of _ "Suc j"]) (auto simp: Let_def)
    qed
  qed
qed

text \<open>What the PagerDuty service reads back from the body.\<close>

lemma parse_pd_body: "parse_json (hp_Body (pd_request n f)) = Some (pd_payload n f)"
  unfolding pd_request_def json_post_def HttpPost.simps
  by (rule parse_json_text) (simp add: pd_payload_def Let_def)

section \<open>Properties\<close>


text \<open>A PagerDuty alert is tied to the stored finding: the body the service parses triggers an incident whose
  dedup key is the key of the row a save of the same finding leaves in the store, with the notifier's
  routing key and the mapped severity; and two findings raise the same incident exactly if they are
  of the same rule on the same resource (when no name in them holds the separator).\<close>

theorem incident_matches_the_stored_finding:
  assumes "SaveFinding e c f db = (None, db')"
    and "\<forall>x \<in> {f, g}. CHR ''|'' \<notin> set (fd_RuleID x) \<and> CHR ''|'' \<notin> set (rr_Cluster (fd_Resource x)) \<and>
      CHR ''|'' \<notin> set (rr_Namespace (fd_Resource x)) \<and> CHR ''|'' \<notin> set (rr_Kind (fd_Resource x))"
  shows "\<exists>key members details r. parse_json (hp_Body (pd_request n f)) = Some (JObj members) \<and>
      map_of members ''event_action'' = Some (JStr ''trigger'') \<and> map_of members ''dedup_key'' = Some (JStr key) \<and>
      map_of members ''routing_key'' = Some (JStr (nt_pagerDutyKey n)) \<and>
      map_of members ''payload'' = Some (JObj details) \<and>
      map_of details ''severity'' = Some (JStr (pdSeverity (fd_Severity f))) \<and>
      finding_of db' key = Some r \<and> fr_severity r = fd_Severity f \<and>
      (DedupKey g = key) = (fd_RuleID g = fd_RuleID f \<and> fd_Resource g = fd_Resource f)"
proof -
  obtain r where r: "finding_of db' (DedupKey f) = Some r" "fr_severity r = fd_Severity f"
    using assms(1) by (cases rule: SaveFinding_cases) auto
  have "(DedupKey g = DedupKey f) = (fd_RuleID g = fd_RuleID f \<and> fd_Resource g = fd_Resource f)"
    using DedupKey_inj [of g f] assms(2) by (auto simp: DedupKey_def Let_def)
  with r show ?thesis unfolding parse_pd_body pd_payload_def Let_def by auto
qed

definition demo_poster :: "int \<Rightarrow> nat Poster" where
  "demo_poster limit = \<lparr>po_Request = (\<lambda>_. None), po_Do = (\<lambda>_ w. (Inr (if int w < limit then 200 else 500), w + 1))\<rparr>"

definition demo_notifier :: Notifier where
  "demo_notifier = NewNotifier ''http://slack'' ''key'' []"

definition demo_out :: "nat out" where
  "demo_out = \<lparr>ow_world = 0, ow_sent = []\<rparr>"


theorem incident_matches_the_stored_finding_witness:
  "\<exists>db' key members r. SaveFinding (at_time ''a'' 1) [] (demo_finding P0) empty_DB = (None, db') \<and>
     parse_json (hp_Body (pd_request demo_notifier (demo_finding P0))) = Some (JObj members) \<and>
     map_of members ''dedup_key'' = Some (JStr key) \<and> finding_of db' key = Some r"
proof -
  obtain db' where save: "SaveFinding (at_time ''a'' 1) [] (demo_finding P0) empty_DB = (None, db')"
    by (simp add: SaveFinding_def at_time_def empty_DB_def fk_ok_def nullStr_def)
  have "\<forall>x \<in> {demo_finding P0, demo_finding P0}. CHR ''|'' \<notin> set (fd_RuleID x) \<and> CHR ''|'' \<notin> set (rr_Cluster (fd_Resource x)) \<and>
      CHR ''|'' \<notin> set (rr_Namespace (fd_Resource x)) \<and> CHR ''|'' \<notin> set (rr_Kind (fd_Resource x))"
    by (simp add: demo_finding_def dep_finding_def dep_ref_def demo_snapshot_def demo_deployment_def)
  from incident_matches_the_stored_finding [OF save this] save show ?thesis by blast
qed

end
