(* ===== verification/StoreInv.thy ===== *)
theory StoreInv
  imports AuditLog FindingStore MemoryStore
begin

text \<open>
  The invariant of the whole store: whatever operations ran, in whatever order and with whatever
  failures of the driver, the constraints of the schema hold (keys are unique, references lead to
  rows), everything encrypted decrypts, and the audit chain verifies.
\<close>

section \<open>The constraints of the schema\<close>

definition keys_unique :: "DB \<Rightarrow> bool" where
  "keys_unique db \<longleftrightarrow>
     distinct (map ur_id (db_users db)) \<and> distinct (map cr_id (db_clusters db)) \<and>
     distinct (map cr_name (db_clusters db)) \<and> distinct (map sr_id (db_sessions db)) \<and>
     distinct (map mr_id (db_messages db)) \<and> distinct (map xr_id (db_execs db)) \<and>
     distinct (map gr_id (db_usage db)) \<and> distinct (map fr_id (db_findings db)) \<and>
     distinct (map fr_dedup (db_findings db)) \<and> distinct (map yr_id (db_memories db))"

definition references_ok :: "DB \<Rightarrow> bool" where
  "references_ok db \<longleftrightarrow>
     (let users = map ur_id (db_users db); clusters = map cr_id (db_clusters db); sessions = map sr_id (db_sessions db)
      in (\<forall>r \<in> set (db_sessions db). fk_ok (sr_user r) users \<and> fk_ok (sr_cluster r) clusters) \<and>
         (\<forall>r \<in> set (db_messages db). mr_session r \<in> set sessions) \<and>
         (\<forall>r \<in> set (db_execs db). xr_session r \<in> set sessions \<and> fk_ok (xr_cluster r) clusters) \<and>
         (\<forall>r \<in> set (db_usage db). fk_ok (gr_session r) sessions) \<and>
         (\<forall>k \<in> set (map fr_cluster (db_findings db)). fk_ok k clusters) \<and>
         (\<forall>r \<in> set (db_memories db). fk_ok (yr_session r) sessions))"

definition readable :: "Encryptor option \<Rightarrow> DB \<Rightarrow> bool" where
  "readable cph db \<longleftrightarrow>
     (\<forall>r \<in> set (db_messages db). \<exists>p. store_dec cph (mr_content r) = Inr p) \<and>
     (\<forall>r \<in> set (db_memories db). \<exists>p. store_dec cph (yr_text r) = Inr p)"

definition wf_DB :: "Encryptor option \<Rightarrow> DB \<Rightarrow> bool" where
  "wf_DB cph db \<longleftrightarrow> keys_unique db \<and> references_ok db \<and> readable cph db"

lemmas wf_DB_defs = wf_DB_def keys_unique_def references_ok_def readable_def

lemma fk_ok_append [simp]: "fk_ok k xs \<Longrightarrow> fk_ok k (xs @ ys)"
  by (simp add: fk_ok_def split: option.splits)

lemma fk_ok_None [simp]: "fk_ok None xs"
  by (simp add: fk_ok_def)

section \<open>Every operation keeps them\<close>

lemma EnsureUser_wf: "wf_DB cph db \<Longrightarrow> wf_DB cph (snd (EnsureUser e s em r db))"
  by (auto simp: EnsureUser_def wf_DB_defs Let_def split: option.splits)

lemma UpsertCluster_wf: "wf_DB cph db \<Longrightarrow> wf_DB cph (snd (UpsertCluster e n ctx pr db))"
  by (auto simp: UpsertCluster_def wf_DB_defs Let_def find_None_iff split: option.splits)

lemma CreateSession_wf: "wf_DB cph db \<Longrightarrow> wf_DB cph (snd (CreateSession e u c mode ts budget db))"
  by (auto simp: CreateSession_def wf_DB_defs Let_def split: option.splits)

lemma AppendMessage_wf:
  assumes "encryptor (store_enc cph) (store_dec cph)" and "wf_DB cph db"
  shows "wf_DB cph (snd (AppendMessage cph e sid m db))"
  using assms(2) encryptor.dec_enc [OF assms(1)]
  by (auto simp: AppendMessage_def wf_DB_defs Let_def split: option.splits sum.splits)

lemma SaveMemory_wf:
  assumes "encryptor (store_enc cph) (store_dec cph)" and "wf_DB cph db"
  shows "wf_DB cph (snd (SaveMemory cph e m db))"
  using assms(2) encryptor.dec_enc [OF assms(1)]
  by (auto simp: SaveMemory_def wf_DB_defs Let_def split: option.splits sum.splits)

lemma RecordUsage_wf: "wf_DB cph db \<Longrightarrow> wf_DB cph (snd (RecordUsage e sid pr u reason db))"
  by (auto simp: RecordUsage_def wf_DB_defs Let_def split: option.splits)

lemma SaveFinding_wf:
  assumes "wf_DB cph db"
  shows "wf_DB cph (snd (SaveFinding e c f db))"
proof -
  obtain res db' where s: "SaveFinding e c f db = (res, db')" by fastforce
  from assms have "findings_unique db" by (simp add: wf_DB_defs findings_unique_def)
  then have uniq: "findings_unique db'" by (rule SaveFinding_unique [OF _ s])
  from s show ?thesis
  proof (cases rule: SaveFinding_cases)
    case (updated r)
    have "keys_unique db'" "references_ok db'" "readable cph db'"
      using assms updated(4-6) by (subst updated(7), simp add: wf_DB_defs Let_def)+
    then show ?thesis by (simp add: s wf_DB_def)
  next
    case inserted
    with assms uniq show ?thesis by (auto simp: s wf_DB_defs Let_def findings_unique_def)
  qed (use assms s in simp)
qed

lemma cluster_id_key: "cluster_id db n = Some i \<Longrightarrow> i \<in> set (map cr_id (db_clusters db))"
  by (auto simp: cluster_id_def find_Some_iff)

lemma Record_wf:
  assumes "wf_DB cph db"
  shows "wf_DB cph (snd (Record H cph en e db))"
proof -
  have ins: "wf_DB cph db1" if "insert_exec en row db = Inr db1" for row db1
    using that assms by (auto simp: insert_exec_def wf_DB_defs Let_def split: option.splits if_splits)
  have app: "wf_DB cph db2" if "append_chain H cph en e db1 = Inr db2" "wf_DB cph db1" for db1 db2
    using that by (auto simp: append_chain_def insert_audit_def wf_DB_defs Let_def split: option.splits sum.splits)
  show ?thesis
    using assms ins app by (auto simp: Record_def Let_def split: option.splits sum.splits)
qed

text \<open>Only \<open>Record\<close> touches the audit log.\<close>

lemma wf_audit_cong:
  "db_audit db' = db_audit db \<Longrightarrow> db_audit_seq db' = db_audit_seq db \<Longrightarrow> wf_audit H cph db \<Longrightarrow> wf_audit H cph db'"
  by (simp add: wf_audit_def)

lemma other_ops_audit:
  "db_audit (snd (EnsureUser e s em r db)) = db_audit db"
  "db_audit (snd (UpsertCluster e n ctx pr db)) = db_audit db"
  "db_audit (snd (CreateSession e u c mode ts budget db)) = db_audit db"
  "db_audit (snd (AppendMessage cph e sid m db)) = db_audit db"
  "db_audit (snd (SaveMemory cph e me db)) = db_audit db"
  "db_audit (snd (SaveFinding e c f db)) = db_audit db"
  "db_audit (snd (RecordUsage e sid pr us reason db)) = db_audit db"
  by (simp_all add: EnsureUser_def UpsertCluster_def CreateSession_def AppendMessage_def SaveMemory_def
      SaveFinding_def RecordUsage_def Let_def split: option.splits sum.splits)

lemma other_ops_seq:
  "db_audit_seq (snd (EnsureUser e s em r db)) = db_audit_seq db"
  "db_audit_seq (snd (UpsertCluster e n ctx pr db)) = db_audit_seq db"
  "db_audit_seq (snd (CreateSession e u c mode ts budget db)) = db_audit_seq db"
  "db_audit_seq (snd (AppendMessage cph e sid m db)) = db_audit_seq db"
  "db_audit_seq (snd (SaveMemory cph e me db)) = db_audit_seq db"
  "db_audit_seq (snd (SaveFinding e c f db)) = db_audit_seq db"
  "db_audit_seq (snd (RecordUsage e sid pr us reason db)) = db_audit_seq db"
  by (simp_all add: EnsureUser_def UpsertCluster_def CreateSession_def AppendMessage_def SaveMemory_def
      SaveFinding_def RecordUsage_def Let_def split: option.splits sum.splits)

section \<open>Reachable databases\<close>

inductive reachable_db :: "(string \<Rightarrow> string) \<Rightarrow> Encryptor option \<Rightarrow> DB \<Rightarrow> bool" for H cph where
  empty: "reachable_db H cph empty_DB"
| user: "reachable_db H cph db \<Longrightarrow> reachable_db H cph (snd (EnsureUser e s em r db))"
| cluster: "reachable_db H cph db \<Longrightarrow> reachable_db H cph (snd (UpsertCluster e n ctx pr db))"
| session: "reachable_db H cph db \<Longrightarrow> reachable_db H cph (snd (CreateSession e u c mode ts budget db))"
| message: "reachable_db H cph db \<Longrightarrow> reachable_db H cph (snd (AppendMessage cph e sid m db))"
| memory: "reachable_db H cph db \<Longrightarrow> reachable_db H cph (snd (SaveMemory cph e me db))"
| recorded: "reachable_db H cph db \<Longrightarrow> reachable_db H cph (snd (Record H cph e ent db))"
| finding: "reachable_db H cph db \<Longrightarrow> reachable_db H cph (snd (SaveFinding e c f db))"
| usage: "reachable_db H cph db \<Longrightarrow> reachable_db H cph (snd (RecordUsage e sid pr us reason db))"

lemma wf_DB_empty [simp]: "wf_DB cph empty_DB"
  by (simp add: wf_DB_defs empty_DB_def)

lemma reachable_wf_DB:
  assumes "reachable_db H cph db" and enc: "encryptor (store_enc cph) (store_dec cph)"
  shows "wf_DB cph db"
  using assms(1)
  by induction (simp_all add: EnsureUser_wf UpsertCluster_wf CreateSession_wf AppendMessage_wf [OF enc]
      SaveMemory_wf [OF enc] Record_wf SaveFinding_wf RecordUsage_wf)

lemma reachable_wf_audit:
  assumes "reachable_db H cph db" and enc: "encryptor (store_enc cph) (store_dec cph)"
  shows "wf_audit H cph db"
  using assms(1)
proof induction
  case (recorded db e ent)
  obtain r db' where r: "Record H cph e ent db = (r, db')" by fastforce
  show ?case
  proof (cases r)
    case None
    from Record_recorded [OF enc recorded.IH r [unfolded None]] show ?thesis by (simp add: r)
  next
    case (Some x)
    from Record_failed [OF r [unfolded Some]] recorded.IH show ?thesis by (simp add: r)
  qed
qed (simp_all add: wf_audit_cong [OF other_ops_audit(1) other_ops_seq(1)] wf_audit_cong [OF other_ops_audit(2) other_ops_seq(2)]
    wf_audit_cong [OF other_ops_audit(3) other_ops_seq(3)] wf_audit_cong [OF other_ops_audit(4) other_ops_seq(4)]
    wf_audit_cong [OF other_ops_audit(5) other_ops_seq(5)] wf_audit_cong [OF other_ops_audit(6) other_ops_seq(6)]
    wf_audit_cong [OF other_ops_audit(7) other_ops_seq(7)])

lemma rows_messages_readable:
  "\<forall>r \<in> set rs. \<exists>p. store_dec cph (mr_content r) = Inr p \<Longrightarrow> \<exists>ms. rows_messages cph rs = Inr ms \<and> length ms = length rs"
proof (induction rs)
  case (Cons r rs)
  then obtain p ms where "store_dec cph (mr_content r) = Inr p" "rows_messages cph rs = Inr ms" "length ms = length rs" by auto
  then show ?case by (simp add: row_message_def)
qed simp

lemma rows_memories_readable:
  "\<forall>r \<in> set rs. \<exists>p. store_dec cph (yr_text r) = Inr p \<Longrightarrow> \<exists>ms. rows_memories cph sid rs = Inr ms"
proof (induction rs)
  case (Cons r rs)
  then obtain p ms where "store_dec cph (yr_text r) = Inr p" "rows_memories cph sid rs = Inr ms" by auto
  then show ?case by (simp add: row_memory_def)
qed simp

section \<open>Property\<close>

text \<open>C11: The database is well typed at all times: after any sequence of store operations, each of which may fail,
  all keys are unique and every reference leads to a row of the table it names. On top of that the
  audit chain verifies, and loading the messages of any session and recalling memories never fails
  on a stored value (both return unless the driver itself fails).\<close>

theorem store_is_always_consistent:
  assumes "reachable_db H cph db" and "cipher_ok cph" and "env_fault e 0 = None"
  shows "keys_unique db \<and> references_ok db \<and> VerifyAuditChain H cph e db = Inr 0 \<and>
    (\<exists>ms. LoadMessages cph e sid db = Inr ms) \<and> (\<exists>ms. RecallMemories val cph e sid query k db = Inr ms)"
proof -
  note enc = cipher_ok_encryptor [OF assms(2)]
  have wf: "wf_DB cph db" by (rule reachable_wf_DB [OF assms(1) enc])
  have "VerifyAuditChain H cph e db = Inr 0"
    by (rule Verify_wf [OF reachable_wf_audit [OF assms(1) enc] assms(3)])
  moreover have "\<exists>ms. LoadMessages cph e sid db = Inr ms"
    using wf rows_messages_readable [of "sort_key mr_created (filter (\<lambda>r. mr_session r = sid) (db_messages db))" cph] assms(3)
    by (auto simp: LoadMessages_def wf_DB_def readable_def)
  moreover have "\<exists>ms. rows_memories cph sid (memory_rows sid db) = Inr ms"
    by (rule rows_memories_readable) (use wf in \<open>auto simp: memory_rows_def wf_DB_def readable_def\<close>)
  then have "\<exists>ms. RecallMemories val cph e sid query k db = Inr ms"
    using assms(3) by (auto simp: RecallMemories_def)
  ultimately show ?thesis using wf by (simp add: wf_DB_def)
qed

definition demo_session_db :: DB where
  "demo_session_db = snd (AppendMessage demo_cipher (at_time ''m'' 3) ''s'' (msg RoleUser ''hi'')
     (snd (CreateSession (at_time ''s'' 2) ''u'' [] ''propose'' [] 0
        (snd (EnsureUser (at_time ''u'' 1) ''root'' [] ''admin'' empty_DB)))))"

theorem store_is_always_consistent_witness:
  "VerifyAuditChain demo_hash demo_cipher (at_time [] 4) demo_session_db = Inr 0 \<and> references_ok demo_session_db \<and>
   length (db_sessions demo_session_db) = 1"
proof -
  have "reachable_db demo_hash demo_cipher demo_session_db"
    unfolding demo_session_db_def
    by (rule reachable_db.message, rule reachable_db.session, rule reachable_db.user, rule reachable_db.empty)
  moreover have "cipher_ok demo_cipher" unfolding demo_cipher_def by (rule demo_cipher_ok)
  moreover have "length (db_sessions demo_session_db) = 1" by code_simp
  ultimately show ?thesis using store_is_always_consistent [of demo_hash demo_cipher demo_session_db "at_time [] 4"]
    by (simp add: at_time_def)
qed

end
