(* ===== verification/Controller.thy ===== *)
theory Controller
  imports Incident StoreInv
begin

text \<open>
  The in-cluster controller (internal/controller): a loop of ticks, each of which scans the fleet,
  persists the findings, sets the gauges and alerts. Its collaborators are records of functions on
  the outside world, as its small interfaces are; \<open>SQLite\<close> and \<open>Incident\<close> provide them.

  The contract of the store is the locale \<open>finding_board\<close>: an abstract board of findings, on which a
  save is one map update. It is interpreted on the SQLite store, and a tick refines an update of the
  board.
\<close>

section \<open>Interfaces and state\<close>

type_synonym 'w Scanner = "string list \<Rightarrow> string \<Rightarrow> 'w \<Rightarrow> (go_error + Report) \<times> 'w"

record 'w FindingSink =
  snk_UpsertCluster :: "string \<Rightarrow> string \<Rightarrow> string \<Rightarrow> 'w \<Rightarrow> (go_error + string) \<times> 'w"
  snk_SaveFinding :: "string \<Rightarrow> Finding \<Rightarrow> 'w \<Rightarrow> go_error option \<times> 'w"

type_synonym 'w Alerter = "Finding list \<Rightarrow> 'w \<Rightarrow> (nat \<times> go_error option) \<times> 'w"
type_synonym 'w MetricsSink = "string \<Rightarrow> string \<Rightarrow> nat \<Rightarrow> 'w \<Rightarrow> 'w"

datatype LogAttr = AttrStr string | AttrInt int | AttrErr go_error

record LogLine =
  lg_level :: string
  lg_msg :: string
  lg_attrs :: "(string \<times> LogAttr) list"

definition log_line :: "string \<Rightarrow> string \<Rightarrow> (string \<times> LogAttr) list \<Rightarrow> LogLine" where
  "log_line level m attrs = \<lparr>lg_level = level, lg_msg = m, lg_attrs = attrs\<rparr>"

definition allCategories :: "Category list" where
  "allCategories = [Reliability, Security, Cost, Optimization]"

definition allSeverities :: "Severity list" where
  "allSeverities = [P0, P1, P2, P3]"

record 'w Controller =
  cn_scanner :: "'w Scanner"
  cn_sink :: "'w FindingSink"
  cn_alerter :: "'w Alerter option"
  cn_metrics :: "'w MetricsSink option"
  cn_log :: "LogLine \<Rightarrow> 'w \<Rightarrow> 'w"
  cn_clusters :: "string list"
  cn_namespace :: string
  cn_interval :: int \<comment> \<open>nanoseconds\<close>
  cn_clusterIDs :: "(string \<times> string) list"

record 'w ControllerConfig =
  cc_Scanner :: "'w Scanner"
  cc_Sink :: "'w FindingSink"
  cc_Alerter :: "'w Alerter option"
  cc_Metrics :: "'w MetricsSink option"
  cc_Log :: "(LogLine \<Rightarrow> 'w \<Rightarrow> 'w) option"
  cc_Clusters :: "string list"
  cc_Namespace :: string
  cc_Interval :: int

text \<open>\<open>New\<close>; the default logger of the process is an argument.\<close>

definition New_Controller :: "(LogLine \<Rightarrow> 'w \<Rightarrow> 'w) \<Rightarrow> 'w ControllerConfig \<Rightarrow> 'w Controller" where
  "New_Controller defaultLog c =
     \<lparr>cn_scanner = cc_Scanner c, cn_sink = cc_Sink c, cn_alerter = cc_Alerter c, cn_metrics = cc_Metrics c,
      cn_log = (case cc_Log c of None \<Rightarrow> defaultLog | Some l \<Rightarrow> l), cn_clusters = cc_Clusters c,
      cn_namespace = cc_Namespace c,
      cn_interval = (if cc_Interval c \<le> 0 then 15 * 60 * 1000000000 else cc_Interval c), cn_clusterIDs = []\<rparr>"

section \<open>A tick\<close>

type_synonym 'w running = "'w Controller \<times> 'w"

definition clusterID :: "string \<Rightarrow> 'w running \<Rightarrow> (go_error + string) \<times> 'w running" where
  "clusterID name = (\<lambda>(c, w).
     (case map_of (cn_clusterIDs c) name of
        Some i \<Rightarrow> (Inr i, (c, w))
      | None \<Rightarrow>
          (case snk_UpsertCluster (cn_sink c) name [] [] w of
             (Inl e, w1) \<Rightarrow> (Inl e, (c, w1))
           | (Inr i, w1) \<Rightarrow> (Inr i, (c\<lparr>cn_clusterIDs := (name, i) # cn_clusterIDs c\<rparr>, w1)))))"

definition persist_one :: "Finding \<Rightarrow> 'w running \<Rightarrow> 'w running" where
  "persist_one f s =
     (let cluster = rr_Cluster (fd_Resource f)
      in case clusterID cluster s of
           (Inl e, (c, w)) \<Rightarrow>
             (c, cn_log c (log_line ''WARN'' ''resolve cluster failed'' [(''cluster'', AttrStr cluster), (''error'', AttrErr e)]) w)
         | (Inr i, (c, w)) \<Rightarrow>
             (case snk_SaveFinding (cn_sink c) i f w of
                (Some e, w1) \<Rightarrow>
                  (c, cn_log c (log_line ''WARN'' ''save finding failed'' [(''rule'', AttrStr (fd_RuleID f)), (''error'', AttrErr e)]) w1)
              | (None, w1) \<Rightarrow> (c, w1)))"

definition bucket_count :: "Finding list \<Rightarrow> string \<Rightarrow> string \<Rightarrow> nat" where
  "bucket_count fs cat sev = length (filter (\<lambda>f. fd_Category f = cat \<and> fd_Severity f = sev) fs)"

definition updateGauges :: "'w Controller \<Rightarrow> Finding list \<Rightarrow> 'w \<Rightarrow> 'w" where
  "updateGauges c fs w =
     (case cn_metrics c of
        None \<Rightarrow> w
      | Some set_finding \<Rightarrow>
          fold (\<lambda>cat. fold (\<lambda>s. set_finding cat s (bucket_count fs cat s)) allSeverities) allCategories w)"

definition alert_step :: "'w Controller \<Rightarrow> Finding list \<Rightarrow> 'w \<Rightarrow> 'w" where
  "alert_step c fs w =
     (case cn_alerter c of
        None \<Rightarrow> w
      | Some notify \<Rightarrow>
          (case notify fs w of
             ((fired, Some e), w1) \<Rightarrow> cn_log c (log_line ''WARN'' ''incident notify failed'' [(''error'', AttrErr e)]) w1
           | ((fired, None), w1) \<Rightarrow>
               if fired > 0 then cn_log c (log_line ''INFO'' ''incidents alerted'' [(''count'', AttrInt (int fired))]) w1
               else w1))"

definition tick :: "('w \<Rightarrow> int) \<Rightarrow> 'w running \<Rightarrow> 'w running" where
  "tick clk = (\<lambda>(c, w).
     (let start = clk w
      in case cn_scanner c (cn_clusters c) (cn_namespace c) w of
           (Inl e, w1) \<Rightarrow> (c, cn_log c (log_line ''ERROR'' ''audit scan failed'' [(''error'', AttrErr e)]) w1)
         | (Inr rep, w1) \<Rightarrow>
             (let (c2, w2) = fold persist_one (rep_Findings rep) (c, w1);
                  w3 = updateGauges c2 (rep_Findings rep) w2;
                  w4 = alert_step c2 (rep_Findings rep) w3
              in (c2, cn_log c2 (log_line ''INFO'' ''scan complete''
                   [(''findings'', AttrInt (int (length (rep_Findings rep)))), (''p0'', AttrInt (int (BySeverity rep P0))),
                    (''p1'', AttrInt (int (BySeverity rep P1))), (''duration'', AttrInt (clk w4 - start))]) w4))))"

section \<open>The loop\<close>

text \<open>
  What wakes the loop up, with what happened to the world while it slept: the ticker, or the
  cancellation of the context. The loop over a finite list of wake-ups returns the context's error,
  or is still running (\<open>None\<close>) when the list ends.
\<close>

datatype 'w wake = Tick "'w \<Rightarrow> 'w" | Cancelled "'w \<Rightarrow> 'w" go_error

fun run_loop :: "('w \<Rightarrow> int) \<Rightarrow> 'w wake list \<Rightarrow> 'w running \<Rightarrow> go_error option \<times> 'w running" where
  "run_loop clk [] s = (None, s)"
| "run_loop clk (Tick f # ws) (c, w) = run_loop clk ws (tick clk (c, f w))"
| "run_loop clk (Cancelled f e # ws) (c, w) =
     (Some e, (c, cn_log c (log_line ''INFO'' ''controller stopping'' [(''reason'', AttrErr e)]) (f w)))"

definition nsOrAll :: "string \<Rightarrow> string" where
  "nsOrAll ns = (if ns = [] then ''all'' else ns)"

definition Controller_Run :: "('w \<Rightarrow> int) \<Rightarrow> 'w wake list \<Rightarrow> 'w running \<Rightarrow> go_error option \<times> 'w running" where
  "Controller_Run clk ws = (\<lambda>(c, w).
     run_loop clk ws (tick clk (c, cn_log c
       (log_line ''INFO'' ''controller started''
         [(''interval'', AttrInt (cn_interval c)), (''namespace'', AttrStr (nsOrAll (cn_namespace c)))]) w)))"

section \<open>The board of findings\<close>

text \<open>By dedup key: the cluster, the severity and the status of a finding.\<close>

type_synonym board = "string \<Rightarrow> (string \<times> Severity \<times> string) option"

definition spec_save :: "Finding \<Rightarrow> board \<Rightarrow> board" where
  "spec_save f b =
     b(DedupKey f \<mapsto>
       (case b (DedupKey f) of
          None \<Rightarrow> (rr_Cluster (fd_Resource f), fd_Severity f, ''open'')
        | Some (cl, _, status) \<Rightarrow> (cl, fd_Severity f, status)))"

text \<open>
  What a store promises the controller: \<open>st\<close> is its part of the world, \<open>known\<close> the cluster ids it
  has given out, \<open>board\<close> its findings. \<open>fine\<close> are the worlds in which no call of it fails.
\<close>

locale finding_board =
  fixes sink :: "'w FindingSink"
    and st :: "'w \<Rightarrow> 's"
    and board :: "'s \<Rightarrow> board"
    and known :: "'s \<Rightarrow> string \<Rightarrow> string option"
    and inv :: "'s \<Rightarrow> bool"
  assumes upsert: "snk_UpsertCluster sink name ctx prov w = (r, w') \<Longrightarrow> inv (st w) \<Longrightarrow>
      inv (st w') \<and> board (st w') = board (st w) \<and> known (st w) \<subseteq>\<^sub>m known (st w') \<and>
      (\<forall>i. r = Inr i \<longrightarrow> known (st w') name = Some i)"
    and save: "snk_SaveFinding sink i f w = (err, w') \<Longrightarrow> inv (st w) \<Longrightarrow>
      known (st w) (rr_Cluster (fd_Resource f)) = Some i \<Longrightarrow>
      inv (st w') \<and> known (st w') = known (st w) \<and>
      board (st w') = (if err = None then spec_save f (board (st w)) else board (st w))"
begin

definition coherent :: "'w running \<Rightarrow> bool" where
  "coherent s \<longleftrightarrow> cn_sink (fst s) = sink \<and> (\<forall>l w. st (cn_log (fst s) l w) = st w) \<and> inv (st (snd s)) \<and>
     map_of (cn_clusterIDs (fst s)) \<subseteq>\<^sub>m known (st (snd s))"

lemma clusterID_coherent:
  assumes "clusterID name s = (r, s')" and "coherent s"
  shows "coherent s' \<and> board (st (snd s')) = board (st (snd s)) \<and>
    (\<forall>i. r = Inr i \<longrightarrow> known (st (snd s')) name = Some i)"
proof -
  obtain c w where s: "s = (c, w)" by (cases s)
  show ?thesis
  proof (cases "map_of (cn_clusterIDs c) name")
    case (Some i)
    with assms show ?thesis by (auto simp: clusterID_def s coherent_def map_le_def dom_def)
  next
    case None
    obtain q w1 where u: "snk_UpsertCluster sink name [] [] w = (q, w1)" by fastforce
    have inv: "inv (st w)" "map_of (cn_clusterIDs c) \<subseteq>\<^sub>m known (st w)"
      using assms(2) by (simp_all add: coherent_def s)
    note up = upsert [OF u inv(1)]
    from up inv(2) have le: "map_of (cn_clusterIDs c) \<subseteq>\<^sub>m known (st w1)" by (blast intro: map_le_trans)
    show ?thesis
    proof (cases q)
      case (Inl e)
      with assms None u up le show ?thesis by (auto simp: clusterID_def s coherent_def)
    next
      case (Inr i)
      have "(map_of (cn_clusterIDs c))(name \<mapsto> i) \<subseteq>\<^sub>m known (st w1)"
        using le up Inr by (auto simp: map_le_def)
      with assms None u up Inr show ?thesis by (auto simp: clusterID_def s coherent_def)
    qed
  qed
qed

lemma persist_one_coherent:
  assumes "coherent s"
  shows "coherent (persist_one f s) \<and>
    board (st (snd (persist_one f s))) \<in> {board (st (snd s)), spec_save f (board (st (snd s)))}"
proof -
  obtain r c w where id: "clusterID (rr_Cluster (fd_Resource f)) s = (r, (c, w))" by (metis prod.exhaust)
  note cid = clusterID_coherent [OF id assms]
  show ?thesis
  proof (cases r)
    case (Inl e)
    with id cid show ?thesis by (auto simp: persist_one_def coherent_def Let_def)
  next
    case (Inr i)
    obtain err w1 where s: "snk_SaveFinding sink i f w = (err, w1)" by fastforce
    have "inv (st w)" "known (st w) (rr_Cluster (fd_Resource f)) = Some i"
      using cid Inr by (simp_all add: coherent_def)
    note sv = save [OF s this]
    from id cid Inr s sv show ?thesis
      by (cases err) (auto simp: persist_one_def coherent_def Let_def)
  qed
qed

lemma persist_refines:
  assumes "coherent s"
  shows "coherent (fold persist_one fs s) \<and>
    (\<exists>saved \<in> set (subseqs fs). board (st (snd (fold persist_one fs s))) = fold spec_save saved (board (st (snd s))))"
  using assms
proof (induction fs arbitrary: s)
  case (Cons f fs)
  note one = persist_one_coherent [OF Cons.prems, of f]
  from Cons.IH [OF conjunct1 [OF one]] obtain saved where saved: "coherent (fold persist_one fs (persist_one f s))"
    "saved \<in> set (subseqs fs)"
    "board (st (snd (fold persist_one fs (persist_one f s)))) = fold spec_save saved (board (st (snd (persist_one f s))))"
    by blast
  from one consider "board (st (snd (persist_one f s))) = board (st (snd s))"
    | "board (st (snd (persist_one f s))) = spec_save f (board (st (snd s)))" by blast
  then show ?case
  proof cases
    case 1
    with saved show ?thesis by (auto simp: Let_def intro!: bexI [of _ saved])
  next
    case 2
    with saved show ?thesis by (auto simp: Let_def intro!: bexI [of _ "f # saved"])
  qed
qed simp

end

text \<open>When no call fails, every finding is saved.\<close>

locale healthy_board = finding_board sink st board known inv
  for sink :: "'w FindingSink" and st :: "'w \<Rightarrow> 's" and board known inv +
  fixes fine :: "'w \<Rightarrow> bool"
  assumes upsert_fine: "fine w \<Longrightarrow> snk_UpsertCluster sink name ctx prov w = (r, w') \<Longrightarrow> inv (st w) \<Longrightarrow> \<not> isl r \<and> fine w'"
    and save_fine: "fine w \<Longrightarrow> snk_SaveFinding sink i f w = (err, w') \<Longrightarrow> inv (st w) \<Longrightarrow>
      known (st w) (rr_Cluster (fd_Resource f)) = Some i \<Longrightarrow> err = None \<and> fine w'"
begin

lemma clusterID_fine:
  assumes "clusterID name s = (r, s')" and "coherent s" and "fine (snd s)"
  shows "\<not> isl r \<and> fine (snd s')"
proof -
  obtain c w where s: "s = (c, w)" by (cases s)
  obtain q w1 where u: "snk_UpsertCluster sink name [] [] w = (q, w1)" by fastforce
  have "inv (st w)" "cn_sink c = sink" using assms(2) by (simp_all add: coherent_def s)
  with upsert_fine [OF _ u] assms u show ?thesis
    by (auto simp: clusterID_def s split: option.splits sum.splits)
qed

lemma persist_one_fine:
  assumes "coherent s" and "fine (snd s)"
  shows "fine (snd (persist_one f s)) \<and> board (st (snd (persist_one f s))) = spec_save f (board (st (snd s)))"
proof -
  obtain r c w where id: "clusterID (rr_Cluster (fd_Resource f)) s = (r, (c, w))" by (metis prod.exhaust)
  note cid = clusterID_coherent [OF id assms(1)]
  from clusterID_fine [OF id assms] obtain i where r: "r = Inr i" and fine: "fine w" by (cases r) auto
  obtain err w1 where s: "snk_SaveFinding sink i f w = (err, w1)" by fastforce
  have i: "inv (st w)" "known (st w) (rr_Cluster (fd_Resource f)) = Some i"
    using cid r by (simp_all add: coherent_def)
  from save [OF s i] save_fine [OF fine s i] id cid r s show ?thesis
    by (auto simp: persist_one_def coherent_def Let_def)
qed

lemma persist_all_fine:
  "coherent s \<Longrightarrow> fine (snd s) \<Longrightarrow>
     board (st (snd (fold persist_one fs s))) = fold spec_save fs (board (st (snd s)))"
  by (induction fs arbitrary: s) (simp_all add: persist_one_fine persist_one_coherent)

end

end
