(* ===== verification/ControllerStore.thy ===== *)
theory ControllerStore
  imports Controller
begin

text \<open>
  The controller as the program wires it (newControllerCmd of cmd/voujr/main.go): the SQLite store as
  its sink, the gauges of the metrics, the notifier as alerter. The world is the host of the
  process; each call on the store draws its environment from a supply.
\<close>

section \<open>The host\<close>

record 'v Host =
  hs_db :: DB
  hs_env :: "nat \<Rightarrow> env"
  hs_calls :: nat
  hs_gauges :: "string \<times> string \<Rightarrow> nat option"
  hs_log :: "LogLine list"
  hs_rest :: 'v

definition sqlite_sink :: "'v Host FindingSink" where
  "sqlite_sink =
     \<lparr>snk_UpsertCluster = (\<lambda>name ctx prov h.
        case UpsertCluster (hs_env h (hs_calls h)) name ctx prov (hs_db h) of
          (r, db') \<Rightarrow> (r, h\<lparr>hs_db := db', hs_calls := hs_calls h + 1\<rparr>)),
      snk_SaveFinding = (\<lambda>i f h.
        case SaveFinding (hs_env h (hs_calls h)) i f (hs_db h) of
          (r, db') \<Rightarrow> (r, h\<lparr>hs_db := db', hs_calls := hs_calls h + 1\<rparr>))\<rparr>"

definition SetFinding :: "'v Host MetricsSink" where
  "SetFinding category severity n h = h\<lparr>hs_gauges := (hs_gauges h)((category, severity) \<mapsto> n)\<rparr>"

definition host_log :: "LogLine \<Rightarrow> 'v Host \<Rightarrow> 'v Host" where
  "host_log l h = h\<lparr>hs_log := hs_log h @ [l]\<rparr>"

text \<open>A collaborator that acts on the rest of the host.\<close>

definition on_rest :: "('v \<Rightarrow> 'r \<times> 'v) \<Rightarrow> 'v Host \<Rightarrow> 'r \<times> 'v Host" where
  "on_rest f h = (case f (hs_rest h) of (r, v) \<Rightarrow> (r, h\<lparr>hs_rest := v\<rparr>))"

definition hosted_controller ::
  "'v Scanner \<Rightarrow> 'v Alerter option \<Rightarrow> string list \<Rightarrow> string \<Rightarrow> int \<Rightarrow> 'v Host Controller" where
  "hosted_controller scan al names ns interval =
     New_Controller host_log
       \<lparr>cc_Scanner = (\<lambda>cs n. on_rest (scan cs n)), cc_Sink = sqlite_sink,
        cc_Alerter = map_option (\<lambda>a fs. on_rest (a fs)) al, cc_Metrics = Some SetFinding, cc_Log = Some host_log,
        cc_Clusters = names, cc_Namespace = ns, cc_Interval = interval\<rparr>"

section \<open>The board of the SQLite store\<close>

definition cluster_name :: "DB \<Rightarrow> string option \<Rightarrow> string" where
  "cluster_name db k =
     (case k of
        None \<Rightarrow> []
      | Some i \<Rightarrow> (case find (\<lambda>c. cr_id c = i) (db_clusters db) of None \<Rightarrow> [] | Some c \<Rightarrow> cr_name c))"

definition board_of :: "DB \<Rightarrow> board" where
  "board_of db k =
     map_option (\<lambda>r. (cluster_name db (fr_cluster r), fr_severity r, fr_status r)) (finding_of db k)"

definition board_inv :: "DB \<Rightarrow> bool" where
  "board_inv db \<longleftrightarrow> findings_unique db \<and> distinct (map cr_id (db_clusters db)) \<and>
     [] \<notin> set (map cr_id (db_clusters db)) \<and>
     (\<forall>k \<in> set (map fr_cluster (db_findings db)). fk_ok k (map cr_id (db_clusters db)))"

lemma wf_board_inv: "wf_DB cph db \<Longrightarrow> [] \<notin> set (map cr_id (db_clusters db)) \<Longrightarrow> board_inv db"
  by (simp add: wf_DB_defs board_inv_def findings_unique_def Let_def)

definition store_part :: "'v Host \<Rightarrow> DB \<times> (nat \<Rightarrow> env)" where
  "store_part h = (hs_db h, hs_env h)"

definition uuids_ok :: "(nat \<Rightarrow> env) \<Rightarrow> bool" where
  "uuids_ok envs \<longleftrightarrow> (\<forall>n. env_uuid (envs n) \<noteq> [])"

text \<open>No driver failure and fresh uuids from now on.\<close>

definition store_fine :: "'v Host \<Rightarrow> bool" where
  "store_fine h \<longleftrightarrow>
     (\<forall>n \<ge> hs_calls h. (\<forall>i. env_fault (hs_env h n) i = None) \<and>
        env_uuid (hs_env h n) \<notin> set (map cr_id (db_clusters (hs_db h))) \<and>
        env_uuid (hs_env h n) \<notin> set (map fr_id (db_findings (hs_db h))) \<and>
        (\<forall>m \<ge> hs_calls h. m \<noteq> n \<longrightarrow> env_uuid (hs_env h m) \<noteq> env_uuid (hs_env h n)))"

lemma UpsertCluster_cases:
  assumes "UpsertCluster e name ctx prov db = (r, db')"
  obtains (failed) err where "r = Inl err" "db' = db"
  | (found) i where "r = Inr i" "db' = db" "cluster_id db name = Some i"
  | (created) row where "r = Inr (env_uuid e)" "db' = db\<lparr>db_clusters := db_clusters db @ [row]\<rparr>"
      "cr_id row = env_uuid e" "cr_name row = name" "cluster_id db name = None"
      "env_uuid e \<notin> set (map cr_id (db_clusters db))"
proof (cases "env_fault e 0")
  case (Some err)
  with assms failed show ?thesis by (auto simp: UpsertCluster_def)
next
  case no0: None
  show ?thesis
  proof (cases "find (\<lambda>c. cr_name c = name) (db_clusters db)")
    case (Some c)
    with assms no0 found show ?thesis by (auto simp: UpsertCluster_def cluster_id_def)
  next
    case None
    show ?thesis
    proof (cases "env_fault e 1")
      case (Some err)
      with assms None no0 failed show ?thesis by (auto simp: UpsertCluster_def)
    next
      case no1: None
      with assms None no0 failed created show ?thesis
        by (auto simp: UpsertCluster_def cluster_id_def Let_def split: if_splits)
    qed
  qed
qed

lemma cluster_name_append:
  assumes "fk_ok k (map cr_id (db_clusters db))"
  shows "cluster_name (db\<lparr>db_clusters := db_clusters db @ [row]\<rparr>) k = cluster_name db k"
proof (cases k)
  case (Some i)
  with assms have "i \<in> set (map cr_id (db_clusters db))" by (simp add: fk_ok_def)
  then obtain c where "find (\<lambda>c. cr_id c = i) (db_clusters db) = Some c"
    by (metis find_None_iff_key not_None_eq)
  with Some show ?thesis by (simp add: cluster_name_def find_append)
qed (simp add: cluster_name_def)

lemma finding_of_member: "finding_of db k = Some r \<Longrightarrow> r \<in> set (db_findings db)"
  unfolding finding_of_def by (auto simp: find_Some_iff)

lemma find_key_distinct:
  "distinct (map key xs) \<Longrightarrow> x \<in> set xs \<Longrightarrow> find (\<lambda>y. key y = key x) xs = Some x"
  by (induction xs) (auto simp: image_iff)

lemma cluster_name_known:
  assumes "distinct (map cr_id (db_clusters db))" and "cluster_id db name = Some i"
  shows "cluster_name db (Some i) = name"
proof -
  obtain c where c: "find (\<lambda>c. cr_name c = name) (db_clusters db) = Some c" "cr_id c = i"
    using assms(2) by (auto simp: cluster_id_def)
  then have "c \<in> set (db_clusters db)" "cr_name c = name" by (auto simp: find_Some_iff)
  with find_key_distinct [OF assms(1), of c] c(2) show ?thesis by (simp add: cluster_name_def)
qed

lemma cluster_name_cong: "db_clusters db' = db_clusters db \<Longrightarrow> cluster_name db' = cluster_name db"
  by (simp add: fun_eq_iff cluster_name_def split: option.split)

lemma board_of_clusters:
  assumes "board_inv db"
  shows "board_of (db\<lparr>db_clusters := db_clusters db @ [row]\<rparr>) = board_of db"
proof
  fix k
  have f: "finding_of (db\<lparr>db_clusters := db_clusters db @ [row]\<rparr>) k = finding_of db k" by (simp add: finding_of_def)
  show "board_of (db\<lparr>db_clusters := db_clusters db @ [row]\<rparr>) k = board_of db k"
  proof (cases "finding_of db k")
    case (Some r)
    with finding_of_member assms have "fk_ok (fr_cluster r) (map cr_id (db_clusters db))"
      by (force simp: board_inv_def)
    with Some f show ?thesis by (simp add: board_of_def cluster_name_append)
  qed (simp add: board_of_def f)
qed

lemma upsert_board:
  assumes "UpsertCluster e name ctx prov db = (r, db')" and "board_inv db" and "env_uuid e \<noteq> []"
  shows "board_inv db' \<and> board_of db' = board_of db \<and> cluster_id db \<subseteq>\<^sub>m cluster_id db' \<and>
    (\<forall>i. r = Inr i \<longrightarrow> cluster_id db' name = Some i)"
  using assms(1)
proof (cases rule: UpsertCluster_cases)
  case (created row)
  from created(2,5) have id: "cluster_id db' = (cluster_id db)(name \<mapsto> env_uuid e)"
    using created(3,4) by (auto simp: fun_eq_iff cluster_id_def find_append split: option.splits)
  have "board_inv db'" using created(2,3,6) assms(2,3) by (auto simp: board_inv_def findings_unique_def)
  moreover have "board_of db' = board_of db" by (simp only: created(2) board_of_clusters [OF assms(2)])
  ultimately show ?thesis using created(1,5) id by (auto simp: map_le_def)
qed (use assms(2) in auto)

lemma save_board:
  assumes "SaveFinding e i f db = (err, db')" and "board_inv db" and "cluster_id db (rr_Cluster (fd_Resource f)) = Some i"
  shows "board_inv db' \<and> cluster_id db' = cluster_id db \<and>
    board_of db' = (if err = None then spec_save f (board_of db) else board_of db)"
proof -
  have u: "findings_unique db'" using assms(2) by (intro SaveFinding_unique [OF _ assms(1)]) (simp add: board_inv_def)
  have i: "i \<noteq> []" using assms(2) cluster_id_key [OF assms(3)] unfolding board_inv_def by metis
  from assms(1) show ?thesis
  proof (cases rule: SaveFinding_cases)
    case (failed x)
    with assms(2) show ?thesis by simp
  next
    case (updated r)
    have same: "db_clusters db' = db_clusters db" by (subst updated(7)) simp
    have "board_inv db'" using assms(2) u same updated(6) by (simp add: board_inv_def)
    moreover have "cluster_id db' = cluster_id db" by (simp add: fun_eq_iff cluster_id_def same)
    moreover have "board_of db' = spec_save f (board_of db)"
      by (auto simp: fun_eq_iff board_of_def spec_save_def updated(2,3) cluster_name_cong [OF same])
    ultimately show ?thesis by (simp add: updated(1))
  next
    case inserted
    have same: "db_clusters db' = db_clusters db" by (subst inserted(4)) simp
    have "board_inv db'" using assms(2) u inserted(4,6) by (simp add: board_inv_def same)
    moreover have "cluster_id db' = cluster_id db" by (simp add: fun_eq_iff cluster_id_def same)
    moreover have "cluster_name db (Some i) = rr_Cluster (fd_Resource f)"
      using assms(2,3) by (intro cluster_name_known) (simp_all add: board_inv_def)
    then have "board_of db' = spec_save f (board_of db)"
      using i by (auto simp: fun_eq_iff board_of_def spec_save_def inserted(2,3) cluster_name_cong [OF same] nullStr_def)
    ultimately show ?thesis by (simp add: inserted(1))
  qed
qed

interpretation sqlite: healthy_board sqlite_sink store_part "board_of \<circ> fst" "cluster_id \<circ> fst"
  "\<lambda>(db, envs). board_inv db \<and> uuids_ok envs" store_fine
proof
  fix name ctx prov and w w' :: "'v Host" and r
  assume a: "snk_UpsertCluster sqlite_sink name ctx prov w = (r, w')"
    and i: "case store_part w of (db, envs) \<Rightarrow> board_inv db \<and> uuids_ok envs"
  then obtain db' where u: "UpsertCluster (hs_env w (hs_calls w)) name ctx prov (hs_db w) = (r, db')"
    and w': "w' = w\<lparr>hs_db := db', hs_calls := hs_calls w + 1\<rparr>"
    by (auto simp: sqlite_sink_def split: prod.splits)
  from i have inv: "board_inv (hs_db w)" "env_uuid (hs_env w (hs_calls w)) \<noteq> []"
    by (simp_all add: store_part_def uuids_ok_def)
  from upsert_board [OF u inv] i
  show "(case store_part w' of (db, envs) \<Rightarrow> board_inv db \<and> uuids_ok envs) \<and>
      (board_of \<circ> fst) (store_part w') = (board_of \<circ> fst) (store_part w) \<and>
      (cluster_id \<circ> fst) (store_part w) \<subseteq>\<^sub>m (cluster_id \<circ> fst) (store_part w') \<and>
      (\<forall>i. r = Inr i \<longrightarrow> (cluster_id \<circ> fst) (store_part w') name = Some i)"
    by (simp add: store_part_def w')
next
  fix name ctx prov and w w' :: "'v Host" and r
  assume fine: "store_fine w" and a: "snk_UpsertCluster sqlite_sink name ctx prov w = (r, w')"
  then obtain db' where u: "UpsertCluster (hs_env w (hs_calls w)) name ctx prov (hs_db w) = (r, db')"
    and w': "w' = w\<lparr>hs_db := db', hs_calls := hs_calls w + 1\<rparr>"
    by (auto simp: sqlite_sink_def split: prod.splits)
  from fine have now: "\<And>i. env_fault (hs_env w (hs_calls w)) i = None"
    "env_uuid (hs_env w (hs_calls w)) \<notin> set (map cr_id (db_clusters (hs_db w)))"
    by (auto simp: store_fine_def)
  from u show "\<not> isl r \<and> store_fine w'"
  proof (cases rule: UpsertCluster_cases)
    case (failed err)
    with u now show ?thesis by (auto simp: UpsertCluster_def Let_def split: option.splits if_splits)
  next
    case (found i)
    with fine show ?thesis by (auto simp: w' store_fine_def)
  next
    case (created row)
    with fine show ?thesis by (auto simp: w' store_fine_def)
  qed
next
  fix i f and w w' :: "'v Host" and err
  assume a: "snk_SaveFinding sqlite_sink i f w = (err, w')"
    and inv: "case store_part w of (db, envs) \<Rightarrow> board_inv db \<and> uuids_ok envs"
    and known: "(cluster_id \<circ> fst) (store_part w) (rr_Cluster (fd_Resource f)) = Some i"
  then obtain db' where s: "SaveFinding (hs_env w (hs_calls w)) i f (hs_db w) = (err, db')"
    and w': "w' = w\<lparr>hs_db := db', hs_calls := hs_calls w + 1\<rparr>"
    by (auto simp: sqlite_sink_def split: prod.splits)
  from save_board [OF s] inv known
  show "(case store_part w' of (db, envs) \<Rightarrow> board_inv db \<and> uuids_ok envs) \<and>
      (cluster_id \<circ> fst) (store_part w') = (cluster_id \<circ> fst) (store_part w) \<and>
      (board_of \<circ> fst) (store_part w') =
        (if err = None then spec_save f ((board_of \<circ> fst) (store_part w)) else (board_of \<circ> fst) (store_part w))"
    by (simp add: store_part_def w')
next
  fix i f and w w' :: "'v Host" and err
  assume fine: "store_fine w" and a: "snk_SaveFinding sqlite_sink i f w = (err, w')"
    and inv: "case store_part w of (db, envs) \<Rightarrow> board_inv db \<and> uuids_ok envs"
    and known: "(cluster_id \<circ> fst) (store_part w) (rr_Cluster (fd_Resource f)) = Some i"
  then obtain db' where s: "SaveFinding (hs_env w (hs_calls w)) i f (hs_db w) = (err, db')"
    and w': "w' = w\<lparr>hs_db := db', hs_calls := hs_calls w + 1\<rparr>"
    by (auto simp: sqlite_sink_def split: prod.splits)
  have "i \<in> set (map cr_id (db_clusters (hs_db w)))" using known by (intro cluster_id_key) (simp add: store_part_def)
  then have fk: "fk_ok (nullStr i) (map cr_id (db_clusters (hs_db w)))" by (simp add: fk_ok_def nullStr_def)
  from fine have now: "\<And>i. env_fault (hs_env w (hs_calls w)) i = None"
    "env_uuid (hs_env w (hs_calls w)) \<notin> set (map fr_id (db_findings (hs_db w)))"
    by (auto simp: store_fine_def)
  from s show "err = None \<and> store_fine w'"
  proof (cases rule: SaveFinding_cases)
    case (failed x)
    with s now fk show ?thesis by (auto simp: SaveFinding_def split: if_splits)
  next
    case (updated r)
    have "db_clusters db' = db_clusters (hs_db w)" by (subst updated(7)) simp
    with updated(1,5) fine show ?thesis by (auto simp: w' store_fine_def)
  next
    case inserted
    have "db_clusters db' = db_clusters (hs_db w)" by (subst inserted(4)) simp
    moreover have "map fr_id (db_findings db') = map fr_id (db_findings (hs_db w)) @ [env_uuid (hs_env w (hs_calls w))]"
      by (subst inserted(4)) simp
    ultimately show ?thesis using inserted(1) fine by (auto simp: w' store_fine_def)
  qed
qed

section \<open>Ticks and runs\<close>

text \<open>A controller wired to the host, its cache of cluster ids right.\<close>

definition hosted :: "'v Host Controller \<Rightarrow> 'v Host \<Rightarrow> bool" where
  "hosted c h \<longleftrightarrow>
     (\<exists>scan al names ns interval ids. c = (hosted_controller scan al names ns interval)\<lparr>cn_clusterIDs := ids\<rparr>) \<and>
     board_inv (hs_db h) \<and> uuids_ok (hs_env h) \<and> map_of (cn_clusterIDs c) \<subseteq>\<^sub>m cluster_id (hs_db h)"

lemma hosted_controller_hosted:
  "board_inv (hs_db h) \<Longrightarrow> uuids_ok (hs_env h) \<Longrightarrow> hosted (hosted_controller scan al names ns interval) h"
  by (auto simp: hosted_def hosted_controller_def New_Controller_def intro!: exI [of _ "[]"])

lemma hosted_coherent: "hosted c h \<Longrightarrow> sqlite.coherent (c, h)"
  by (auto simp: hosted_def sqlite.coherent_def hosted_controller_def New_Controller_def store_part_def host_log_def)

text \<open>The persisting steps change only the cache of the controller, and neither gauges nor the rest.\<close>

lemma persist_one_frame:
  assumes "cn_sink c = sqlite_sink" and "cn_log c = host_log" and "persist_one f (c, h) = (c', h')"
  shows "(\<exists>ids. c' = c\<lparr>cn_clusterIDs := ids\<rparr>) \<and> hs_rest h' = hs_rest h \<and> hs_gauges h' = hs_gauges h"
proof -
  obtain r c1 h1 where id: "clusterID (rr_Cluster (fd_Resource f)) (c, h) = (r, (c1, h1))" by (metis prod.exhaust)
  have 1: "(\<exists>ids. c1 = c\<lparr>cn_clusterIDs := ids\<rparr>) \<and> hs_rest h1 = hs_rest h \<and> hs_gauges h1 = hs_gauges h"
    using id assms(1) by (auto simp: clusterID_def sqlite_sink_def split: option.splits sum.splits prod.splits
        intro: exI [of _ "cn_clusterIDs c"])
  then have "cn_sink c1 = sqlite_sink" "cn_log c1 = host_log" using assms by auto
  with 1 id assms(3) show ?thesis
    by (auto simp: persist_one_def sqlite_sink_def host_log_def Let_def split: sum.splits option.splits prod.splits)
qed

lemma persist_frame:
  assumes "cn_sink c = sqlite_sink" and "cn_log c = host_log" and "fold persist_one fs (c, h) = (c', h')"
  shows "(\<exists>ids. c' = c\<lparr>cn_clusterIDs := ids\<rparr>) \<and> hs_rest h' = hs_rest h \<and> hs_gauges h' = hs_gauges h"
  using assms
proof (induction fs arbitrary: c h)
  case Nil
  then show ?case by (auto intro: exI [of _ "cn_clusterIDs c"])
next
  case (Cons f fs)
  obtain c1 h1 where one: "persist_one f (c, h) = (c1, h1)" by fastforce
  from persist_one_frame [OF Cons.prems(1,2) one] obtain ids where
    1: "c1 = c\<lparr>cn_clusterIDs := ids\<rparr>" "hs_rest h1 = hs_rest h" "hs_gauges h1 = hs_gauges h" by blast
  from Cons.IH [of c1 h1] Cons.prems one 1 show ?case by fastforce
qed

lemma updateGauges_host:
  assumes "cn_metrics c = Some SetFinding"
  shows "hs_db (updateGauges c fs h) = hs_db h \<and> hs_env (updateGauges c fs h) = hs_env h \<and>
    (\<forall>cat \<in> set allCategories. \<forall>s \<in> set allSeverities.
       hs_gauges (updateGauges c fs h) (cat, s) = Some (bucket_count fs cat s))"
  using assms by (simp add: updateGauges_def SetFinding_def allCategories_def allSeverities_def)

lemma alert_step_host:
  assumes "cn_alerter c = map_option (\<lambda>a fs. on_rest (a fs)) al" and "cn_log c = host_log"
  shows "hs_db (alert_step c fs h) = hs_db h \<and> hs_env (alert_step c fs h) = hs_env h \<and>
    hs_gauges (alert_step c fs h) = hs_gauges h"
  using assms by (auto simp: alert_step_def on_rest_def host_log_def split: option.splits prod.splits)

text \<open>What the scan of a tick returns.\<close>

definition scanned :: "'w Controller \<Rightarrow> 'w \<Rightarrow> go_error + Report" where
  "scanned c w = fst (cn_scanner c (cn_clusters c) (cn_namespace c) w)"

lemma tick_host:
  assumes "hosted c h" and "tick clk (c, h) = (c', h')"
  shows "hosted c' h' \<and>
    (case scanned c h of
       Inl e \<Rightarrow> board_of (hs_db h') = board_of (hs_db h) \<and> hs_gauges h' = hs_gauges h
     | Inr rep \<Rightarrow>
         (\<exists>saved \<in> set (subseqs (rep_Findings rep)).
            board_of (hs_db h') = fold spec_save saved (board_of (hs_db h)) \<and>
            (store_fine h \<longrightarrow> saved = rep_Findings rep)) \<and>
         (\<forall>cat \<in> set allCategories. \<forall>s \<in> set allSeverities.
            hs_gauges h' (cat, s) = Some (bucket_count (rep_Findings rep) cat s)))"
proof -
  obtain scan al names ns interval ids where c: "c = (hosted_controller scan al names ns interval)\<lparr>cn_clusterIDs := ids\<rparr>"
    using assms(1) by (auto simp: hosted_def)
  note con = c hosted_controller_def New_Controller_def
  obtain q v where sc: "scan names ns (hs_rest h) = (q, v)" by fastforce
  let ?h1 = "h\<lparr>hs_rest := v\<rparr>"
  have scn: "cn_scanner c (cn_clusters c) (cn_namespace c) h = (q, ?h1)" by (simp add: con on_rest_def sc)
  have h1: "hosted c ?h1" using assms(1) by (simp add: hosted_def)
  show ?thesis
  proof (cases q)
    case (Inl e)
    with assms(2) scn have "c' = c" "h' = host_log (log_line ''ERROR'' ''audit scan failed'' [(''error'', AttrErr e)]) ?h1"
      by (auto simp: tick_def con)
    with h1 Inl show ?thesis by (simp add: scanned_def scn hosted_def host_log_def)
  next
    case (Inr rep)
    let ?fs = "rep_Findings rep"
    obtain c2 h2 where p: "fold persist_one ?fs (c, ?h1) = (c2, h2)" by fastforce
    have cs: "cn_sink c = sqlite_sink" "cn_log c = host_log" by (simp_all add: con)
    from persist_frame [OF cs p] obtain ids2 where c2: "c2 = c\<lparr>cn_clusterIDs := ids2\<rparr>" by blast
    let ?h3 = "updateGauges c2 ?fs h2"
    let ?h4 = "alert_step c2 ?fs ?h3"
    have c'h': "c' = c2" "\<exists>l. h' = host_log l ?h4"
      using assms(2) scn Inr p by (auto simp: tick_def Let_def c2 con)
    have g: "cn_metrics c2 = Some SetFinding" "cn_alerter c2 = map_option (\<lambda>a fs. on_rest (a fs)) al" "cn_log c2 = host_log"
      by (simp_all add: c2 con)
    note ug = updateGauges_host [OF g(1), of ?fs h2] and as = alert_step_host [OF g(2,3), of ?fs ?h3]
    have h': "hs_db h' = hs_db h2" "hs_env h' = hs_env h2" "hs_gauges h' = hs_gauges ?h3"
      using c'h'(2) ug as by (auto simp: host_log_def)
    from sqlite.persist_refines [OF hosted_coherent [OF h1], of ?fs] obtain saved where
      co: "sqlite.coherent (c2, h2)" and saved: "saved \<in> set (subseqs ?fs)"
      "board_of (hs_db h2) = fold spec_save saved (board_of (hs_db h))"
      by (auto simp: p store_part_def)
    have all: "board_of (hs_db h2) = fold spec_save ?fs (board_of (hs_db h))" if "store_fine h"
      using sqlite.persist_all_fine [OF hosted_coherent [OF h1], of ?fs] that by (simp add: p store_part_def store_fine_def)
    have "\<exists>ids'. c2 = (hosted_controller scan al names ns interval)\<lparr>cn_clusterIDs := ids'\<rparr>" by (auto simp: c2 c)
    then have "\<exists>scan al names ns interval ids. c' = (hosted_controller scan al names ns interval)\<lparr>cn_clusterIDs := ids\<rparr>"
      using c'h'(1) by blast
    then have "hosted c' h'" using co c'h'(1) by (simp add: hosted_def sqlite.coherent_def h' store_part_def)
    moreover have "\<exists>saved \<in> set (subseqs ?fs). board_of (hs_db h') = fold spec_save saved (board_of (hs_db h)) \<and>
        (store_fine h \<longrightarrow> saved = ?fs)"
    proof (cases "store_fine h")
      case True
      have "?fs \<in> set (subseqs ?fs)" by (simp add: subseqs_refl)
      with all [OF True] show ?thesis unfolding h' by blast
    qed (use saved h' in auto)
    moreover have "scanned c h = Inr rep" by (simp add: scanned_def scn Inr)
    ultimately show ?thesis using ug h'(3) by simp
  qed
qed

text \<open>
  While the controller sleeps other processes may use the database: they keep its invariant and what
  is in it, as every operation of the store does.
\<close>

definition sleeps_well :: "('v Host \<Rightarrow> 'v Host) \<Rightarrow> bool" where
  "sleeps_well f \<longleftrightarrow>
     (\<forall>h. board_inv (hs_db h) \<longrightarrow> board_inv (hs_db (f h)) \<and> cluster_id (hs_db h) \<subseteq>\<^sub>m cluster_id (hs_db (f h)) \<and>
        dom (board_of (hs_db h)) \<subseteq> dom (board_of (hs_db (f h))) \<and> hs_env (f h) = hs_env h)"

fun wake_effect :: "'w wake \<Rightarrow> 'w \<Rightarrow> 'w" where
  "wake_effect (Tick f) = f"
| "wake_effect (Cancelled f e) = f"

fun cancellation :: "'w wake list \<Rightarrow> go_error option" where
  "cancellation [] = None"
| "cancellation (Tick f # ws) = cancellation ws"
| "cancellation (Cancelled f e # ws) = Some e"

lemma hosted_wake:
  assumes "hosted c h" and "sleeps_well f"
  shows "hosted c (f h) \<and> dom (board_of (hs_db h)) \<subseteq> dom (board_of (hs_db (f h)))"
  using assms by (auto simp: hosted_def sleeps_well_def intro: map_le_trans)

lemma dom_spec_save: "dom (spec_save f b) = insert (DedupKey f) (dom b)"
  by (simp add: spec_save_def)

lemma dom_spec_saves: "dom (fold spec_save fs b) = DedupKey ` set fs \<union> dom b"
  by (induction fs arbitrary: b) (auto simp: dom_spec_save)

lemma tick_dom:
  assumes "hosted c h" and "tick clk (c, h) = (c', h')"
  shows "hosted c' h' \<and> dom (board_of (hs_db h)) \<subseteq> dom (board_of (hs_db h'))"
proof (cases "scanned c h")
  case (Inl e)
  with tick_host [OF assms] show ?thesis by simp
next
  case (Inr rep)
  with tick_host [OF assms] obtain saved where "hosted c' h'" "board_of (hs_db h') = fold spec_save saved (board_of (hs_db h))"
    by auto
  then show ?thesis by (simp add: dom_spec_saves)
qed

lemma cancellation_None: "cancellation ws = None \<longleftrightarrow> (\<forall>w \<in> set ws. \<exists>f. w = Tick f)"
  by (induction ws rule: cancellation.induct) auto

lemma cancellation_Some:
  "cancellation ws = Some e \<Longrightarrow> \<exists>pre f post. ws = pre @ Cancelled f e # post \<and> (\<forall>w \<in> set pre. \<exists>g. w = Tick g)"
proof (induction ws rule: cancellation.induct)
  case (2 f ws)
  then obtain pre g post where "ws = pre @ Cancelled g e # post" "\<forall>w \<in> set pre. \<exists>g. w = Tick g" by auto
  then show ?case by (intro exI [of _ "Tick f # pre"]) auto
next
  case (3 f x ws)
  then show ?case by (intro exI [of _ "[]"]) auto
qed simp

lemma run_loop_host:
  assumes "run_loop clk ws (c, h) = (r, (c', h'))" and "hosted c h"
    and "\<And>w. w \<in> set ws \<Longrightarrow> sleeps_well (wake_effect w)"
  shows "r = cancellation ws \<and> hosted c' h' \<and> dom (board_of (hs_db h)) \<subseteq> dom (board_of (hs_db h'))"
  using assms
proof (induction clk ws "(c, h)" arbitrary: c h rule: run_loop.induct)
  case (2 clk f ws c w)
  obtain c1 h1 where t: "tick clk (c, f w) = (c1, h1)" by fastforce
  have f: "sleeps_well f" using 2(4) [of "Tick f"] by simp
  note 1 = hosted_wake [OF 2(3) f]
  note 3 = tick_dom [OF conjunct1 [OF 1] t]
  have "r = cancellation ws \<and> hosted c' h' \<and> dom (board_of (hs_db h1)) \<subseteq> dom (board_of (hs_db h'))"
    using 2(2,4) 3 by (intro 2(1) [of c1 h1]) (auto simp: t)
  moreover from this 1 3 have "dom (board_of (hs_db w)) \<subseteq> dom (board_of (hs_db h'))" by (meson order_trans)
  ultimately show ?case by simp
next
  case (3 clk f e ws c w)
  have f: "sleeps_well f" using 3(3) [of "Cancelled f e"] by simp
  have "cn_log c = host_log" using 3(2) by (auto simp: hosted_def hosted_controller_def New_Controller_def)
  with 3(1) hosted_wake [OF 3(2) f] show ?case by (auto simp: hosted_def host_log_def)
qed auto

section \<open>Properties\<close>

text \<open>C9: A tick brings the store and the gauges up to date with the scan: over the SQLite store, and whatever calls
  on it fail, the board of findings (by dedup key: cluster, severity, status) changes as by saving
  some of the reported findings in order, and all of them when no call fails; every bucket of
  category and severity shows the number of findings just reported, also when it has dropped to none.
  A failed scan changes neither. The controller stays wired, with its cache of cluster ids right.\<close>

theorem tick_refines_the_board:
  assumes "hosted c h" and "tick clk (c, h) = (c', h')"
  shows "(\<forall>rep. scanned c h = Inr rep \<longrightarrow>
      (\<exists>saved \<in> set (subseqs (rep_Findings rep)).
         board_of (hs_db h') = fold spec_save saved (board_of (hs_db h)) \<and>
         (store_fine h \<longrightarrow> saved = rep_Findings rep)) \<and>
      (\<forall>cat s. cat \<in> {Reliability, Security, Cost, Optimization} \<and> s \<in> {P0, P1, P2, P3} \<longrightarrow>
         hs_gauges h' (cat, s) = Some (bucket_count (rep_Findings rep) cat s))) \<and>
    (\<forall>e. scanned c h = Inl e \<longrightarrow> board_of (hs_db h') = board_of (hs_db h) \<and> hs_gauges h' = hs_gauges h) \<and>
    hosted c' h'"
proof -
  have "set allCategories = {Reliability, Security, Cost, Optimization}" "set allSeverities = {P0, P1, P2, P3}"
    by (simp_all add: allCategories_def allSeverities_def)
  with tick_host [OF assms] show ?thesis by (cases "scanned c h") auto
qed

text \<open>C25: The controller runs until its context is cancelled and no failure ends it: whatever scans, store calls and
  alerts do, it returns exactly when a cancellation wakes it, with the context's error; and at every
  moment the cache of cluster ids is right and no finding that was once on the board is gone.\<close>

theorem controller_runs_until_cancelled:
  assumes "hosted c h" and "Controller_Run clk ws (c, h) = (r, (c', h'))"
    and "\<forall>w \<in> set ws. sleeps_well (wake_effect w)"
  shows "(r = None \<longleftrightarrow> (\<forall>w \<in> set ws. \<exists>f. w = Tick f)) \<and>
    (\<forall>e. r = Some e \<longrightarrow> (\<exists>pre f post. ws = pre @ Cancelled f e # post \<and> (\<forall>w \<in> set pre. \<exists>g. w = Tick g))) \<and>
    hosted c' h' \<and> dom (board_of (hs_db h)) \<subseteq> dom (board_of (hs_db h'))"
proof -
  have log: "cn_log c = host_log" using assms(1) by (auto simp: hosted_def hosted_controller_def New_Controller_def)
  let ?h0 = "host_log (log_line ''INFO'' ''controller started''
    [(''interval'', AttrInt (cn_interval c)), (''namespace'', AttrStr (nsOrAll (cn_namespace c)))]) h"
  obtain c1 h1 where t: "tick clk (c, ?h0) = (c1, h1)" by fastforce
  have 0: "hosted c ?h0" "hs_db ?h0 = hs_db h" using assms(1) by (simp_all add: hosted_def host_log_def)
  have run: "run_loop clk ws (c1, h1) = (r, (c', h'))" using assms(2) by (simp add: Controller_Run_def log t)
  note 1 = tick_dom [OF 0(1) t]
  have 2: "r = cancellation ws \<and> hosted c' h' \<and> dom (board_of (hs_db h1)) \<subseteq> dom (board_of (hs_db h'))"
    by (rule run_loop_host [OF run]) (use 1 assms(3) in auto)
  have r: "r = cancellation ws" and h': "hosted c' h'" using 2 by simp_all
  have d: "dom (board_of (hs_db h)) \<subseteq> dom (board_of (hs_db h'))" using 1 2 0(2) by (metis order_trans)
  show ?thesis by (intro conjI allI impI, simp_all only: r cancellation_None h' d cancellation_Some)
qed

text \<open>A fleet of one cluster with two findings, and a store without failures.\<close>

definition demo_report :: Report where
  "demo_report = \<lparr>rep_StartedAt = 0, rep_Duration = 1, rep_Findings = [demo_finding P0, demo_finding P2]\<rparr>"

definition demo_uuid :: "nat \<Rightarrow> string" where
  "demo_uuid n = replicate (n + 1) CHR ''u''"

definition demo_host :: "nat Host" where
  "demo_host = \<lparr>hs_db = empty_DB, hs_env = (\<lambda>n. at_time (demo_uuid n) (int n)), hs_calls = 0,
     hs_gauges = (\<lambda>_. None), hs_log = [], hs_rest = 0\<rparr>"

definition demo_controller :: "nat Host Controller" where
  "demo_controller = hosted_controller (\<lambda>cs ns w. (Inr demo_report, w + 1)) None [] [] 0"

lemma demo_hosted: "hosted demo_controller demo_host"
  unfolding demo_controller_def
  by (rule hosted_controller_hosted)
    (simp_all add: demo_host_def board_inv_def findings_unique_def empty_DB_def uuids_ok_def at_time_def demo_uuid_def)

lemma demo_fine: "store_fine demo_host"
  by (auto simp: store_fine_def demo_host_def empty_DB_def at_time_def demo_uuid_def dest: arg_cong [where f = length])

theorem tick_refines_the_board_witness:
  "board_of (hs_db (snd (tick (\<lambda>_. 0) (demo_controller, demo_host)))) (DedupKey (demo_finding P2)) = Some (''kind'', P2, ''open'') \<and>
   hs_gauges (snd (tick (\<lambda>_. 0) (demo_controller, demo_host))) (Cost, P0) = Some 1"
proof -
  obtain c' h' where t: "tick (\<lambda>_. 0) (demo_controller, demo_host) = (c', h')" by fastforce
  have sc: "scanned demo_controller demo_host = Inr demo_report"
    by (simp add: scanned_def demo_controller_def hosted_controller_def New_Controller_def on_rest_def demo_host_def)
  have key: "DedupKey (demo_finding P2) = DedupKey (demo_finding P0)"
    by (simp add: DedupKey_def demo_finding_def dep_finding_def)
  have fd: "rr_Cluster (fd_Resource (demo_finding x)) = ''kind''" "fd_Severity (demo_finding x) = x" "fd_Category (demo_finding x) = Cost" for x
    by (simp_all add: demo_finding_def dep_finding_def dep_ref_def demo_snapshot_def)
  note T = tick_refines_the_board [OF demo_hosted t]
  have "board_of (hs_db h') = fold spec_save (rep_Findings demo_report) (board_of (hs_db demo_host))"
    using T sc demo_fine by auto
  moreover have "hs_gauges h' (Cost, P0) = Some (bucket_count (rep_Findings demo_report) Cost P0)" using T sc by auto
  ultimately show ?thesis
    by (simp add: t demo_report_def spec_save_def key fd bucket_count_def)
      (simp add: fd board_of_def finding_of_def demo_host_def empty_DB_def)
qed

theorem controller_runs_until_cancelled_witness:
  "\<exists>c' h'. Controller_Run (\<lambda>_. 0) [Tick (\<lambda>h. h), Cancelled (\<lambda>h. h) (ErrNew ''context canceled''), Tick (\<lambda>h. h)]
     (demo_controller, demo_host) = (Some (ErrNew ''context canceled''), (c', h')) \<and> hosted c' h'"
proof -
  let ?ws = "[Tick (\<lambda>h. h), Cancelled (\<lambda>h. h) (ErrNew ''context canceled''), Tick (\<lambda>h. h)] :: nat Host wake list"
  obtain r c' h' where run: "Controller_Run (\<lambda>_. 0) ?ws (demo_controller, demo_host) = (r, (c', h'))" by (metis prod.exhaust)
  have "\<forall>w \<in> set ?ws. sleeps_well (wake_effect w)" by (simp add: sleeps_well_def)
  note R = controller_runs_until_cancelled [OF demo_hosted run this]
  have "\<not> (\<forall>w \<in> set ?ws. \<exists>f. w = Tick f)" by simp
  then obtain e where e: "r = Some e" using conjunct1 [OF R] by blast
  obtain pre f post where p: "?ws = pre @ Cancelled f e # post" "\<forall>w \<in> set pre. \<exists>g. w = Tick g"
    using conjunct1 [OF conjunct2 [OF R]] e by blast
  have "e = ErrNew ''context canceled''"
  proof (cases pre)
    case (Cons x pre')
    with p show ?thesis by (cases pre') auto
  qed (use p in simp)
  with run e have "Controller_Run (\<lambda>_. 0) ?ws (demo_controller, demo_host) = (Some (ErrNew ''context canceled''), (c', h'))"
    by simp
  moreover note conjunct1 [OF conjunct2 [OF conjunct2 [OF R]]]
  ultimately show ?thesis by blast
qed

end
