(* ===== verification/Config.thy ===== *)
theory Config
  imports ToolApi
begin

text \<open>
  The configuration (internal/config/config.go): the record of settings, its defaults, the layering of
  the two files and the environment over them, the API key and the validation; and the last layer,
  the flags of the root command (newRootCmd of cmd/voujr/main.go).

  What the process reads is a parameter: the environment (\<open>os.Getenv\<close>, empty for an unset variable),
  the home directory (empty if there is none), the files, and \<open>yaml.Unmarshal\<close>, a third-party
  function from a document and a configuration to the configuration it fills in and an error.
  Durations are in nanoseconds.
\<close>

section \<open>Paths (package filepath)\<close>

text \<open>\<open>filepath.Clean\<close> on the elements of a path, innermost first, and \<open>filepath.Join\<close>.\<close>

definition clean_step :: "bool \<Rightarrow> string \<Rightarrow> string list \<Rightarrow> string list" where
  "clean_step rooted x out =
     (if x = [] \<or> x = ''.'' then out
      else if x = ''..'' then
        (case out of
           [] \<Rightarrow> if rooted then [] else [''..'']
         | p # ps \<Rightarrow> if p = ''..'' then ''..'' # p # ps else ps)
      else x # out)"

definition path_clean :: "string \<Rightarrow> string" where
  "path_clean p =
     (let rooted = has_prefix p ''/'';
          parts = rev (fold (clean_step rooted) (split_on CHR ''/'' p) [])
      in if rooted then ''/'' @ join ''/'' parts else if parts = [] then ''.'' else join ''/'' parts)"

definition path_join :: "string list \<Rightarrow> string" where
  "path_join elems =
     (let xs = filter (\<lambda>x. x \<noteq> []) elems in if xs = [] then [] else path_clean (join ''/'' xs))"

section \<open>Settings\<close>

type_synonym Mode = string

abbreviation ModeReadOnly :: Mode where "ModeReadOnly \<equiv> ''read-only''"
abbreviation ModePropose :: Mode where "ModePropose \<equiv> ''propose''"
abbreviation ModeApply :: Mode where "ModeApply \<equiv> ''apply''"

record StoreConfig =
  st_Driver :: string
  st_DSN :: string

record IntegrationsConfig =
  in_PrometheusURL :: string

record AIConfig =
  ai_Gateway :: string
  ai_BaseURL :: string
  ai_DefaultProvider :: string
  ai_Tiers :: "(string \<times> string) list"
  ai_EmbeddingModel :: string
  ai_BudgetCents :: int
  ai_Timeout :: int

record AuditConfig =
  au_Enabled :: bool
  au_Interval :: int
  au_DisabledRules :: "string list"

record MCPServer =
  mc_Name :: string
  mc_Command :: string
  mc_Args :: "string list"
  mc_URL :: string

record ToolsConfig =
  tl_Enabled :: "string list"
  tl_AutoApprove :: "string list"
  tl_MCPServers :: "MCPServer list"

record ObserveConfig =
  ob_MetricsAddr :: string
  ob_OTLPEndpoint :: string
  ob_LogLevel :: string

record IncidentConfig =
  ic_SlackWebhook :: string
  ic_PagerDutyKey :: string
  ic_EscalateAtOrAbove :: string

record Settings =
  ac_Context :: string
  ac_Mode :: Mode
  ac_DataDir :: string
  ac_AI :: AIConfig
  ac_Audit :: AuditConfig
  ac_Tools :: ToolsConfig
  ac_Observe :: ObserveConfig
  ac_Incident :: IncidentConfig
  ac_Integrations :: IntegrationsConfig
  ac_Store :: StoreConfig

definition Default :: "string \<Rightarrow> Settings" where
  "Default home =
     \<lparr>ac_Context = [], ac_Mode = ModeReadOnly, ac_DataDir = path_join [home, ''.voujr''],
      ac_AI = \<lparr>ai_Gateway = ''portkey'', ai_BaseURL = [], ai_DefaultProvider = ''anthropic'',
        ai_Tiers = [(''fast'', ''anthropic/claude-haiku-4-5''), (''reasoning'', ''anthropic/claude-opus-4-8''),
          (''long'', ''anthropic/claude-sonnet-4-6'')],
        ai_EmbeddingModel = ''openai/text-embedding-3-small'', ai_BudgetCents = 0, ai_Timeout = 90 * 1000000000\<rparr>,
      ac_Audit = \<lparr>au_Enabled = True, au_Interval = 0, au_DisabledRules = []\<rparr>,
      ac_Tools = \<lparr>tl_Enabled = [], tl_AutoApprove = [], tl_MCPServers = []\<rparr>,
      ac_Observe = \<lparr>ob_MetricsAddr = [], ob_OTLPEndpoint = [], ob_LogLevel = ''info''\<rparr>,
      ac_Incident = \<lparr>ic_SlackWebhook = [], ic_PagerDutyKey = [], ic_EscalateAtOrAbove = ''P1''\<rparr>,
      ac_Integrations = \<lparr>in_PrometheusURL = []\<rparr>,
      ac_Store = \<lparr>st_Driver = [], st_DSN = []\<rparr>\<rparr>"

section \<open>Loading\<close>

abbreviation ErrNotExist :: go_error where "ErrNotExist \<equiv> Sentinel ''file does not exist''"

type_synonym getenv = "string \<Rightarrow> string"
type_synonym read_file = "string \<Rightarrow> go_error + string"
type_synonym unmarshal = "string \<Rightarrow> Settings \<Rightarrow> go_error option \<times> Settings"

definition configPaths :: "string \<Rightarrow> string list" where
  "configPaths home = [path_join [home, ''.voujr'', ''config.yaml''], ''voujr.yaml'']"

definition mergeFile :: "read_file \<Rightarrow> unmarshal \<Rightarrow> string \<Rightarrow> Settings \<Rightarrow> go_error option \<times> Settings" where
  "mergeFile read yaml path cfg =
     (case read path of
        Inl e \<Rightarrow> if errors_is e ErrNotExist then (None, cfg) else (Some e, cfg)
      | Inr b \<Rightarrow> yaml b cfg)"

fun merge_files :: "read_file \<Rightarrow> unmarshal \<Rightarrow> string list \<Rightarrow> Settings \<Rightarrow> go_error option \<times> Settings" where
  "merge_files read yaml [] cfg = (None, cfg)"
| "merge_files read yaml (p # ps) cfg =
     (case mergeFile read yaml p cfg of
        (Some e, cfg1) \<Rightarrow> (Some (errorf_prefix (''config '' @ p) e), cfg1)
      | (None, cfg1) \<Rightarrow> merge_files read yaml ps cfg1)"

text \<open>A variable that is set replaces the value.\<close>

definition env_or :: "getenv \<Rightarrow> string \<Rightarrow> string \<Rightarrow> string" where
  "env_or env name old = (if env name \<noteq> [] then env name else old)"

definition applyEnv :: "getenv \<Rightarrow> Settings \<Rightarrow> Settings" where
  "applyEnv env c =
     c\<lparr>ac_Mode := env_or env ''VOUJR_MODE'' (ac_Mode c),
       ac_Context := env_or env ''VOUJR_CONTEXT'' (ac_Context c),
       ac_AI := (ac_AI c)\<lparr>ai_BaseURL := env_or env ''PORTKEY_BASE_URL'' (ai_BaseURL (ac_AI c))\<rparr>,
       ac_Integrations := (ac_Integrations c)\<lparr>in_PrometheusURL := env_or env ''PROMETHEUS_URL'' (in_PrometheusURL (ac_Integrations c))\<rparr>,
       ac_Observe := (ac_Observe c)\<lparr>ob_MetricsAddr := env_or env ''VOUJR_METRICS_ADDR'' (ob_MetricsAddr (ac_Observe c))\<rparr>,
       ac_DataDir := env_or env ''VOUJR_DATA_DIR'' (ac_DataDir c),
       ac_Incident := (ac_Incident c)\<lparr>ic_SlackWebhook := env_or env ''SLACK_WEBHOOK_URL'' (ic_SlackWebhook (ac_Incident c)),
         ic_PagerDutyKey := env_or env ''PAGERDUTY_ROUTING_KEY'' (ic_PagerDutyKey (ac_Incident c))\<rparr>,
       ac_Store := (ac_Store c)\<lparr>st_Driver := env_or env ''VOUJR_DB_DRIVER'' (st_Driver (ac_Store c)),
         st_DSN := env_or env ''DATABASE_URL'' (st_DSN (ac_Store c))\<rparr>\<rparr>"

definition Load :: "string \<Rightarrow> getenv \<Rightarrow> read_file \<Rightarrow> unmarshal \<Rightarrow> Settings \<times> go_error option" where
  "Load home env read yaml =
     (case merge_files read yaml (configPaths home) (Default home) of
        (Some e, cfg) \<Rightarrow> (cfg, Some e)
      | (None, cfg) \<Rightarrow> (applyEnv env cfg, None))"

definition APIKey :: "getenv \<Rightarrow> AIConfig \<Rightarrow> go_error + string" where
  "APIKey env c =
     (if to_lower (ai_Gateway c) = ''portkey'' \<and> env ''PORTKEY_API_KEY'' \<noteq> [] then Inr (env ''PORTKEY_API_KEY'')
      else
        (case find (\<lambda>v. env v \<noteq> []) [''ANTHROPIC_API_KEY'', ''OPENAI_API_KEY'', ''GEMINI_API_KEY''] of
           Some v \<Rightarrow> Inr (env v)
         | None \<Rightarrow> Inl (ErrNew ''no API key found: set PORTKEY_API_KEY or a provider key'')))"

definition Validate :: "getenv \<Rightarrow> Settings \<Rightarrow> go_error option" where
  "Validate env c =
     (if ac_Mode c \<notin> {ModeReadOnly, ModePropose, ModeApply} then Some (ErrNew (''invalid mode '' @ go_quote (ac_Mode c)))
      else if ai_Tiers (ac_AI c) = [] then Some (ErrNew ''ai.tiers must define at least one model tier'')
      else
        (case APIKey env (ac_AI c) of
           Inl e \<Rightarrow> Some e
         | Inr k \<Rightarrow>
             if ac_Mode c = ModeApply \<and> ac_DataDir c = [] then Some (ErrNew ''apply mode requires data_dir for the audit log'')
             else None))"

text \<open>The root command: the flags over what was loaded, then the validation.\<close>

definition root_config ::
  "string \<Rightarrow> getenv \<Rightarrow> read_file \<Rightarrow> unmarshal \<Rightarrow> string \<Rightarrow> string \<Rightarrow> go_error + Settings" where
  "root_config home env read yaml kubeContext mode =
     (case Load home env read yaml of
        (_, Some e) \<Rightarrow> Inl e
      | (cfg, None) \<Rightarrow>
          (let cfg1 = (if kubeContext \<noteq> [] then cfg\<lparr>ac_Context := kubeContext\<rparr> else cfg);
               cfg2 = (if mode \<noteq> [] then cfg1\<lparr>ac_Mode := mode\<rparr> else cfg1)
           in case Validate env cfg2 of Some e \<Rightarrow> Inl e | None \<Rightarrow> Inr cfg2))"

section \<open>The layers\<close>

text \<open>One file layer: nothing if the file does not exist, what the document fills in otherwise.\<close>

definition file_layer :: "read_file \<Rightarrow> unmarshal \<Rightarrow> string \<Rightarrow> Settings \<Rightarrow> Settings \<Rightarrow> bool" where
  "file_layer read yaml path c c' \<longleftrightarrow>
     (\<exists>e. read path = Inl e \<and> errors_is e ErrNotExist \<and> c' = c) \<or> (\<exists>b. read path = Inr b \<and> yaml b c = (None, c'))"

definition first_set :: "string list \<Rightarrow> string" where
  "first_set xs = (case find (\<lambda>x. x \<noteq> []) xs of None \<Rightarrow> [] | Some x \<Rightarrow> x)"

lemma mergeFile_layer: "mergeFile read yaml path c = (None, c') \<longleftrightarrow> file_layer read yaml path c c'"
  by (auto simp: mergeFile_def file_layer_def split: sum.splits)

lemma merge_files_layers:
  "merge_files read yaml [p, q] c = (None, c2) \<longleftrightarrow> (\<exists>c1. file_layer read yaml p c c1 \<and> file_layer read yaml q c1 c2)"
  by (auto simp: mergeFile_layer [symmetric] split: prod.splits option.splits)

lemma Load_layers:
  "Load home env read yaml = (cfg, None) \<longleftrightarrow>
     (\<exists>c1 c2. file_layer read yaml (path_join [home, ''.voujr'', ''config.yaml'']) (Default home) c1 \<and>
        file_layer read yaml ''voujr.yaml'' c1 c2 \<and> cfg = applyEnv env c2)"
proof -
  have "Load home env read yaml = (cfg, None) \<longleftrightarrow>
      (\<exists>c2. merge_files read yaml [path_join [home, ''.voujr'', ''config.yaml''], ''voujr.yaml''] (Default home) = (None, c2) \<and>
         cfg = applyEnv env c2)"
    unfolding Load_def configPaths_def by (auto simp del: merge_files.simps split: prod.splits option.splits)
  then show ?thesis unfolding merge_files_layers by blast
qed

lemma Validate_iff:
  "Validate env c = None \<longleftrightarrow> ac_Mode c \<in> {ModeReadOnly, ModePropose, ModeApply} \<and> ai_Tiers (ac_AI c) \<noteq> [] \<and>
     (\<exists>k. APIKey env (ac_AI c) = Inr k \<and> k \<noteq> []) \<and> (ac_Mode c = ModeApply \<longrightarrow> ac_DataDir c \<noteq> [])"
proof -
  have "k \<noteq> []" if "APIKey env (ac_AI c) = Inr k" for k
    using that by (auto simp: APIKey_def find_Some_iff split: if_splits option.splits)
  then show ?thesis by (auto simp: Validate_def split: sum.splits)
qed

section \<open>Property\<close>


definition demo_getenv :: getenv where
  "demo_getenv v = (if v = ''VOUJR_MODE'' then ''apply'' else if v = ''OPENAI_API_KEY'' then ''k'' else [])"


end
