(* ===== verification/Resume.thy ===== *)
theory Resume
  imports StoreInv AgentTurn
begin

text \<open>
  Resuming a session: what was created and persisted by one process is what another one restores
  (the store's session and message operations and \<open>Restore\<close> of the agent together).
\<close>

section \<open>A run of appends\<close>

type_synonym append_op = "env \<times> string \<times> Message"

fun append_all :: "Encryptor option \<Rightarrow> append_op list \<Rightarrow> DB \<Rightarrow> go_error option list \<times> DB" where
  "append_all cph [] db = ([], db)"
| "append_all cph ((e, sid, m) # ops) db =
     (let (err, db1) = AppendMessage cph e sid m db; (errs, db2) = append_all cph ops db1 in (err # errs, db2))"

text \<open>The messages of one session whose append succeeded, in order, as they are stored.\<close>

fun stored_of :: "string \<Rightarrow> append_op list \<Rightarrow> go_error option list \<Rightarrow> Message list" where
  "stored_of sid ((e, s, m) # ops) (err # errs) =
     (if s = sid \<and> err = None then [stored_form m] else []) @ stored_of sid ops errs"
| "stored_of sid _ _ = []"

definition ops_time :: "append_op list \<Rightarrow> int list" where
  "ops_time ops = map (\<lambda>(e, s, m). env_now e) ops"

definition before :: "string \<Rightarrow> DB \<Rightarrow> int \<Rightarrow> bool" where
  "before sid db t \<longleftrightarrow> (\<forall>r \<in> set (db_messages db). mr_session r = sid \<longrightarrow> mr_created r \<le> t)"

lemma AppendMessage_failed: "AppendMessage cph e sid m db = (Some err, db') \<Longrightarrow> db' = db"
  by (auto simp: AppendMessage_def split: sum.splits option.splits if_splits)

lemma AppendMessage_before:
  "AppendMessage cph e s m db = (r, db') \<Longrightarrow> before sid db t \<Longrightarrow> t \<le> env_now e \<Longrightarrow> before sid db' (env_now e)"
  by (force simp: AppendMessage_def before_def split: sum.splits option.splits if_splits)

lemma before_mono: "before sid db t \<Longrightarrow> t \<le> t' \<Longrightarrow> before sid db t'"
  by (auto simp: before_def)

lemma load_after_append_all:
  assumes enc: "encryptor (store_enc cph) (store_dec cph)"
  shows "append_all cph ops db = (errs, db') \<Longrightarrow> sorted (ops_time ops) \<Longrightarrow>
    (\<And>t. t \<in> set (take 1 (ops_time ops)) \<Longrightarrow> before sid db t) \<Longrightarrow> LoadMessages cph e' sid db = Inr ms \<Longrightarrow>
    LoadMessages cph e' sid db' = Inr (ms @ stored_of sid ops errs)"
proof (induction ops arbitrary: db errs ms)
  case Nil
  then show ?case by simp
next
  case (Cons op ops)
  obtain e s m where op: "op = (e, s, m)" by (cases op)
  obtain err db1 where a: "AppendMessage cph e s m db = (err, db1)" by fastforce
  obtain errs1 where rest: "append_all cph ops db1 = (errs1, db')" and errs: "errs = err # errs1"
    using Cons.prems(1) a op by (auto simp: Let_def split: prod.splits)
  have b: "before sid db (env_now e)" using Cons.prems(3) op by (simp add: ops_time_def)
  have load1: "LoadMessages cph e' sid db1 = Inr (ms @ (if s = sid \<and> err = None then [stored_form m] else []))"
  proof (cases err)
    case (Some x)
    with AppendMessage_failed [OF a [unfolded Some]] Cons.prems(4) show ?thesis by simp
  next
    case None
    show ?thesis
    proof (cases "s = sid")
      case True
      from LoadMessages_AppendMessage [OF enc a [unfolded None True] _ Cons.prems(4)] b True None
      show ?thesis by (simp add: before_def)
    next
      case False
      with AppendMessage_others [OF a, of sid e'] Cons.prems(4) show ?thesis by simp
    qed
  qed
  have "before sid db1 t" if "t \<in> set (take 1 (ops_time ops))" for t
  proof -
    have "env_now e \<le> t" using Cons.prems(2) that op by (cases ops) (auto simp: ops_time_def)
    with AppendMessage_before [OF a b order_refl] show ?thesis by (rule before_mono)
  qed
  from Cons.IH [OF rest _ this load1] Cons.prems(2) show ?case by (simp add: op errs ops_time_def)
qed

section \<open>Properties\<close>

text \<open>A created session reads back, from any later process, with the mode, tools and budget it was created with,
  and under the cluster it was given; an id that no session has is reported as not found.\<close>

theorem created_session_reads_back:
  assumes "CreateSession e u c mode ts budget db = (Inr i, db')" and "env_fault e' 0 = None"
  shows "(\<exists>info. GetSession e' i db' = Inr info \<and> si_ID info = i \<and> si_Mode info = mode \<and> si_ClusterID info = c \<and>
      si_EnabledTools info = ts \<and> si_BudgetCents info = budget) \<and>
    (\<forall>j. j \<noteq> i \<longrightarrow> GetSession e' j db' = GetSession e' j db) \<and>
    GetSession e' i db = Inl ErrSessionNotFound"
proof -
  note c = CreateSession_ok [OF assms(1)]
  have "GetSession e' j db' = GetSession e' j db" if "j \<noteq> i" for j
    using c assms(2) that by (auto simp: GetSession_def find_append new_session_row_def split: option.splits)
  moreover have "GetSession e' i db = Inl ErrSessionNotFound"
  proof -
    have "find (\<lambda>r. sr_id r = i) (db_sessions db) = None" using c by blast
    then show ?thesis by (simp add: GetSession_def assms(2))
  qed
  ultimately show ?thesis using GetSession_CreateSession [OF assms] by blast
qed

text \<open>C13: Resuming gives the conversation back: after a session is created and messages are appended to it, with
  other sessions writing in between and some appends failing, loading it returns exactly the messages
  whose append succeeded, in order, with their tool calls (encryption included), as long as the clock
  does not go back; and the restored agent has the system preamble followed by them.\<close>

theorem resume_restores_the_conversation:
  assumes "reachable_db H cph db" and "cipher_ok cph" and "CreateSession e u c mode ts budget db = (Inr sid, db1)"
    and "append_all cph ops db1 = (errs, db2)" and "sorted (ops_time ops)" and "env_fault e' 0 = None"
  shows "LoadMessages cph e' sid db2 = Inr (stored_of sid ops errs) \<and>
    ag_history (Restore (stored_of sid ops errs) (New cf s)) = msg RoleSystem systemPreamble # stored_of sid ops errs"
proof
  note enc = cipher_ok_encryptor [OF assms(2)]
  have wf: "wf_DB cph db" by (rule reachable_wf_DB [OF assms(1) enc])
  note created = CreateSession_ok [OF assms(3)]
  have msgs: "db_messages db1 = db_messages db" using created by simp
  have "sid \<notin> set (map sr_id (db_sessions db))" using created find_None_iff_key [where key = sr_id] by metis
  with wf have none: "\<forall>r \<in> set (db_messages db1). mr_session r \<noteq> sid"
    by (auto simp: msgs wf_DB_defs Let_def)
  then have "filter (\<lambda>r. mr_session r = sid) (db_messages db1) = []" by (simp add: filter_empty_conv)
  then have "LoadMessages cph e' sid db1 = Inr []" by (simp add: LoadMessages_def assms(6))
  from load_after_append_all [OF enc assms(4,5) _ this] none
  show "LoadMessages cph e' sid db2 = Inr (stored_of sid ops errs)" by (simp add: before_def)
  show "ag_history (Restore (stored_of sid ops errs) (New cf s)) = msg RoleSystem systemPreamble # stored_of sid ops errs"
    by (simp add: Restore_def New_def)
qed

definition demo_ops :: "append_op list" where
  "demo_ops = [(at_time ''m1'' 2, ''s'', msg RoleUser ''hi''), (at_time ''m2'' 3, ''other'', msg RoleUser ''x''),
     (at_time ''m3'' 3, ''s'', \<lparr>m_Role = RoleAssistant, m_Content = [], m_ToolCalls = [demo_call], m_ToolCallID = [], m_Name = []\<rparr>)]"

lemma demo_create:
  "CreateSession (at_time ''s'' 1) [] [] ''propose'' [''kubectl_logs''] 5 empty_DB =
     (Inr ''s'', snd (CreateSession (at_time ''s'' 1) [] [] ''propose'' [''kubectl_logs''] 5 empty_DB))"
  by (simp add: CreateSession_def at_time_def empty_DB_def nullStr_def Let_def)

theorem created_session_reads_back_witness:
  "\<exists>info. GetSession (at_time [] 2) ''s'' (snd (CreateSession (at_time ''s'' 1) [] [] ''propose'' [''kubectl_logs''] 5 empty_DB)) = Inr info \<and>
     si_EnabledTools info = [''kubectl_logs''] \<and> si_BudgetCents info = 5"
  using created_session_reads_back [OF demo_create, of "at_time [] 2"] by (auto simp: at_time_def)

theorem resume_restores_the_conversation_witness:
  "\<exists>db2. append_all None demo_ops (snd (CreateSession (at_time ''s'' 1) [] [] ''propose'' [''kubectl_logs''] 5 empty_DB)) =
       ([None, Some constraint_error, None], db2) \<and>
     LoadMessages None (at_time [] 9) ''s'' db2 = Inr (stored_of ''s'' demo_ops [None, Some constraint_error, None])"
proof -
  obtain db2 where a: "append_all None demo_ops (snd (CreateSession (at_time ''s'' 1) [] [] ''propose'' [''kubectl_logs''] 5 empty_DB)) =
       ([None, Some constraint_error, None], db2)"
  proof -
    have "fst (append_all None demo_ops (snd (CreateSession (at_time ''s'' 1) [] [] ''propose'' [''kubectl_logs''] 5 empty_DB))) =
       [None, Some constraint_error, None]" by code_simp
    with that show ?thesis by (metis prod.collapse)
  qed
  have "sorted (ops_time demo_ops)" by (simp add: demo_ops_def ops_time_def at_time_def)
  moreover have "env_fault (at_time [] 9) 0 = None" by (simp add: at_time_def)
  ultimately have "LoadMessages None (at_time [] 9) ''s'' db2 = Inr (stored_of ''s'' demo_ops [None, Some constraint_error, None])"
    by (rule conjunct1 [OF resume_restores_the_conversation [where cf = demo_config and s = demo_start,
      OF reachable_db.empty demo_cipher_ok(1) demo_create a]])
  with a show ?thesis by blast
qed

end
