(* ===== verification/Startup.thy ===== *)
theory Startup
  imports ControllerStore Config Resume Wiring
begin

text \<open>
  The composition root (cmd/voujr/main.go): opening the store, connecting the clusters, adopting or
  creating the session, and the agent configuration that comes out of it. The world is the host of
  \<open>ControllerStore\<close>, whose database every store call acts on; the outside (opening a database, the
  health probe, the operating system's user) is a parameter.
\<close>

section \<open>Opening the store\<close>

datatype Backend = SQLiteAt string | PostgresAt string

record Opener =
  op_Postgres :: "string \<Rightarrow> go_error option"
  op_MkdirAll :: "string \<Rightarrow> go_error option"
  op_SQLite :: "string \<Rightarrow> go_error option"

definition open_backend :: "Opener \<Rightarrow> Settings \<Rightarrow> go_error + Backend" where
  "open_backend op cfg =
     (let driver = to_lower (st_Driver (ac_Store cfg)); dsn = st_DSN (ac_Store cfg)
      in if driver = ''postgres'' \<or> driver = ''postgresql'' \<or> driver = ''pgx'' then
           (if dsn = [] then Inl (ErrNew ''postgres driver requires store.dsn (or DATABASE_URL)'')
            else (case op_Postgres op dsn of Some e \<Rightarrow> Inl (errorf_prefix ''open postgres'' e) | None \<Rightarrow> Inr (PostgresAt dsn)))
         else
           (case op_MkdirAll op (ac_DataDir cfg) of
              Some e \<Rightarrow> Inl (errorf_prefix ''create data dir'' e)
            | None \<Rightarrow>
                (let path = path_join [ac_DataDir cfg, ''state.db'']
                 in case op_SQLite op path of
                      Some e \<Rightarrow> Inl (errorf_prefix ''open store'' e) | None \<Rightarrow> Inr (SQLiteAt path))))"

text \<open>The store that was opened and the cipher it uses.\<close>

definition openStore ::
  "Opener \<Rightarrow> (string \<Rightarrow> string) \<Rightarrow> (string \<Rightarrow> go_error + AEAD) \<Rightarrow> getenv \<Rightarrow> Settings \<Rightarrow> go_error + Backend \<times> Encryptor option" where
  "openStore op sha256 mk env cfg =
     (case open_backend op cfg of
        Inl e \<Rightarrow> Inl e
      | Inr b \<Rightarrow>
          (let key = env ''VOUJR_DB_KEY''
           in if key = [] then Inr (b, None)
              else
                (case NewCipher mk (DeriveKey sha256 key) of
                   Inl e \<Rightarrow> Inl (errorf_prefix ''db encryption'' e)
                 | Inr A \<Rightarrow> Inr (b, Some (Cipher_Encryptor A)))))"

section \<open>Clusters\<close>

text \<open>\<open>health\<close> is the liveness probe of \<open>Cluster.Health\<close>, one call on the API server.\<close>

definition connectCluster ::
  "connector \<Rightarrow> (Cluster \<Rightarrow> 'w \<Rightarrow> go_error option \<times> 'w) \<Rightarrow> Settings \<Rightarrow> bool \<Rightarrow> 'w \<Rightarrow>
   (go_error + ClusterRegistry \<times> Cluster) \<times> 'w" where
  "connectCluster conn health cfg inCluster w =
     (case Add conn (ac_Context cfg) (ac_Context cfg) inCluster New_ClusterRegistry of
        (Inl e, r) \<Rightarrow> (Inl (errorf_prefix ''connect cluster'' e), w)
      | (Inr c, r) \<Rightarrow>
          (case health c w of
             (Some e, w1) \<Rightarrow> (Inl (errorf_prefix ''cluster unreachable'' e), w1)
           | (None, w1) \<Rightarrow> (Inr (r, c), w1)))"

text \<open>The extra contexts: those that cannot be registered only leave a warning.\<close>

definition add_extra :: "connector \<Rightarrow> string \<Rightarrow> string \<Rightarrow> ClusterRegistry \<times> string list \<Rightarrow> ClusterRegistry \<times> string list" where
  "add_extra conn primary extra = (\<lambda>(r, warnings).
     (if extra = [] \<or> extra = primary then (r, warnings)
      else
        (case Add conn extra extra False r of
           (Inl e, r1) \<Rightarrow>
             (r1, warnings @ [''warning: cluster '' @ go_quote extra @ '' not registered: '' @ error_text e @ newline])
         | (Inr c, r1) \<Rightarrow> (r1, warnings))))"

section \<open>The session\<close>

definition store_call :: "(env \<Rightarrow> DB \<Rightarrow> 'r \<times> DB) \<Rightarrow> 'v Host \<Rightarrow> 'r \<times> 'v Host" where
  "store_call f h =
     (case f (hs_env h (hs_calls h)) (hs_db h) of (r, db') \<Rightarrow> (r, h\<lparr>hs_db := db', hs_calls := hs_calls h + 1\<rparr>))"

definition store_read :: "(env \<Rightarrow> DB \<Rightarrow> 'r) \<Rightarrow> 'v Host \<Rightarrow> 'r \<times> 'v Host" where
  "store_read f = store_call (\<lambda>e db. (f e db, db))"

text \<open>Resuming: the settings take over what the session was created with; the mode always.\<close>

definition adopt_session :: "SessionInfo \<Rightarrow> Settings \<Rightarrow> Settings" where
  "adopt_session info cfg =
     (let cfg1 = (if ac_Context cfg = [] then cfg\<lparr>ac_Context := si_ClusterContext info\<rparr> else cfg);
          cfg2 = cfg1\<lparr>ac_Mode := si_Mode info\<rparr>
      in if tl_Enabled (ac_Tools cfg2) = []
         then cfg2\<lparr>ac_Tools := (ac_Tools cfg2)\<lparr>tl_Enabled := si_EnabledTools info\<rparr>\<rparr> else cfg2)"

definition resume_session ::
  "Encryptor option \<Rightarrow> string \<Rightarrow> Settings \<Rightarrow> 'v Host \<Rightarrow> (go_error + Settings \<times> string \<times> Message list) \<times> 'v Host" where
  "resume_session cph resumeID cfg h =
     (if resumeID = [] then (Inr (cfg, [], []), h)
      else
        (case store_read (\<lambda>e. GetSession e resumeID) h of
           (Inl err, h1) \<Rightarrow> (Inl (errorf_prefix (''resume session '' @ resumeID) err), h1)
         | (Inr info, h1) \<Rightarrow>
             (case store_read (\<lambda>e. LoadMessages cph e (si_ID info)) h1 of
                (Inl err, h2) \<Rightarrow> (Inl (errorf_prefix ''load history'' err), h2)
              | (Inr ms, h2) \<Rightarrow> (Inr (adopt_session info cfg, si_ID info, ms), h2))))"

definition osUsername :: "(go_error + string) \<Rightarrow> string" where
  "osUsername current = (case current of Inr u \<Rightarrow> if u \<noteq> [] then u else ''local'' | Inl e \<Rightarrow> ''local'')"

definition new_session :: "string \<Rightarrow> Cluster \<Rightarrow> Settings \<Rightarrow> 'v Host \<Rightarrow> (go_error + string) \<times> 'v Host" where
  "new_session user c cfg h =
     (case store_call (\<lambda>e. EnsureUser e user [] ''admin'') h of
        (Inl err, h1) \<Rightarrow> (Inl (errorf_prefix ''ensure user'' err), h1)
      | (Inr userID, h1) \<Rightarrow>
          (case store_call (\<lambda>e. UpsertCluster e (c_Name c) (ac_Context cfg) []) h1 of
             (Inl err, h2) \<Rightarrow> (Inl (errorf_prefix ''upsert cluster'' err), h2)
           | (Inr cid, h2) \<Rightarrow>
               (case store_call (\<lambda>e. CreateSession e userID cid (ac_Mode cfg) (tl_Enabled (ac_Tools cfg))
                                   (ai_BudgetCents (ac_AI cfg))) h2 of
                  (Inl err, h3) \<Rightarrow> (Inl (errorf_prefix ''create session'' err), h3)
                | (Inr i, h3) \<Rightarrow> (Inr i, h3))))"

section \<open>From the settings to the agent\<close>

record Started =
  rn_cfg :: Settings
  rn_sessionID :: string
  rn_resumed :: "Message list"
  rn_clusters :: ClusterRegistry
  rn_cluster :: Cluster
  rn_warnings :: "string list"
  rn_apiKey :: string

record 'v Outside =
  os_connect :: connector
  os_health :: "Cluster \<Rightarrow> 'v Host \<Rightarrow> go_error option \<times> 'v Host"
  os_user :: "go_error + string"
  os_getenv :: getenv

text \<open>\<open>run\<close> up to the construction of the agent.\<close>

definition start_session ::
  "'v Outside \<Rightarrow> Encryptor option \<Rightarrow> Settings \<Rightarrow> bool \<Rightarrow> string \<Rightarrow> string list \<Rightarrow> 'v Host \<Rightarrow> (go_error + Started) \<times> 'v Host" where
  "start_session os cph cfg inCluster resumeID extras h =
     (case resume_session cph resumeID cfg h of
        (Inl e, h1) \<Rightarrow> (Inl e, h1)
      | (Inr (cfg1, sid, ms), h1) \<Rightarrow>
          (case connectCluster (os_connect os) (os_health os) cfg1 inCluster h1 of
             (Inl e, h2) \<Rightarrow> (Inl e, h2)
           | (Inr (reg, c), h2) \<Rightarrow>
               (let (reg1, warnings) = fold (add_extra (os_connect os) (c_Name c)) extras (reg, []);
                    (r, h3) = (if sid = [] then new_session (osUsername (os_user os)) c cfg1 h2 else (Inr sid, h2))
                in case r of
                     Inl e \<Rightarrow> (Inl e, h3)
                   | Inr sid1 \<Rightarrow>
                       (case APIKey (os_getenv os) (ac_AI cfg1) of
                          Inl e \<Rightarrow> (Inl e, h3)
                        | Inr key \<Rightarrow>
                            (Inr \<lparr>rn_cfg = cfg1, rn_sessionID = sid1, rn_resumed = ms, rn_clusters = reg1,
                                  rn_cluster = c, rn_warnings = warnings, rn_apiKey = key\<rparr>, h3)))))"

definition session_policy :: "Started \<Rightarrow> SessionPolicy" where
  "session_policy s =
     \<lparr>sp_SessionID = rn_sessionID s, sp_Mode = ac_Mode (rn_cfg s), sp_Enabled = tl_Enabled (ac_Tools (rn_cfg s)),
      sp_Cluster = c_Name (rn_cluster s), sp_DryRunFirst = True\<rparr>"

definition model_info :: "string \<Rightarrow> string \<Rightarrow> int \<Rightarrow> rat \<Rightarrow> rat \<Rightarrow> ModelInfo" where
  "model_info ref tier window inp outp =
     \<lparr>mi_Ref = ref, mi_ContextWindow = window, mi_InputCentsPerMTok = inp, mi_OutputCentsPerMTok = outp, mi_Tier = tier\<rparr>"

definition modelCatalog :: "Settings \<Rightarrow> ModelInfo list" where
  "modelCatalog cfg =
     [model_info ''anthropic/claude-haiku-4-5'' ''fast'' 200000 100 500,
      model_info ''anthropic/claude-sonnet-4-6'' ''long'' 1000000 300 1500,
      model_info ''anthropic/claude-opus-4-8'' ''reasoning'' 200000 1500 7500,
      model_info ''openai/gpt-5'' ''reasoning'' 400000 1250 10000,
      model_info ''gemini/gemini-2.5-pro'' ''long'' 2000000 125 1000]"

text \<open>
  The agent's configuration: persistence, accounting and memory go to the store under the session's
  id; the collaborators made elsewhere (provider, registry, API server, metrics) are arguments.
\<close>

definition agent_config ::
  "'v Host Provider \<Rightarrow> 'v Host Registry \<Rightarrow> ('v Host \<Rightarrow> ClusterRegistry) \<Rightarrow> 'v Host KubeApi \<Rightarrow> (32 word \<Rightarrow> real) \<Rightarrow>
   Encryptor option \<Rightarrow> (string \<Rightarrow> Usage \<Rightarrow> 'v Host \<Rightarrow> 'v Host) \<Rightarrow> (int \<Rightarrow> 'v Host \<Rightarrow> 'v Host) \<Rightarrow>
   (AgentEvent \<Rightarrow> 'v Host \<Rightarrow> 'v Host) \<Rightarrow> ('v Host \<Rightarrow> int) \<Rightarrow> ('v Host \<Rightarrow> go_error option) \<Rightarrow> Started \<Rightarrow> 'v Host Config" where
  "agent_config prov reg cl api val cph meter onTurn ui clk ctx s =
     \<lparr>cf_Provider = prov, cf_Router = NewRouter (ai_Tiers (ac_AI (rn_cfg s))), cf_Registry = reg, cf_Clusters = cl,
      cf_Api = api, cf_Session = session_policy s, cf_MaxSteps = 0,
      cf_BudgetCents = ai_BudgetCents (ac_AI (rn_cfg s)),
      cf_Persist = Some (\<lambda>m. store_call (\<lambda>e. AppendMessage cph e (rn_sessionID s) m)),
      cf_RecordUsage = Some (\<lambda>u reason h.
        store_call (\<lambda>e. RecordUsage e (rn_sessionID s) (p_Name prov) u reason) (meter (p_Name prov) u h)),
      cf_Memory = Some (\<lambda>q k h.
        case memoryStore_Recall val prov cph (\<lambda>h. hs_env h (hs_calls h)) hs_db q k h of
          (r, h1) \<Rightarrow> (r, h1\<lparr>hs_calls := hs_calls h1 + 1\<rparr>)),
      cf_OnTurn = Some onTurn, cf_Emit = ui, cf_Clock = clk, cf_Done = ctx\<rparr>"

definition start_agent :: "'v Host Config \<Rightarrow> Started \<Rightarrow> 'v Host st \<Rightarrow> 'v Host Agent" where
  "start_agent c s w = (if rn_resumed s \<noteq> [] then Restore (rn_resumed s) (New c w) else New c w)"

section \<open>What the start leaves\<close>

lemma store_call_sel [simp]:
  "store_call f h = (r, h') \<longleftrightarrow>
     (\<exists>db'. f (hs_env h (hs_calls h)) (hs_db h) = (r, db') \<and> h' = h\<lparr>hs_db := db', hs_calls := hs_calls h + 1\<rparr>)"
  by (auto simp: store_call_def split: prod.split)

lemma store_read_sel [simp]:
  "store_read f h = (r, h') \<longleftrightarrow>
     r = f (hs_env h (hs_calls h)) (hs_db h) \<and> h' = h\<lparr>hs_calls := hs_calls h + 1\<rparr>"
  by (auto simp: store_read_def)

lemma GetSession_any_env:
  "GetSession e i db = Inr info \<Longrightarrow> env_fault e' 0 = None \<Longrightarrow> GetSession e' i db = Inr info"
  by (auto simp: GetSession_def split: option.splits)

lemma LoadMessages_any_env:
  "LoadMessages cph e i db = Inr ms \<Longrightarrow> env_fault e' 0 = None \<Longrightarrow> LoadMessages cph e' i db = Inr ms"
  by (auto simp: LoadMessages_def split: option.splits)

lemma GetSession_id: "GetSession e i db = Inr info \<Longrightarrow> si_ID info = i"
  by (auto simp: GetSession_def session_info_def find_Some_iff Let_def split: option.splits)

lemma resume_session_ok:
  assumes "resume_session cph resumeID cfg h = (Inr (cfg1, sid, ms), h1)" and "resumeID \<noteq> []"
  obtains info where "GetSession (hs_env h (hs_calls h)) resumeID (hs_db h) = Inr info" "sid = resumeID"
    "cfg1 = adopt_session info cfg" "LoadMessages cph (hs_env h (Suc (hs_calls h))) resumeID (hs_db h) = Inr ms"
    "hs_db h1 = hs_db h"
  using assms by (auto simp: resume_session_def GetSession_id split: prod.splits sum.splits)

lemma new_session_ok:
  assumes "new_session user c cfg h = (Inr i, h')"
  obtains e u cid db where "CreateSession e u cid (ac_Mode cfg) (tl_Enabled (ac_Tools cfg)) (ai_BudgetCents (ac_AI cfg)) db = (Inr i, hs_db h')"
    "db_messages db = db_messages (hs_db h)"
proof -
  from assms obtain userID h1 cid h2 where
    1: "store_call (\<lambda>e. EnsureUser e user [] ''admin'') h = (Inr userID, h1)"
    and 2: "store_call (\<lambda>e. UpsertCluster e (c_Name c) (ac_Context cfg) []) h1 = (Inr cid, h2)"
    and 3: "store_call (\<lambda>e. CreateSession e userID cid (ac_Mode cfg) (tl_Enabled (ac_Tools cfg)) (ai_BudgetCents (ac_AI cfg))) h2 = (Inr i, h')"
    by (auto simp: new_session_def simp del: store_call_sel split: prod.splits sum.splits)
  have "db_messages (hs_db h1) = db_messages (hs_db h)"
    using 1 by (auto simp: EnsureUser_def Let_def split: option.splits if_splits)
  moreover have "db_messages (hs_db h2) = db_messages (hs_db h1)"
    using 2 by (auto simp: UpsertCluster_def Let_def split: option.splits if_splits)
  ultimately show ?thesis using 3 that [of _ userID cid "hs_db h2"] by auto
qed

text \<open>The stages of a start that succeeded.\<close>

lemma start_session_ok:
  assumes "start_session os cph cfg inCluster resumeID extras h = (Inr s, h')"
  obtains sid h1 reg h2 where "resume_session cph resumeID cfg h = (Inr (rn_cfg s, sid, rn_resumed s), h1)"
    "connectCluster (os_connect os) (os_health os) (rn_cfg s) inCluster h1 = (Inr (reg, rn_cluster s), h2)"
    "(if sid = [] then new_session (osUsername (os_user os)) (rn_cluster s) (rn_cfg s) h2 else (Inr sid, h2)) = (Inr (rn_sessionID s), h')"
    "APIKey (os_getenv os) (ac_AI (rn_cfg s)) = Inr (rn_apiKey s)"
proof -
  obtain q h1 where r: "resume_session cph resumeID cfg h = (q, h1)" by fastforce
  with assms obtain cfg1 sid ms where q: "q = Inr (cfg1, sid, ms)"
    by (cases q) (auto simp: start_session_def)
  obtain k h2 where c: "connectCluster (os_connect os) (os_health os) cfg1 inCluster h1 = (k, h2)" by fastforce
  with assms r q obtain reg cl where k: "k = Inr (reg, cl)" by (cases k) (auto simp: start_session_def)
  obtain reg1 ws where f: "fold (add_extra (os_connect os) (c_Name cl)) extras (reg, []) = (reg1, ws)" by fastforce
  obtain i h3 where n: "(if sid = [] then new_session (osUsername (os_user os)) cl cfg1 h2 else (Inr sid, h2)) = (i, h3)"
    by fastforce
  from assms have "(case i of Inl e \<Rightarrow> (Inl e, h3)
      | Inr sid1 \<Rightarrow> (case APIKey (os_getenv os) (ac_AI cfg1) of Inl e \<Rightarrow> (Inl e, h3)
          | Inr key \<Rightarrow> (Inr \<lparr>rn_cfg = cfg1, rn_sessionID = sid1, rn_resumed = ms, rn_clusters = reg1,
                            rn_cluster = cl, rn_warnings = ws, rn_apiKey = key\<rparr>, h3))) = (Inr s, h')"
    unfolding start_session_def r q c k f n prod.case sum.case Let_def by simp
  then show ?thesis using r q c k n by (intro that [of sid h1 reg h2]) (auto split: sum.splits)
qed

lemma connectCluster_db:
  assumes "connectCluster conn health cfg inCluster h = (r, h')" and "\<And>c h. hs_db (snd (health c h)) = hs_db h"
  shows "hs_db h' = hs_db h"
proof -
  obtain q reg where a: "Add conn (ac_Context cfg) (ac_Context cfg) inCluster New_ClusterRegistry = (q, reg)" by fastforce
  show ?thesis
  proof (cases q)
    case (Inr c)
    obtain e h1 where "health c h = (e, h1)" by fastforce
    with assms(2) [of c h] assms(1) a Inr show ?thesis by (cases e) (auto simp: connectCluster_def)
  qed (use assms(1) a in \<open>auto simp: connectCluster_def\<close>)
qed

section \<open>Properties\<close>

text \<open>C19: The authority a session is enforced with is the one on record: after every successful start the store has
  a row for the session, and the mode of the policy the agent runs under is the mode of that row. A
  fresh session's row has the configured mode, tools and budget. A resumed session keeps its id, runs
  under its stored mode whatever the flag or the configuration said, with the configured tools or, if
  there are none, the stored ones; resuming writes nothing, and the agent starts with the preamble
  followed by the stored messages.\<close>

theorem session_authority_is_the_recorded_one:
  assumes "start_session os cph cfg inCluster resumeID extras h = (Inr s, h')" and "env_fault e 0 = None"
    and "\<forall>c h. hs_db (snd (os_health os c h)) = hs_db h"
  shows "\<exists>info. GetSession e (rn_sessionID s) (hs_db h') = Inr info \<and> sp_Mode (session_policy s) = si_Mode info \<and>
    sp_SessionID (session_policy s) = si_ID info \<and>
    (resumeID = [] \<longrightarrow> si_Mode info = ac_Mode cfg \<and> si_EnabledTools info = sp_Enabled (session_policy s) \<and>
       si_BudgetCents info = ai_BudgetCents (ac_AI cfg) \<and> rn_resumed s = []) \<and>
    (resumeID \<noteq> [] \<longrightarrow> si_ID info = resumeID \<and> hs_db h' = hs_db h \<and>
       sp_Enabled (session_policy s) =
         (if tl_Enabled (ac_Tools cfg) \<noteq> [] then tl_Enabled (ac_Tools cfg) else si_EnabledTools info) \<and>
       LoadMessages cph e resumeID (hs_db h) = Inr (rn_resumed s) \<and>
       ag_history (start_agent c s w) = msg RoleSystem systemPreamble # rn_resumed s)"
proof -
  obtain sid h1 reg h2 where st: "resume_session cph resumeID cfg h = (Inr (rn_cfg s, sid, rn_resumed s), h1)"
    "connectCluster (os_connect os) (os_health os) (rn_cfg s) inCluster h1 = (Inr (reg, rn_cluster s), h2)"
    "(if sid = [] then new_session (osUsername (os_user os)) (rn_cluster s) (rn_cfg s) h2 else (Inr sid, h2)) = (Inr (rn_sessionID s), h')"
    by (rule start_session_ok [OF assms(1)])
  have db2: "hs_db h2 = hs_db h1" by (rule connectCluster_db [OF st(2)]) (use assms(3) in simp)
  show ?thesis
  proof (cases "resumeID = []")
    case True
    with st(1) have c: "rn_cfg s = cfg" "sid = []" "rn_resumed s = []" by (simp_all add: resume_session_def)
    with st(3) have "new_session (osUsername (os_user os)) (rn_cluster s) cfg h2 = (Inr (rn_sessionID s), h')" by simp
    from new_session_ok [OF this] obtain e0 u cid db where
      "CreateSession e0 u cid (ac_Mode cfg) (tl_Enabled (ac_Tools cfg)) (ai_BudgetCents (ac_AI cfg)) db = (Inr (rn_sessionID s), hs_db h')" .
    from GetSession_CreateSession [OF this assms(2)] c True show ?thesis by (auto simp: session_policy_def)
  next
    case False
    from resume_session_ok [OF st(1) False] obtain info where
      i: "GetSession (hs_env h (hs_calls h)) resumeID (hs_db h) = Inr info" "sid = resumeID"
        "rn_cfg s = adopt_session info cfg" "LoadMessages cph (hs_env h (Suc (hs_calls h))) resumeID (hs_db h) = Inr (rn_resumed s)"
        "hs_db h1 = hs_db h" .
    from st(3) i(2) False have id: "rn_sessionID s = resumeID" "h' = h2" by simp_all
    have "GetSession e resumeID (hs_db h) = Inr info" by (rule GetSession_any_env [OF i(1) assms(2)])
    moreover have "LoadMessages cph e resumeID (hs_db h) = Inr (rn_resumed s)" by (rule LoadMessages_any_env [OF i(4) assms(2)])
    moreover have "ag_history (start_agent c s w) = msg RoleSystem systemPreamble # rn_resumed s"
      by (simp add: start_agent_def New_def Restore_def)
    ultimately show ?thesis using False id i(3,5) db2 GetSession_id [OF i(1)]
      by (simp add: session_policy_def adopt_session_def Let_def)
  qed
qed

text \<open>C39: With a database key set, the store never falls back to plaintext: opening it fails or gives it a cipher,
  and then the content of every stored message and the text of every stored memory is tagged
  ciphertext that reads back as what was stored; the tool calls of a message are the exception, their
  column holds them in clear.\<close>

theorem stored_content_is_encrypted:
  assumes "openStore op sha256 mk env cfg = Inr (b, cph)" and "env ''VOUJR_DB_KEY'' \<noteq> []"
    and "\<forall>k A. mk k = Inr A \<longrightarrow> aead_laws A"
  shows "(\<forall>e sid m db db'. AppendMessage cph e sid m db = (None, db') \<longrightarrow>
      (\<exists>row. db_messages db' = db_messages db @ [row] \<and> has_prefix (mr_content row) encPrefix \<and>
         store_dec cph (mr_content row) = Inr (m_Content m) \<and> mr_tool row = message_payload m)) \<and>
    (\<forall>e m db db'. SaveMemory cph e m db = (None, db') \<longrightarrow>
      (\<exists>row. db_memories db' = db_memories db @ [row] \<and> has_prefix (yr_text row) encPrefix \<and>
         store_dec cph (yr_text row) = Inr (me_Text m)))"
proof -
  obtain A where A: "cph = Some (Cipher_Encryptor A)" "mk (DeriveKey sha256 (env ''VOUJR_DB_KEY'')) = Inr A"
    using assms(1,2) by (auto simp: openStore_def NewCipher_def Let_def split: sum.splits if_splits)
  with assms(3) have laws: "aead_laws A" by blast
  have enc: "has_prefix c encPrefix \<and> store_dec cph c = Inr p" if "store_enc cph rd p = Inr c" for rd p c
    using that Decrypt_Encrypt [OF laws, of rd p c]
    by (auto simp: store_enc_def store_dec_def A(1) Cipher_Encryptor_def Encrypt_def Let_def split: option.splits)
  have "\<exists>row. db_messages db' = db_messages db @ [row] \<and> has_prefix (mr_content row) encPrefix \<and>
         store_dec cph (mr_content row) = Inr (m_Content m) \<and> mr_tool row = message_payload m"
    if "AppendMessage cph e sid m db = (None, db')" for e sid m db db'
    using that enc by (auto simp: AppendMessage_def split: sum.splits option.splits if_splits)
  moreover have "\<exists>row. db_memories db' = db_memories db @ [row] \<and> has_prefix (yr_text row) encPrefix \<and>
         store_dec cph (yr_text row) = Inr (me_Text m)"
    if "SaveMemory cph e m db = (None, db')" for e m db db'
    using that by (rule SaveMemory_ok) (use enc in auto)
  ultimately show ?thesis by blast
qed

definition demo_outside :: "nat Outside" where
  "demo_outside = \<lparr>os_connect = (\<lambda>ctx b. None), os_health = (\<lambda>c h. (None, h)), os_user = Inr ''ops'', os_getenv = demo_getenv\<rparr>"

definition demo_settings :: Settings where
  "demo_settings = (Default ''/home/u'')\<lparr>ac_Context := ''kind'', ac_Mode := ''propose''\<rparr>"

lemma demo_settings_sel [simp]:
  "ac_Context demo_settings = ''kind''" "ac_Mode demo_settings = ''propose''" "tl_Enabled (ac_Tools demo_settings) = []"
  "ai_BudgetCents (ac_AI demo_settings) = 0" "ai_Gateway (ac_AI demo_settings) = ''portkey''"
  by (simp_all add: demo_settings_def Default_def)

theorem session_authority_is_the_recorded_one_witness:
  "\<exists>s h' info. start_session demo_outside None demo_settings False [] [''kind'', ''staging''] demo_host = (Inr s, h') \<and>
     GetSession (at_time [] 9) (rn_sessionID s) (hs_db h') = Inr info \<and> si_Mode info = ''propose''"
proof -
  have conn: "connectCluster (os_connect demo_outside) (os_health demo_outside) demo_settings False demo_host =
      (Inr (\<lparr>clusters = [(''kind'', \<lparr>c_Name = ''kind'', c_Context = ''kind''\<rparr>)], active = ''kind''\<rparr>, \<lparr>c_Name = ''kind'', c_Context = ''kind''\<rparr>), demo_host)"
    by (simp add: connectCluster_def demo_outside_def Add_def Connect_def New_ClusterRegistry_def)
  have key: "APIKey (os_getenv demo_outside) (ac_AI demo_settings) = Inr ''k''"
    by (simp add: APIKey_def demo_outside_def demo_getenv_def)
  have "fst (new_session (osUsername (os_user demo_outside)) \<lparr>c_Name = ''kind'', c_Context = ''kind''\<rparr> demo_settings demo_host) = Inr ''uuu''"
    by code_simp
  then obtain i h1 where new: "new_session (osUsername (os_user demo_outside)) \<lparr>c_Name = ''kind'', c_Context = ''kind''\<rparr> demo_settings demo_host = (Inr i, h1)"
    by (metis prod.collapse)
  obtain s where s: "start_session demo_outside None demo_settings False [] [''kind'', ''staging''] demo_host = (Inr s, h1)"
    by (cases "fold (add_extra (os_connect demo_outside) ''kind'') [''kind'', ''staging'']
          (\<lparr>clusters = [(''kind'', \<lparr>c_Name = ''kind'', c_Context = ''kind''\<rparr>)], active = ''kind''\<rparr>, [])")
      (simp add: start_session_def resume_session_def conn new key del: fold_simps)
  have f: "env_fault (at_time [] 9) 0 = None" by (simp add: at_time_def)
  have "\<forall>c h. hs_db (snd (os_health demo_outside c h)) = hs_db h" by (simp add: demo_outside_def)
  from session_authority_is_the_recorded_one [OF s f this]
  obtain info where "GetSession (at_time [] 9) (rn_sessionID s) (hs_db h1) = Inr info" "si_Mode info = ''propose''" by auto
  with s show ?thesis by blast
qed

definition demo_db_key :: getenv where
  "demo_db_key v = (if v = ''VOUJR_DB_KEY'' then ''passphrase'' else [])"

definition demo_opener :: Opener where
  "demo_opener = \<lparr>op_Postgres = (\<lambda>_. None), op_MkdirAll = (\<lambda>_. None), op_SQLite = (\<lambda>_. None)\<rparr>"

theorem stored_content_is_encrypted_witness:
  "\<exists>b cph. openStore demo_opener (\<lambda>p. replicate 32 CHR ''x'') (\<lambda>k. Inr demo_aead) demo_db_key demo_settings = Inr (b, cph) \<and>
     (\<forall>e sid m db db'. AppendMessage cph e sid m db = (None, db') \<longrightarrow>
        (\<exists>row. db_messages db' = db_messages db @ [row] \<and> has_prefix (mr_content row) encPrefix))"
proof -
  let ?mk = "\<lambda>k :: string. Inr demo_aead :: go_error + AEAD"
  have "st_Driver (ac_Store demo_settings) = []" by (simp add: demo_settings_def Default_def)
  then obtain b cph where o: "openStore demo_opener (\<lambda>p. replicate 32 CHR ''x'') ?mk demo_db_key demo_settings = Inr (b, cph)"
    by (simp add: openStore_def open_backend_def demo_opener_def demo_db_key_def NewCipher_def DeriveKey_def to_lower_def Let_def)
  have k: "demo_db_key ''VOUJR_DB_KEY'' \<noteq> []" by (simp add: demo_db_key_def)
  have l: "\<forall>k A. ?mk k = Inr A \<longrightarrow> aead_laws A" using demo_aead_laws by simp
  show ?thesis using o conjunct1 [OF stored_content_is_encrypted [OF o k l]] by blast
qed

end
