(* ===== verification/Metrics.thy ===== *)
theory Metrics
  imports Ai Registry AuditEngine
begin

text \<open>
  The metrics (internal/observability/metrics.go) and the adapter that makes them an observer of the
  tool registry (metricsObserver of cmd/voujr/main.go). A counter is a function from label values, a
  histogram the list of its observations in seconds; the buckets are the Prometheus client's affair.
\<close>

text \<open>The level of the logger (internal/observability/logging.go) and the lines it lets through.\<close>

datatype LogLevel = LevelDebug | LevelInfo | LevelWarn | LevelError

fun level_rank :: "LogLevel \<Rightarrow> int" where
  "level_rank LevelDebug = -4"
| "level_rank LevelInfo = 0"
| "level_rank LevelWarn = 4"
| "level_rank LevelError = 8"

definition NewLogger :: "string \<Rightarrow> LogLevel" where
  "NewLogger level =
     (let l = to_lower level
      in if l = ''debug'' then LevelDebug
         else if l = ''warn'' \<or> l = ''warning'' then LevelWarn
         else if l = ''error'' then LevelError else LevelInfo)"

definition log_enabled :: "string \<Rightarrow> LogLevel \<Rightarrow> bool" where
  "log_enabled level l \<longleftrightarrow> level_rank (NewLogger level) \<le> level_rank l"

section \<open>Metrics\<close>

record Metrics =
  mx_ToolExecTotal :: "string \<times> string \<Rightarrow> nat"
  mx_ToolExecLatency :: "string \<Rightarrow> rat list"
  mx_TurnLatency :: "rat list"
  mx_AICostCents :: "string \<times> string \<Rightarrow> rat"
  mx_AITokens :: "string \<times> string \<times> string \<Rightarrow> int"
  mx_FindingsTotal :: "string \<times> string \<Rightarrow> int option"
  mx_ApprovalsTotal :: "string \<Rightarrow> nat"

definition NewMetrics :: Metrics where
  "NewMetrics =
     \<lparr>mx_ToolExecTotal = (\<lambda>_. 0), mx_ToolExecLatency = (\<lambda>_. []), mx_TurnLatency = [], mx_AICostCents = (\<lambda>_. 0),
      mx_AITokens = (\<lambda>_. 0), mx_FindingsTotal = (\<lambda>_. None), mx_ApprovalsTotal = (\<lambda>_. 0)\<rparr>"

definition Seconds :: "int \<Rightarrow> rat" where
  "Seconds ns = of_int ns / 1000000000"

definition RecordToolExec :: "string \<Rightarrow> string \<Rightarrow> int \<Rightarrow> Metrics \<Rightarrow> Metrics" where
  "RecordToolExec tool status d m =
     m\<lparr>mx_ToolExecTotal := (mx_ToolExecTotal m)((tool, status) := mx_ToolExecTotal m (tool, status) + 1),
       mx_ToolExecLatency := (mx_ToolExecLatency m)(tool := mx_ToolExecLatency m tool @ [Seconds d])\<rparr>"

definition RecordApproval :: "bool \<Rightarrow> Metrics \<Rightarrow> Metrics" where
  "RecordApproval approved m =
     (let decision = (if approved then ''approved'' else ''rejected'')
      in m\<lparr>mx_ApprovalsTotal := (mx_ApprovalsTotal m)(decision := mx_ApprovalsTotal m decision + 1)\<rparr>)"

definition RecordTurn :: "int \<Rightarrow> Metrics \<Rightarrow> Metrics" where
  "RecordTurn d m = m\<lparr>mx_TurnLatency := mx_TurnLatency m @ [Seconds d]\<rparr>"

definition RecordAIUsage :: "string \<Rightarrow> string \<Rightarrow> int \<Rightarrow> int \<Rightarrow> rat \<Rightarrow> Metrics \<Rightarrow> Metrics" where
  "RecordAIUsage provider model inTok outTok costCents m =
     (let tokens = (mx_AITokens m)((provider, model, ''input'') := mx_AITokens m (provider, model, ''input'') + inTok)
      in m\<lparr>mx_AICostCents := (mx_AICostCents m)((provider, model) := mx_AICostCents m (provider, model) + costCents),
           mx_AITokens := tokens((provider, model, ''output'') := tokens (provider, model, ''output'') + outTok)\<rparr>)"

definition SetFindingGauge :: "string \<Rightarrow> string \<Rightarrow> int \<Rightarrow> Metrics \<Rightarrow> Metrics" where
  "SetFindingGauge category severity n m = m\<lparr>mx_FindingsTotal := (mx_FindingsTotal m)((category, severity) \<mapsto> n)\<rparr>"

text \<open>The observer, on a world that holds the metrics: \<open>upd\<close> changes them.\<close>

definition metricsObserver :: "((Metrics \<Rightarrow> Metrics) \<Rightarrow> 'w \<Rightarrow> 'w) \<Rightarrow> 'w Observer" where
  "metricsObserver upd =
     \<lparr>ToolExecuted = (\<lambda>tool status d. upd (RecordToolExec tool status d)),
      ApprovalDecided = (\<lambda>approved. upd (RecordApproval approved))\<rparr>"

end
