(* ===== verification/Commands.thy ===== *)
theory Commands
  imports Startup Metrics
begin

text \<open>
  The commands beside the interactive session (cmd/voujr/main.go): \<open>voujr audit\<close> with its report,
  \<open>voujr sessions\<close> and \<open>voujr controller\<close>. A command returns its error and what it prints on
  standard output; times of the database are shown by a parameter.
\<close>

section \<open>Durations (package time)\<close>

text \<open>\<open>Duration.Round\<close>: to the nearest multiple, half away from zero.\<close>

definition duration_round :: "int \<Rightarrow> int \<Rightarrow> int" where
  "duration_round m d =
     (if m \<le> 0 then d
      else if d < 0 then - ((- d + m div 2) div m * m) else (d + m div 2) div m * m)"

text \<open>The fraction of \<open>Duration.String\<close>: the last \<open>n\<close> digits of \<open>v\<close> without trailing zeros.\<close>

fun frac_digits :: "nat \<Rightarrow> nat \<Rightarrow> string" where
  "frac_digits 0 v = []"
| "frac_digits (Suc n) v = frac_digits n (v div 10) @ show_nat (v mod 10)"

definition show_frac :: "nat \<Rightarrow> nat \<Rightarrow> string" where
  "show_frac n v =
     (let ds = rev (dropWhile (\<lambda>c. c = CHR ''0'') (rev (frac_digits n v)))
      in show_nat (v div 10 ^ n) @ (if ds = [] then [] else ''.'' @ ds))"

definition micro_sign :: string where "micro_sign = [CHR 0xC2, CHR 0xB5]"

definition show_duration :: "int \<Rightarrow> string" where
  "show_duration d =
     (let u = nat \<bar>d\<bar>;
          sign = (if d < 0 then ''-'' else []);
          secs = u div 1000000000;
          h = secs div 3600;
          m = secs div 60 mod 60;
          s = show_frac 9 (u mod 60000000000) @ ''s''
      in if u = 0 then ''0s''
         else if u < 1000 then sign @ show_nat u @ ''ns''
         else if u < 1000000 then sign @ show_frac 3 u @ micro_sign @ ''s''
         else if u < 1000000000 then sign @ show_frac 6 u @ ''ms''
         else if h > 0 then sign @ show_nat h @ ''h'' @ show_nat m @ ''m'' @ s
         else if m > 0 then sign @ show_nat m @ ''m'' @ s
         else sign @ s)"

lemma show_duration_examples:
  "show_duration (duration_round 1000000 1234567890) = ''1.235s''" "show_duration (duration_round 1000000 0) = ''0s''"
  "show_duration 90000000000 = ''1m30s''" "show_duration 12000000 = ''12ms''" "show_duration 3600000000000 = ''1h0m0s''"
  by code_simp+

section \<open>The report of an audit\<close>

definition check_mark :: string where "check_mark = [CHR 0xE2, CHR 0x9C, CHR 0x93]"

definition report_finding :: "Finding \<Rightarrow> string" where
  "report_finding f =
     ''  ['' @ fd_Severity f @ ''] '' @ pad_right 13 (fd_Category f) @ '' '' @ rr_Namespace (fd_Resource f) @ ''/'' @
       rr_Name (fd_Resource f) @ newline @
     ''        '' @ fd_Title f @ newline @
     ''        fix: '' @ rm_Summary (fd_Remediation f) @ newline @
     (if rm_KubectlEquivalent (fd_Remediation f) \<noteq> []
      then ''        $ '' @ rm_KubectlEquivalent (fd_Remediation f) @ newline else []) @ newline"

definition printReport :: "string \<Rightarrow> string \<Rightarrow> Report \<Rightarrow> string" where
  "printReport cluster ns rep =
     (let scope = (if ns = [] then ''all namespaces'' else ns); c = BySeverity rep
      in ''voujr audit '' @ em_dash @ '' '' @ cluster @ '' / '' @ scope @ newline @
         show_nat (length (rep_Findings rep)) @ '' findings: P0='' @ show_nat (c P0) @ ''  P1='' @ show_nat (c P1) @
         ''  P2='' @ show_nat (c P2) @ ''  P3='' @ show_nat (c P3) @ ''  ('' @
         show_duration (duration_round 1000000 (rep_Duration rep)) @ '')'' @ newline @ newline @
         (if rep_Findings rep = [] then ''  no issues found '' @ check_mark @ newline
          else concat (map report_finding (rep_Findings rep))))"

text \<open>\<open>--json\<close>: the findings as an array, a nil slice as null. A time is shown by \<open>rfc3339\<close>.\<close>

definition show_cents :: "int \<Rightarrow> string" where
  "show_cents c = (if c < 0 then ''-'' else []) @ show_frac 2 (nat \<bar>c\<bar>)"

definition finding_json :: "(int \<Rightarrow> string) \<Rightarrow> Finding \<Rightarrow> json" where
  "finding_json rfc3339 f =
     JObj [(''RuleID'', JStr (fd_RuleID f)), (''Category'', JStr (fd_Category f)), (''Severity'', JStr (fd_Severity f)),
           (''Resource'', resource_json (fd_Resource f)), (''Title'', JStr (fd_Title f)), (''Impact'', JStr (fd_Impact f)),
           (''RootCause'', JStr (fd_RootCause f)), (''Remediation'', remediation_json (fd_Remediation f)),
           (''EstMonthlySavingsUSD'', JNum (show_cents (fd_SavingsCents f))),
           (''DetectedAt'', JStr (rfc3339 (fd_DetectedAt f)))]"

definition findings_text :: "(int \<Rightarrow> string) \<Rightarrow> Finding list \<Rightarrow> string" where
  "findings_text rfc3339 fs =
     json_text (if fs = [] then JNull else JArr (map (finding_json rfc3339) fs)) @ newline"

section \<open>voujr audit\<close>

text \<open>
  The id \<open>UpsertCluster\<close> returns next to an error, which the command uses: empty if the lookup
  failed, the fresh one if the insert did.
\<close>

definition returned_id :: "env \<Rightarrow> go_error + string \<Rightarrow> string" where
  "returned_id e r = (case r of Inr i \<Rightarrow> i | Inl _ \<Rightarrow> if env_fault e 0 = None then env_uuid e else [])"

definition save_findings :: "string \<Rightarrow> Finding list \<Rightarrow> 'v Host \<Rightarrow> 'v Host" where
  "save_findings i fs = fold (\<lambda>f h. snd (store_call (\<lambda>e. SaveFinding e i f) h)) fs"

definition audit_alert :: "'v Host Alerter option \<Rightarrow> string \<Rightarrow> Finding list \<Rightarrow> 'v Host \<Rightarrow> 'v Host" where
  "audit_alert notify threshold fs h =
     (case notify of
        None \<Rightarrow> h
      | Some n \<Rightarrow>
          (case n fs h of
             ((fired, Some e), h1) \<Rightarrow> host_log (log_line ''WARN'' ''incident notify failed'' [(''error'', AttrErr e)]) h1
           | ((fired, None), h1) \<Rightarrow>
               if fired > 0 then host_log (log_line ''INFO'' ''incidents alerted''
                 [(''count'', AttrInt (int fired)), (''threshold'', AttrStr threshold)]) h1 else h1))"

text \<open>After the store is open and the cluster connected.\<close>

definition audit_cmd ::
  "(int \<Rightarrow> string) \<Rightarrow> (Cluster \<Rightarrow> string \<Rightarrow> 'v Host \<Rightarrow> (go_error + Report) \<times> 'v Host) \<Rightarrow> 'v Host Alerter option \<Rightarrow>
   Settings \<Rightarrow> Cluster \<Rightarrow> string \<Rightarrow> bool \<Rightarrow> 'v Host \<Rightarrow> (go_error option \<times> string) \<times> 'v Host" where
  "audit_cmd rfc3339 scan notify cfg c ns asJSON h =
     (case scan c ns h of
        (Inl e, h1) \<Rightarrow> ((Some (errorf_prefix ''scan'' e), []), h1)
      | (Inr rep, h1) \<Rightarrow>
          (let e = hs_env h1 (hs_calls h1);
               (r, h2) = store_call (\<lambda>e. UpsertCluster e (c_Name c) (ac_Context cfg) []) h1;
               h3 = save_findings (returned_id e r) (rep_Findings rep) h2;
               h4 = host_log (log_line ''INFO'' ''audit complete''
                      [(''cluster'', AttrStr (c_Name c)), (''findings'', AttrInt (int (length (rep_Findings rep)))),
                       (''p0'', AttrInt (int (BySeverity rep P0))), (''p1'', AttrInt (int (BySeverity rep P1))),
                       (''duration'', AttrInt (rep_Duration rep))]) h3;
               h5 = audit_alert notify (ic_EscalateAtOrAbove (ac_Incident cfg)) (rep_Findings rep) h4
           in ((None, if asJSON then findings_text rfc3339 (rep_Findings rep) else printReport (c_Name c) ns rep), h5)))"

section \<open>voujr sessions\<close>

definition pad_left :: "nat \<Rightarrow> string \<Rightarrow> string" where
  "pad_left n s = replicate (n - rune_count s) (CHR '' '') @ s"

definition session_line :: "(int \<Rightarrow> string) \<Rightarrow> SessionSummary \<Rightarrow> string" where
  "session_line datetime s =
     pad_right 36 (ss_ID s) @ ''  '' @ pad_right 19 (datetime (ss_CreatedAt s)) @ ''  '' @ pad_right 10 (ss_Mode s) @ ''  '' @
     pad_left 4 (show_nat (ss_Messages s)) @ ''  '' @ ss_Cluster s @ newline"

definition sessions_cmd :: "(int \<Rightarrow> string) \<Rightarrow> env \<Rightarrow> DB \<Rightarrow> go_error option \<times> string" where
  "sessions_cmd datetime e db =
     (case ListSessions e 20 db of
        Inl err \<Rightarrow> (Some err, [])
      | Inr [] \<Rightarrow> (None, ''no sessions yet'' @ newline)
      | Inr ss \<Rightarrow>
          (None, pad_right 36 ''SESSION'' @ ''  '' @ pad_right 19 ''CREATED'' @ ''  '' @ pad_right 10 ''MODE'' @ ''  '' @
                 pad_left 4 ''MSGS'' @ ''  CLUSTER'' @ newline @ concat (map (session_line datetime) ss)))"

section \<open>voujr controller\<close>

text \<open>
  The controller the command builds once the store is open: the clusters of the flag are added like
  the extra clusters of a session, the notifier is the alerter only if a sink is configured, the
  interval is the flag's or the configuration's; and its end: a cancellation is a clean shutdown.
\<close>

definition controller_clusters :: "connector \<Rightarrow> Settings \<Rightarrow> string list \<Rightarrow> ClusterRegistry \<Rightarrow> ClusterRegistry" where
  "controller_clusters conn cfg extras r =
     fold (\<lambda>e r. if e = [] \<or> e = ac_Context cfg then r else snd (Add conn e e False r)) extras r"

definition controller_notifier :: "Settings \<Rightarrow> Notifier option" where
  "controller_notifier cfg =
     (let i = ac_Incident cfg; n = NewNotifier (ic_SlackWebhook i) (ic_PagerDutyKey i) (ic_EscalateAtOrAbove i)
      in if Notifier_Enabled n then Some n else None)"

definition controller_interval :: "int \<Rightarrow> Settings \<Rightarrow> int" where
  "controller_interval interval cfg = (if interval \<le> 0 then au_Interval (ac_Audit cfg) else interval)"

abbreviation ErrCanceled :: go_error where "ErrCanceled \<equiv> Sentinel ''context canceled''"

definition controller_result :: "go_error option \<Rightarrow> go_error option" where
  "controller_result r = (case r of None \<Rightarrow> None | Some e \<Rightarrow> if errors_is e ErrCanceled then None else Some e)"

definition controller_cmd ::
  "'w Poster \<Rightarrow> 'w out Scanner \<Rightarrow> Settings \<Rightarrow> string \<Rightarrow> int \<Rightarrow> 'w out Host Controller" where
  "controller_cmd poster scan cfg ns interval =
     hosted_controller scan (map_option (Notify poster) (controller_notifier cfg)) [] ns (controller_interval interval cfg)"

section \<open>The commands from their flags\<close>

text \<open>The settings of these commands: loaded, with the context of the flag, and not validated.\<close>

definition command_settings ::
  "string \<Rightarrow> getenv \<Rightarrow> read_file \<Rightarrow> unmarshal \<Rightarrow> string \<Rightarrow> go_error + Settings" where
  "command_settings home env read yaml kubeContext =
     (case Load home env read yaml of
        (_, Some e) \<Rightarrow> Inl e
      | (cfg, None) \<Rightarrow> Inr (if kubeContext \<noteq> [] then cfg\<lparr>ac_Context := kubeContext\<rparr> else cfg))"

text \<open>What the process finds outside: its files, the databases it can open, the AEAD.\<close>

record Machine =
  mc_home :: string
  mc_read :: read_file
  mc_yaml :: unmarshal
  mc_open :: Opener
  mc_sha256 :: "string \<Rightarrow> string"
  mc_aead :: "string \<Rightarrow> go_error + AEAD"

definition machine_settings :: "Machine \<Rightarrow> getenv \<Rightarrow> string \<Rightarrow> go_error + Settings" where
  "machine_settings mc env = command_settings (mc_home mc) env (mc_read mc) (mc_yaml mc)"

definition machine_store :: "Machine \<Rightarrow> getenv \<Rightarrow> Settings \<Rightarrow> go_error + Backend \<times> Encryptor option" where
  "machine_store mc = openStore (mc_open mc) (mc_sha256 mc) (mc_aead mc)"

definition audit_main ::
  "Machine \<Rightarrow> 'w out Outside \<Rightarrow> (int \<Rightarrow> string) \<Rightarrow>
   (Settings \<Rightarrow> ClusterRegistry \<Rightarrow> Cluster \<Rightarrow> string \<Rightarrow> 'w out Host \<Rightarrow> (go_error + Report) \<times> 'w out Host) \<Rightarrow> 'w Poster \<Rightarrow>
   string \<Rightarrow> string \<Rightarrow> bool \<Rightarrow> bool \<Rightarrow> 'w out Host \<Rightarrow> (go_error option \<times> string) \<times> 'w out Host" where
  "audit_main mc os rfc3339 scan poster kubeContext ns inCluster asJSON h =
     (case machine_settings mc (os_getenv os) kubeContext of
        Inl e \<Rightarrow> ((Some e, []), h)
      | Inr cfg \<Rightarrow>
          (case machine_store mc (os_getenv os) cfg of
             Inl e \<Rightarrow> ((Some e, []), h)
           | Inr st \<Rightarrow>
               (case connectCluster (os_connect os) (os_health os) cfg inCluster h of
                  (Inl e, h1) \<Rightarrow> ((Some e, []), h1)
                | (Inr (reg, c), h1) \<Rightarrow>
                    audit_cmd rfc3339 (scan cfg reg) (map_option (\<lambda>n fs. on_rest (Notify poster n fs)) (controller_notifier cfg))
                      cfg c ns asJSON h1)))"

definition sessions_main :: "Machine \<Rightarrow> getenv \<Rightarrow> (int \<Rightarrow> string) \<Rightarrow> 'v Host \<Rightarrow> (go_error option \<times> string) \<times> 'v Host" where
  "sessions_main mc env datetime h =
     (case machine_settings mc env [] of
        Inl e \<Rightarrow> ((Some e, []), h)
      | Inr cfg \<Rightarrow>
          (case machine_store mc env cfg of
             Inl e \<Rightarrow> ((Some e, []), h)
           | Inr st \<Rightarrow> store_read (sessions_cmd datetime) h))"

definition controller_main ::
  "Machine \<Rightarrow> 'w out Outside \<Rightarrow> (Settings \<Rightarrow> ClusterRegistry \<Rightarrow> 'w out Scanner) \<Rightarrow> 'w Poster \<Rightarrow> string \<Rightarrow> string \<Rightarrow> bool \<Rightarrow> int \<Rightarrow>
   string list \<Rightarrow> 'w out Host \<Rightarrow> (go_error + 'w out Host Controller) \<times> 'w out Host" where
  "controller_main mc os scan poster kubeContext ns inCluster interval extras h =
     (case machine_settings mc (os_getenv os) kubeContext of
        Inl e \<Rightarrow> (Inl e, h)
      | Inr cfg \<Rightarrow>
          (case machine_store mc (os_getenv os) cfg of
             Inl e \<Rightarrow> (Inl e, h)
           | Inr st \<Rightarrow>
               (case connectCluster (os_connect os) (os_health os) cfg inCluster h of
                  (Inl e, h1) \<Rightarrow> (Inl e, h1)
                | (Inr (reg, c), h1) \<Rightarrow>
                    (Inr (controller_cmd poster (scan cfg (controller_clusters (os_connect os) cfg extras reg)) cfg ns interval), h1))))"

text \<open>The audit prints nothing unless it succeeds, and the list of sessions leaves the database alone.\<close>

lemma audit_cmd_error: "audit_cmd rfc3339 scan notify cfg c ns asJSON h = ((Some e, out), h') \<Longrightarrow> out = []"
  by (auto simp: audit_cmd_def Let_def split: prod.splits sum.splits)

lemma audit_main_error: "audit_main mc os rfc3339 scan poster kctx ns ic asJSON h = ((Some e, out), h') \<Longrightarrow> out = []"
  by (auto simp: audit_main_def split: sum.splits prod.splits dest: audit_cmd_error)

lemma sessions_main_reads: "hs_db (snd (sessions_main mc env datetime h)) = hs_db h"
  by (simp add: sessions_main_def store_read_def store_call_def split: sum.split)

text \<open>The controller that comes out is one the properties of the loop apply to.\<close>

lemma controller_main_hosted:
  assumes "controller_main mc os scan poster kctx ns ic interval extras h = (Inr c, h')"
    and "board_inv (hs_db h')" and "uuids_ok (hs_env h')"
  shows "hosted c h'"
  using assms hosted_controller_hosted
  by (auto simp: controller_main_def controller_cmd_def split: sum.splits prod.splits)

end
