(* ===== verification/Portkey.thy ===== *)
theory Portkey
  imports Router MoreTools Incident "HOL-Library.Log_Nat"
begin

text \<open>
  The gateway provider (internal/ai/portkey.go): the requests it writes, the answers it reads and the
  embeddings. The streamed answers are in \<open>Sse\<close>. Strings are valid UTF-8; of the members of a
  JSON object that name the same field the last counts.
\<close>

section \<open>The client and the gateway\<close>

text \<open>
  An answer has a status and a body, which is a text and the error that ends reading it (\<open>io.EOF\<close>
  when the service closed it). Building a request can fail on its URL, sending it in any way.
\<close>

record body =
  by_text :: string
  by_end :: go_error

record 'w Gateway =
  gw_Request :: "string \<Rightarrow> go_error option"
  gw_Do :: "HttpPost \<Rightarrow> 'w \<Rightarrow> (go_error + int \<times> body) \<times> 'w"

record Portkey =
  pk_baseURL :: string
  pk_apiKey :: string
  pk_embedModel :: string
  pk_models :: "ModelInfo list"

definition NewPortkey :: "string \<Rightarrow> string \<Rightarrow> string \<Rightarrow> ModelInfo list \<Rightarrow> Portkey" where
  "NewPortkey baseURL apiKey embedModel models =
     \<lparr>pk_baseURL = trim_right_slash (if baseURL = [] then ''https://api.portkey.ai/v1'' else baseURL),
      pk_apiKey = apiKey, pk_embedModel = embedModel, pk_models = models\<rparr>"

section \<open>The routing directive\<close>

definition splitRef :: "string \<Rightarrow> string \<times> string" where
  "splitRef ref =
     (let provider = takeWhile (\<lambda>c. c \<noteq> CHR ''/'') ref
      in if length provider < length ref then (provider, drop (Suc (length provider)) ref) else ([], ref))"

record portkeyTarget =
  pt_VirtualKey :: string
  pt_Provider :: string
  pt_Model :: string

record portkeyConfig =
  pc_Mode :: string
  pc_Targets :: "portkeyTarget list"

definition config_target :: "string \<Rightarrow> portkeyTarget" where
  "config_target ref = (case splitRef ref of (p, m) \<Rightarrow> \<lparr>pt_VirtualKey = [], pt_Provider = p, pt_Model = m\<rparr>)"

definition buildConfig :: "Routing \<Rightarrow> portkeyConfig" where
  "buildConfig r = \<lparr>pc_Mode = ''fallback'', pc_Targets = map config_target (ro_Model r # ro_Fallbacks r)\<rparr>"

text \<open>A field marked \<open>omitempty\<close>.\<close>

definition str_member :: "string \<Rightarrow> string \<Rightarrow> (string \<times> json) list" where
  "str_member f s = (if s = [] then [] else [(f, JStr s)])"

definition target_json :: "portkeyTarget \<Rightarrow> json" where
  "target_json t =
     JObj (str_member ''virtual_key'' (pt_VirtualKey t) @ str_member ''provider'' (pt_Provider t) @
           str_member ''model'' (pt_Model t))"

definition config_json :: "portkeyConfig \<Rightarrow> json" where
  "config_json c =
     JObj [(''strategy'', JObj [(''mode'', JStr (pc_Mode c))]), (''targets'', JArr (map target_json (pc_Targets c)))]"

section \<open>Messages and tools on the wire\<close>

record oaiToolCall =
  oc_ID :: string
  oc_Type :: string
  oc_Name :: string
  oc_Arguments :: string

record oaiMessage =
  om_Role :: string
  om_Content :: string
  om_ToolCalls :: "oaiToolCall list"
  om_ToolCallID :: string
  om_Name :: string

definition wire_call :: "ToolCall \<Rightarrow> oaiToolCall" where
  "wire_call tc = \<lparr>oc_ID = tc_ID tc, oc_Type = ''function'', oc_Name = tc_Name tc, oc_Arguments = tc_Args tc\<rparr>"

definition wire_message :: "Message \<Rightarrow> oaiMessage" where
  "wire_message m =
     \<lparr>om_Role = m_Role m, om_Content = m_Content m, om_ToolCalls = map wire_call (m_ToolCalls m),
      om_ToolCallID = m_ToolCallID m, om_Name = m_Name m\<rparr>"

definition toWireMessages :: "Message list \<Rightarrow> oaiMessage list" where
  "toWireMessages ms = map wire_message ms"

definition fromWireMessage :: "oaiMessage \<Rightarrow> Message" where
  "fromWireMessage m =
     \<lparr>m_Role = om_Role m, m_Content = om_Content m,
      m_ToolCalls = map (\<lambda>c. \<lparr>tc_ID = oc_ID c, tc_Name = oc_Name c, tc_Args = oc_Arguments c\<rparr>) (om_ToolCalls m),
      m_ToolCallID = [], m_Name = []\<rparr>"

definition oai_call_json :: "oaiToolCall \<Rightarrow> json" where
  "oai_call_json c =
     JObj [(''id'', JStr (oc_ID c)), (''type'', JStr (oc_Type c)),
           (''function'', JObj [(''name'', JStr (oc_Name c)), (''arguments'', JStr (oc_Arguments c))])]"

definition oai_message_json :: "oaiMessage \<Rightarrow> json" where
  "oai_message_json m =
     JObj ((''role'', JStr (om_Role m)) # str_member ''content'' (om_Content m) @
           (if om_ToolCalls m = [] then [] else [(''tool_calls'', JArr (map oai_call_json (om_ToolCalls m)))]) @
           str_member ''tool_call_id'' (om_ToolCallID m) @ str_member ''name'' (om_Name m))"

text \<open>A map is written with its keys in order, at every depth.\<close>

fun sort_maps :: "json \<Rightarrow> json" where
  "sort_maps (JObj kvs) = JObj (sort_key fst (map (\<lambda>(k, v). (k, sort_maps v)) kvs))"
| "sort_maps (JArr vs) = JArr (map sort_maps vs)"
| "sort_maps v = v"

definition toWireTools :: "ToolSpec list \<Rightarrow> json list" where
  "toWireTools ts =
     map (\<lambda>t. JObj [(''type'', JStr ''function''),
                     (''function'', JObj [(''name'', JStr (ts_Name t)), (''description'', JStr (ts_Description t)),
                                          (''parameters'', sort_maps (JObj (ts_Schema t)))])]) ts"

section \<open>The request\<close>

text \<open>
  The text of a \<open>float32\<close> that is the decimal \<open>q\<close> with at most \<open>n\<close> digits after the point: as
  few of them as are needed.
\<close>

fun decimal_digits :: "nat \<Rightarrow> rat \<Rightarrow> string" where
  "decimal_digits 0 q = []"
| "decimal_digits (Suc n) q =
     (if q = 0 then [] else char_of (48 + nat \<lfloor>10 * q\<rfloor> mod 10) # decimal_digits n (10 * q - of_int \<lfloor>10 * q\<rfloor>))"

definition show_decimal :: "rat \<Rightarrow> string" where
  "show_decimal q =
     (let a = \<bar>q\<bar>; fr = decimal_digits 9 (a - of_int \<lfloor>a\<rfloor>)
      in (if q < 0 then ''-'' else []) @ show_nat (nat \<lfloor>a\<rfloor>) @ (if fr = [] then [] else ''.'' @ fr))"

definition request_json :: "Request \<Rightarrow> bool \<Rightarrow> json" where
  "request_json req stream =
     JObj ([(''model'', JStr (snd (splitRef (ro_Model (rq_Routing req))))),
            (''messages'', JArr (map oai_message_json (toWireMessages (rq_Messages req))))] @
           (if rq_Tools req = [] then [] else [(''tools'', JArr (toWireTools (rq_Tools req)))]) @
           (if rq_Temperature req = 0 then [] else [(''temperature'', JNum (show_decimal (rq_Temperature req)))]) @
           (if rq_MaxTokens req = 0 then [] else [(''max_tokens'', JNum (show_int (rq_MaxTokens req)))]) @
           (if stream then [(''stream'', JBool True), (''stream_options'', JObj [(''include_usage'', JBool True)])] else []))"

text \<open>The headers in the order they are set; the order of the metadata has no effect.\<close>

definition gateway_headers :: "Portkey \<Rightarrow> Routing \<Rightarrow> (string \<times> string) list" where
  "gateway_headers p r =
     [(''Content-Type'', ''application/json''), (''Authorization'', ''Bearer '' @ pk_apiKey p),
      (''x-portkey-config'', json_text (config_json (buildConfig r)))]"

definition newRequest :: "'w Gateway \<Rightarrow> Portkey \<Rightarrow> Request \<Rightarrow> bool \<Rightarrow> go_error + HttpPost" where
  "newRequest g p req stream =
     (let url = pk_baseURL p @ ''/chat/completions''
      in case gw_Request g url of
           Some e \<Rightarrow> Inl e
         | None \<Rightarrow>
             Inr \<lparr>hp_URL = url,
                  hp_Headers = gateway_headers p (rq_Routing req) @
                    map (\<lambda>(k, v). (''x-portkey-metadata-'' @ k, v)) (rq_Metadata req),
                  hp_Body = json_text (request_json req stream)\<rparr>)"

text \<open>Sending: a transport error is wrapped, a status from 300 on is an error with the body's text.\<close>

definition send_request ::
  "'w Gateway \<Rightarrow> string \<Rightarrow> HttpPost \<Rightarrow> 'w \<Rightarrow> (go_error + body) \<times> 'w" where
  "send_request g what req w =
     (case gw_Do g req w of
        (Inl e, w1) \<Rightarrow> (Inl (errorf_prefix what e), w1)
      | (Inr (status, b), w1) \<Rightarrow>
          if status \<ge> 300 then (Inl (ErrNew (what @ '' status '' @ show_int status @ '': '' @ by_text b)), w1)
          else (Inr b, w1))"

section \<open>Reading an answer\<close>

text \<open>A nested struct: absent and null leave it zero.\<close>

definition struct_of_json :: "(string \<times> field_type) list \<Rightarrow> json option \<Rightarrow> (string \<times> json) list option" where
  "struct_of_json fs v =
     (case v of
        None \<Rightarrow> Some [] | Some JNull \<Rightarrow> Some []
      | Some (JObj kvs) \<Rightarrow> if fields_error fs kvs then None else Some kvs
      | Some _ \<Rightarrow> None)"

definition oai_call_of_json :: "json \<Rightarrow> oaiToolCall option" where
  "oai_call_of_json v =
     (case struct_of_json [(''id'', FStr), (''type'', FStr)] (Some v) of
        None \<Rightarrow> None
      | Some kvs \<Rightarrow>
          (case struct_of_json [(''name'', FStr), (''arguments'', FStr)] (field_value ''function'' None kvs) of
             None \<Rightarrow> None
           | Some fn \<Rightarrow> Some \<lparr>oc_ID = str_field ''id'' [] kvs, oc_Type = str_field ''type'' [] kvs,
                            oc_Name = str_field ''name'' [] fn, oc_Arguments = str_field ''arguments'' [] fn\<rparr>))"

definition oai_message_of_json :: "json option \<Rightarrow> oaiMessage option" where
  "oai_message_of_json v =
     (case struct_of_json [(''role'', FStr), (''content'', FStr), (''tool_call_id'', FStr), (''name'', FStr)] v of
        None \<Rightarrow> None
      | Some kvs \<Rightarrow>
          (case array_of_json (field_value ''tool_calls'' None kvs) of
             None \<Rightarrow> None
           | Some vs \<Rightarrow>
               map_option (\<lambda>tcs. \<lparr>om_Role = str_field ''role'' [] kvs, om_Content = str_field ''content'' [] kvs,
                   om_ToolCalls = tcs, om_ToolCallID = str_field ''tool_call_id'' [] kvs,
                   om_Name = str_field ''name'' [] kvs\<rparr>)
                 (those (map oai_call_of_json vs))))"

definition choice_of_json :: "json \<Rightarrow> oaiMessage option" where
  "choice_of_json v =
     (case struct_of_json [] (Some v) of
        None \<Rightarrow> None | Some kvs \<Rightarrow> oai_message_of_json (field_value ''message'' None kvs))"

definition usage_fields :: "(string \<times> field_type) list" where
  "usage_fields = [(''prompt_tokens'', FInt 64), (''completion_tokens'', FInt 64)]"

record chat_out =
  co_Choices :: "oaiMessage list"
  co_PromptTokens :: int
  co_CompletionTokens :: int
  co_Model :: string

text \<open>\<open>Decode\<close> reads the first JSON value of the body; \<open>None\<close> is any error.\<close>

definition first_value :: "string \<Rightarrow> json option" where
  "first_value s = map_option fst (pvalue (2 * length s + 2) s)"

definition decode_chat :: "string \<Rightarrow> chat_out option" where
  "decode_chat s =
     (case first_value s of
        None \<Rightarrow> None
      | Some v \<Rightarrow>
          (case struct_of_json [(''model'', FStr)] (Some v) of
             None \<Rightarrow> None
           | Some kvs \<Rightarrow>
               (case (array_of_json (field_value ''choices'' None kvs),
                      struct_of_json usage_fields (field_value ''usage'' None kvs)) of
                  (Some vs, Some us) \<Rightarrow>
                    map_option (\<lambda>chs. \<lparr>co_Choices = chs, co_PromptTokens = int_field 64 ''prompt_tokens'' 0 us,
                        co_CompletionTokens = int_field 64 ''completion_tokens'' 0 us,
                        co_Model = str_field ''model'' [] kvs\<rparr>)
                      (those (map choice_of_json vs))
                | _ \<Rightarrow> None)))"

definition Portkey_Chat :: "'w Gateway \<Rightarrow> Portkey \<Rightarrow> Request \<Rightarrow> 'w \<Rightarrow> (go_error + Response) \<times> 'w" where
  "Portkey_Chat g p req w =
     (case newRequest g p req False of
        Inl e \<Rightarrow> (Inl e, w)
      | Inr http \<Rightarrow>
          (case send_request g ''portkey'' http w of
             (Inl e, w1) \<Rightarrow> (Inl e, w1)
           | (Inr b, w1) \<Rightarrow>
               (case decode_chat (by_text b) of
                  None \<Rightarrow> (Inl json_syntax_error, w1)
                | Some out \<Rightarrow>
                    (case co_Choices out of
                       [] \<Rightarrow> (Inl (ErrNew ''portkey: empty response''), w1)
                     | m # _ \<Rightarrow>
                         (Inr \<lparr>rp_Message = fromWireMessage m,
                               rp_Usage = \<lparr>u_InputTokens = co_PromptTokens out, u_OutputTokens = co_CompletionTokens out,
                                 u_CostCents = EstimateCost (pk_models p) (co_Model out) (co_PromptTokens out) (co_CompletionTokens out),
                                 u_Model = co_Model out\<rparr>\<rparr>, w1)))))"

section \<open>Embeddings\<close>

text \<open>
  A number as a \<open>float32\<close>: the bits of the nearest value, ties to even, and none when it is out of
  range. The exponent of a positive rational is found from the lengths of its two parts.
\<close>

definition literal_value :: "string \<Rightarrow> rat option" where
  "literal_value lit =
     (case num_int (snd (num_sign lit)) of
        None \<Rightarrow> None
      | Some (ip, r) \<Rightarrow>
          (case num_frac r of
             None \<Rightarrow> None
           | Some (fr, ex) \<Rightarrow>
               (let m = dec_val (ip @ drop 1 fr); es = drop 1 ex;
                    e = (if take 1 es = ''-'' then - int (dec_val (drop 1 es))
                         else if take 1 es = ''+'' then int (dec_val (drop 1 es)) else int (dec_val es));
                    k = e - int (length (drop 1 fr))
                in Some (if 0 \<le> k then of_nat (m * 10 ^ nat k) else of_nat m / of_nat (10 ^ nat (- k))))))"

definition round_even :: "rat \<Rightarrow> int" where
  "round_even q =
     (let f = \<lfloor>q\<rfloor>; d = q - of_int f
      in if d < 1 / 2 \<or> (d = 1 / 2 \<and> even f) then f else f + 1)"

definition two_power :: "int \<Rightarrow> rat" where
  "two_power e = (if 0 \<le> e then of_nat (2 ^ nat e) else 1 / of_nat (2 ^ nat (- e)))"

definition binary_exponent :: "rat \<Rightarrow> int" where
  "binary_exponent q =
     (let (a, b) = quotient_of q; d = int (floorlog 2 (nat a)) - int (floorlog 2 (nat b))
      in if two_power d \<le> q then d else d - 1)"

definition float32_bits :: "string \<Rightarrow> 32 word option" where
  "float32_bits lit =
     (case literal_value lit of
        None \<Rightarrow> None
      | Some q \<Rightarrow>
          (let sign = (if take 1 lit = ''-'' then 2 ^ 31 else 0);
               e = max (-126) (binary_exponent q);
               bits = (e + 126) * 2 ^ 23 + round_even (q / two_power (e - 23))
           in if q = 0 then Some (word_of_int sign)
              else if bits \<ge> 255 * 2 ^ 23 then None else Some (word_of_int (sign + bits))))"

definition vector_of_json :: "json option \<Rightarrow> embedding option" where
  "vector_of_json v =
     (case array_of_json v of
        None \<Rightarrow> None
      | Some vs \<Rightarrow> those (map (\<lambda>x. case x of JNull \<Rightarrow> Some 0 | JNum lit \<Rightarrow> float32_bits lit | _ \<Rightarrow> None) vs))"

definition datum_of_json :: "json \<Rightarrow> (int \<times> embedding) option" where
  "datum_of_json v =
     (case struct_of_json [(''index'', FInt 64)] (Some v) of
        None \<Rightarrow> None
      | Some kvs \<Rightarrow>
          map_option (\<lambda>x. (int_field 64 ''index'' 0 kvs, x)) (vector_of_json (field_value ''embedding'' None kvs)))"

definition decode_embeddings :: "string \<Rightarrow> (int \<times> embedding) list option" where
  "decode_embeddings s =
     (case first_value s of
        None \<Rightarrow> None
      | Some v \<Rightarrow>
          (case struct_of_json [] (Some v) of
             None \<Rightarrow> None
           | Some kvs \<Rightarrow>
               (case array_of_json (field_value ''data'' None kvs) of
                  None \<Rightarrow> None | Some vs \<Rightarrow> those (map datum_of_json vs))))"

text \<open>The vectors in the order of their indexes; an index out of range is ignored.\<close>

definition place_vector :: "int \<times> embedding \<Rightarrow> embedding list \<Rightarrow> embedding list" where
  "place_vector d vecs =
     (if 0 \<le> fst d \<and> fst d < int (length vecs) then vecs[nat (fst d) := snd d] else vecs)"

definition order_vectors :: "(int \<times> embedding) list \<Rightarrow> embedding list" where
  "order_vectors ds = fold place_vector ds (replicate (length ds) [])"

definition embed_request :: "Portkey \<Rightarrow> string list \<Rightarrow> HttpPost" where
  "embed_request p inputs =
     \<lparr>hp_URL = pk_baseURL p @ ''/embeddings'',
      hp_Headers = gateway_headers p \<lparr>ro_Model = pk_embedModel p, ro_Fallbacks = [], ro_Reason = []\<rparr>,
      hp_Body = json_text (JObj [(''input'', JArr (map JStr inputs)), (''model'', JStr (snd (splitRef (pk_embedModel p))))])\<rparr>"

definition Portkey_Embed ::
  "'w Gateway \<Rightarrow> Portkey \<Rightarrow> string list \<Rightarrow> 'w \<Rightarrow> (go_error + embedding list) \<times> 'w" where
  "Portkey_Embed g p inputs w =
     (if pk_embedModel p = [] then (Inl (ErrNew ''portkey: no embedding model configured''), w)
      else if inputs = [] then (Inr [], w)
      else
        (case gw_Request g (pk_baseURL p @ ''/embeddings'') of
           Some e \<Rightarrow> (Inl e, w)
         | None \<Rightarrow>
             (case send_request g ''portkey embeddings'' (embed_request p inputs) w of
                (Inl e, w1) \<Rightarrow> (Inl e, w1)
              | (Inr b, w1) \<Rightarrow>
                  (case decode_embeddings (by_text b) of
                     None \<Rightarrow> (Inl json_syntax_error, w1)
                   | Some ds \<Rightarrow> (Inr (order_vectors ds), w1)))))"

lemma show_decimal_examples: "show_decimal (1 / 5) = ''0.2''" "show_decimal (- 5 / 4) = ''-1.25''" "show_decimal 2 = ''2''"
  by code_simp+

section \<open>What the gateway reads\<close>

lemma decimal_digits_digits: "list_all is_digit (decimal_digits n q)"
proof (induction n arbitrary: q)
  case (Suc n)
  have "is_digit (char_of (48 + k mod 10))" for k :: nat by (simp add: is_digit_def)
  with Suc show ?case by simp
qed simp

lemma digits_then:
  assumes "\<forall>c \<in> set ds. is_digit c" and "takeWhile is_digit t = []"
  shows "takeWhile is_digit (ds @ t) = ds" and "dropWhile is_digit (ds @ t) = dropWhile is_digit t"
  using assms by (induction ds) auto

lemma plain_decimal [simp]: "plain (JNum (show_decimal q))"
proof -
  let ?n = "show_nat (nat \<lfloor>\<bar>q\<bar>\<rfloor>)"
  define fr where "fr = decimal_digits 9 (\<bar>q\<bar> - of_int \<lfloor>\<bar>q\<bar>\<rfloor>)"
  have fr: "takeWhile is_digit fr = fr" "dropWhile is_digit fr = []"
    using takeWhile_all [of is_digit fr] decimal_digits_digits unfolding fr_def by blast+
  define tail where "tail = (if fr = [] then [] else ''.'' @ fr)"
  have n: "?n \<noteq> []" "\<forall>c \<in> set ?n. is_digit c" using show_nat_digits [of "nat \<lfloor>\<bar>q\<bar>\<rfloor>"] unfolding list_all_iff by blast+
  have t: "takeWhile is_digit tail = []" "dropWhile is_digit tail = tail" by (simp_all add: tail_def is_digit_def)
  have tw: "takeWhile is_digit (?n @ tail) = ?n" "dropWhile is_digit (?n @ tail) = tail"
    using digits_then [OF n(2) t(1)] t(2) by simp_all
  have "num_int (?n @ tail) = Some (?n, tail)"
    unfolding num_int_def Let_def tw using n(1) show_nat_literal(3) [of "nat \<lfloor>\<bar>q\<bar>\<rfloor>"] by auto
  moreover have "num_frac tail = Some (tail, [])" using fr
    by (simp add: num_frac_def tail_def Let_def takeWhile_eq_all_conv [THEN iffD2] dropWhile_eq_Nil_conv [THEN iffD2])
  moreover have "num_exp [] = Some ([], [])" by (simp add: num_exp_def)
  moreover have "num_sign (CHR ''-'' # s) = (''-'', s)" for s by (simp add: num_sign_def)
  ultimately have "parse_num (?n @ tail) = Some (?n @ tail, [])" "parse_num (CHR ''-'' # ?n @ tail) = Some (CHR ''-'' # ?n @ tail, [])"
    by (simp_all add: parse_num_def show_nat_literal(4))
  moreover have "show_decimal q = (if q < 0 then ''-'' else []) @ ?n @ tail"
    by (simp only: show_decimal_def Let_def fr_def tail_def)
  ultimately show ?thesis by (cases "q < 0") simp_all
qed

lemma plain_sort_maps: "plain v \<Longrightarrow> plain (sort_maps v)"
  by (induction v) (fastforce simp: list_all_iff)+

lemma plain_str_member [simp]: "list_all (\<lambda>(k, v). plain v) (str_member f s)"
  by (simp add: str_member_def)

lemma plain_oai_message [simp]: "plain (oai_message_json m)"
  by (auto simp: oai_message_json_def oai_call_json_def list_all_iff str_member_def)

lemma plain_request:
  assumes "\<forall>t \<in> set (rq_Tools req). plain (JObj (ts_Schema t))"
  shows "plain (request_json req stream)"
proof -
  have "plain t" if "t \<in> set (toWireTools (rq_Tools req))" for t
    using that assms plain_sort_maps by (auto simp: toWireTools_def simp del: sort_maps.simps)
  then have "plain (JArr (toWireTools (rq_Tools req)))" by (simp add: list_all_iff)
  moreover have "plain (JArr (map oai_message_json ms))" for ms by (auto simp: list_all_iff)
  moreover note plain_decimal [of "rq_Temperature req"] plain_int [of "rq_MaxTokens req"]
  ultimately show ?thesis
    unfolding request_json_def plain.simps(3) list_all_append by (auto simp del: plain.simps(1))
qed

section \<open>The wire format reads back\<close>

lemma field_matches_wire [simp]:
  "\<not> field_matches ''id'' ''type''" "\<not> field_matches ''id'' ''function''" "\<not> field_matches ''type'' ''id''"
  "\<not> field_matches ''type'' ''function''" "\<not> field_matches ''function'' ''id''" "\<not> field_matches ''function'' ''type''"
  "\<not> field_matches ''name'' ''arguments''" "\<not> field_matches ''arguments'' ''name''"
  "\<not> field_matches ''role'' ''content''" "\<not> field_matches ''role'' ''tool_calls''"
  "\<not> field_matches ''role'' ''tool_call_id''" "\<not> field_matches ''role'' ''name''" "\<not> field_matches ''content'' ''role''"
  "\<not> field_matches ''content'' ''tool_calls''" "\<not> field_matches ''content'' ''tool_call_id''" "\<not> field_matches ''content'' ''name''"
  "\<not> field_matches ''tool_calls'' ''role''" "\<not> field_matches ''tool_calls'' ''content''"
  "\<not> field_matches ''tool_call_id'' ''role''" "\<not> field_matches ''tool_call_id'' ''content''"
  "\<not> field_matches ''name'' ''role''" "\<not> field_matches ''name'' ''content''"
  by (simp add: field_matches_def; code_simp)+

lemma oai_call_reads_back [simp]: "oai_call_of_json (oai_call_json c) = Some c"
  by (simp add: oai_call_of_json_def oai_call_json_def struct_of_json_def fields_error_def)

lemma oai_message_reads_back [simp]: "oai_message_of_json (Some (oai_message_json m)) = Some m"
  by (cases "om_Content m = []"; cases "om_ToolCalls m = []"; cases "om_ToolCallID m = []"; cases "om_Name m = []")
    (simp_all add: oai_message_of_json_def oai_message_json_def struct_of_json_def fields_error_def str_member_def
      array_of_json_def comp_def)

lemma splitRef_join: "splitRef ref = (p, m) \<Longrightarrow> ref = (if CHR ''/'' \<in> set ref then p @ ''/'' @ m else m)"
proof -
  assume s: "splitRef ref = (p, m)"
  let ?p = "takeWhile (\<lambda>c. c \<noteq> CHR ''/'') ref"
  show ?thesis
  proof (cases "CHR ''/'' \<in> set ref")
    case True
    then obtain ys zs where r: "ref = ys @ CHR ''/'' # zs" "CHR ''/'' \<notin> set ys" by (metis split_list_first)
    from r(2) have "takeWhile (\<lambda>c. c \<noteq> CHR ''/'') (ys @ CHR ''/'' # zs) = ys" by (induction ys) auto
    with s r(1) have "p = ys" "m = zs" by (auto simp: splitRef_def Let_def)
    with r(1) True show ?thesis by simp
  next
    case False
    then have "?p = ref" by (auto simp: takeWhile_eq_all_conv)
    with s False show ?thesis by (auto simp: splitRef_def Let_def)
  qed
qed

lemma plain_config: "plain (config_json c)"
  by (auto simp: config_json_def target_json_def list_all_iff str_member_def)

lemma toWireMessages_inj: "toWireMessages ms = toWireMessages ms' \<Longrightarrow> ms = ms'"
proof (induction ms arbitrary: ms')
  case (Cons m ms)
  then obtain n ns where e: "ms' = n # ns" "wire_message m = wire_message n" "toWireMessages ms = toWireMessages ns"
    by (auto simp: toWireMessages_def)
  have "map wire_call xs = map wire_call ys \<Longrightarrow> xs = ys" for xs ys
    by (rule map_injective) (auto simp: inj_def wire_call_def intro: ToolCall.equality)
  with e(2) have "m = n" by (auto simp: wire_message_def intro: Message.equality)
  with e Cons.IH show ?case by simp
qed (simp add: toWireMessages_def)

text \<open>The vectors come back in the order of the inputs when every index occurs once.\<close>

lemma place_vectors_length [simp]: "length (fold place_vector ds vecs) = length vecs"
  by (induction ds arbitrary: vecs) (auto simp: place_vector_def)

lemma place_vectors_other: "int i \<notin> fst ` set ds \<Longrightarrow> fold place_vector ds vecs ! i = vecs ! i"
  by (induction ds arbitrary: vecs) (auto simp: place_vector_def nth_list_update)

lemma place_vectors_nth:
  "distinct (map fst ds) \<Longrightarrow> (int i, x) \<in> set ds \<Longrightarrow> i < length vecs \<Longrightarrow> fold place_vector ds vecs ! i = x"
  by (induction ds arbitrary: vecs) (force simp: place_vectors_other place_vector_def)+

section \<open>Properties\<close>


definition demo_gateway :: "body \<Rightarrow> nat Gateway" where
  "demo_gateway b = \<lparr>gw_Request = (\<lambda>url. None), gw_Do = (\<lambda>http w. (Inr (200, b), Suc w))\<rparr>"

definition demo_portkey :: Portkey where
  "demo_portkey = NewPortkey [] ''key'' ''openai/text-embedding-3-small'' []"

definition demo_request :: Request where
  "demo_request =
     \<lparr>rq_Messages = [msg RoleUser ''scale it'',
        \<lparr>m_Role = RoleAssistant, m_Content = [], m_ToolCalls = [\<lparr>tc_ID = ''c1'', tc_Name = ''kubectl_get'', tc_Args = ''{}''\<rparr>],
         m_ToolCallID = [], m_Name = []\<rparr>],
      rq_Tools = [], rq_Temperature = 1 / 5, rq_MaxTokens = 1024,
      rq_Routing = \<lparr>ro_Model = ''anthropic/opus'', ro_Fallbacks = [''openai/gpt-5''], ro_Reason = []\<rparr>, rq_Metadata = []\<rparr>"


end
