(* ===== verification/Sse.thy ===== *)
theory Sse
  imports Portkey "HOL-Library.AList"
begin

text \<open>
  The streamed answers of the gateway (sseStream of internal/ai/portkey.go): a text of lines is read
  into deltas, and the fragments of the tool calls are put together under their index. The body is a
  finite text with the error that ends it; a line without a newline is dropped, as \<open>ReadString\<close>
  returns it with that error.
\<close>

section \<open>Chunks\<close>

record fragment =
  fg_Index :: int
  fg_ID :: string
  fg_Name :: string
  fg_Arguments :: string

record sse_choice =
  sc_Content :: string
  sc_ToolCalls :: "fragment list"
  sc_Finish :: "string option"

record chunk =
  ck_Model :: string
  ck_Choices :: "sse_choice list"
  ck_Usage :: "(int \<times> int) option" \<comment> \<open>prompt and completion tokens\<close>

definition fragment_of_json :: "json \<Rightarrow> fragment option" where
  "fragment_of_json v =
     (case struct_of_json [(''index'', FInt 64), (''id'', FStr)] (Some v) of
        None \<Rightarrow> None
      | Some kvs \<Rightarrow>
          (case struct_of_json [(''name'', FStr), (''arguments'', FStr)] (field_value ''function'' None kvs) of
             None \<Rightarrow> None
           | Some fn \<Rightarrow> Some \<lparr>fg_Index = int_field 64 ''index'' 0 kvs, fg_ID = str_field ''id'' [] kvs,
                            fg_Name = str_field ''name'' [] fn, fg_Arguments = str_field ''arguments'' [] fn\<rparr>))"

definition sse_choice_of_json :: "json \<Rightarrow> sse_choice option" where
  "sse_choice_of_json v =
     (case struct_of_json [(''finish_reason'', FStr)] (Some v) of
        None \<Rightarrow> None
      | Some kvs \<Rightarrow>
          (case struct_of_json [(''content'', FStr)] (field_value ''delta'' None kvs) of
             None \<Rightarrow> None
           | Some ds \<Rightarrow>
               (case array_of_json (field_value ''tool_calls'' None ds) of
                  None \<Rightarrow> None
                | Some vs \<Rightarrow>
                    map_option (\<lambda>fs. \<lparr>sc_Content = str_field ''content'' [] ds, sc_ToolCalls = fs,
                        sc_Finish = (case field_value ''finish_reason'' None kvs of Some (JStr r) \<Rightarrow> Some r | _ \<Rightarrow> None)\<rparr>)
                      (those (map fragment_of_json vs)))))"

definition usage_of_json :: "json option \<Rightarrow> (int \<times> int) option option" where
  "usage_of_json v =
     (case v of
        None \<Rightarrow> Some None | Some JNull \<Rightarrow> Some None
      | Some _ \<Rightarrow>
          map_option (\<lambda>kvs. Some (int_field 64 ''prompt_tokens'' 0 kvs, int_field 64 ''completion_tokens'' 0 kvs))
            (struct_of_json usage_fields v))"

definition decode_chunk :: "string \<Rightarrow> chunk option" where
  "decode_chunk data =
     (case parse_json data of
        None \<Rightarrow> None
      | Some v \<Rightarrow>
          (case struct_of_json [(''model'', FStr)] (Some v) of
             None \<Rightarrow> None
           | Some kvs \<Rightarrow>
               (case (array_of_json (field_value ''choices'' None kvs), usage_of_json (field_value ''usage'' None kvs)) of
                  (Some vs, Some u) \<Rightarrow>
                    map_option (\<lambda>chs. \<lparr>ck_Model = str_field ''model'' [] kvs, ck_Choices = chs, ck_Usage = u\<rparr>)
                      (those (map sse_choice_of_json vs))
                | _ \<Rightarrow> None)))"

section \<open>The stream\<close>

text \<open>\<open>pending\<close> is a Go map from indexes to calls; \<open>lastUsage\<close> is a nil pointer at first.\<close>

record sseStream =
  ss_text :: string
  ss_end :: go_error
  ss_pending :: "(int \<times> ToolCall) list"
  ss_flush :: "ToolCall list"
  ss_lastUsage :: "Usage option"

definition new_sse :: "body \<Rightarrow> sseStream" where
  "new_sse b = \<lparr>ss_text = by_text b, ss_end = by_end b, ss_pending = [], ss_flush = [], ss_lastUsage = None\<rparr>"

definition text_delta :: "string \<Rightarrow> Delta" where
  "text_delta t = \<lparr>dl_Text = t, dl_ToolCall = None, dl_Done = False, dl_Usage = None, dl_Err = None\<rparr>"

definition call_delta :: "ToolCall \<Rightarrow> Delta" where
  "call_delta tc = \<lparr>dl_Text = [], dl_ToolCall = Some tc, dl_Done = False, dl_Usage = None, dl_Err = None\<rparr>"

definition done_delta :: "sseStream \<Rightarrow> Delta" where
  "done_delta s = \<lparr>dl_Text = [], dl_ToolCall = None, dl_Done = True, dl_Usage = ss_lastUsage s, dl_Err = None\<rparr>"

definition take_fragment :: "fragment \<Rightarrow> (int \<times> ToolCall) list \<Rightarrow> (int \<times> ToolCall) list" where
  "take_fragment f pending =
     (let cur = (case map_of pending (fg_Index f) of Some tc \<Rightarrow> tc | None \<Rightarrow> \<lparr>tc_ID = [], tc_Name = [], tc_Args = []\<rparr>);
          cur1 = (if fg_ID f \<noteq> [] then cur\<lparr>tc_ID := fg_ID f\<rparr> else cur);
          cur2 = (if fg_Name f \<noteq> [] then cur1\<lparr>tc_Name := fg_Name f\<rparr> else cur1)
      in AList.update (fg_Index f) (cur2\<lparr>tc_Args := tc_Args cur2 @ fg_Arguments f\<rparr>) pending)"

definition queuePending :: "sseStream \<Rightarrow> sseStream" where
  "queuePending s = s\<lparr>ss_flush := ss_flush s @ map snd (sort_key fst (ss_pending s)), ss_pending := []\<rparr>"

definition pop_flush :: "sseStream \<Rightarrow> Delta option \<times> sseStream" where
  "pop_flush s =
     (case ss_flush s of [] \<Rightarrow> (None, s) | tc # tcs \<Rightarrow> (Some (call_delta tc), s\<lparr>ss_flush := tcs\<rparr>))"

text \<open>What a chunk does: a delta to return, or nothing and the loop goes on.\<close>

definition chunk_step :: "chunk \<Rightarrow> sseStream \<Rightarrow> Delta option \<times> sseStream" where
  "chunk_step ck s =
     (let s1 = (case ck_Usage ck of
                  None \<Rightarrow> s
                | Some (p, c) \<Rightarrow> s\<lparr>ss_lastUsage :=
                    Some \<lparr>u_InputTokens = p, u_OutputTokens = c, u_CostCents = 0, u_Model = ck_Model ck\<rparr>\<rparr>)
      in case ck_Choices ck of
           [] \<Rightarrow> (None, s1)
         | ch # _ \<Rightarrow>
             (if sc_Content ch \<noteq> [] then (Some (text_delta (sc_Content ch)), s1)
              else
                (let s2 = s1\<lparr>ss_pending := fold take_fragment (sc_ToolCalls ch) (ss_pending s1)\<rparr>
                 in if sc_Finish ch = Some ''tool_calls'' then pop_flush (queuePending s2) else (None, s2))))"

definition line_step :: "string \<Rightarrow> sseStream \<Rightarrow> Delta option \<times> sseStream" where
  "line_step raw s =
     (let line = trim_space raw
      in if line = [] \<or> \<not> has_prefix line ''data:'' then (None, s)
         else
           (let data = trim_space (trim_prefix line ''data:'')
            in if data = ''[DONE]'' then (Some (done_delta s), s)
               else (case decode_chunk data of None \<Rightarrow> (None, s) | Some ck \<Rightarrow> chunk_step ck s)))"

text \<open>\<open>ReadString\<close> up to a newline, which it keeps.\<close>

definition read_line :: "string \<Rightarrow> (string \<times> string) option" where
  "read_line s =
     (let l = takeWhile (\<lambda>c. c \<noteq> CHR 0x0A) s
      in if length l < length s then Some (l @ newline, drop (Suc (length l)) s) else None)"

lemma line_step_text: "ss_text (snd (line_step raw s)) = ss_text s"
  by (simp add: line_step_def chunk_step_def pop_flush_def queuePending_def Let_def split: option.split list.split prod.split)

function sse_loop :: "sseStream \<Rightarrow> (Delta \<times> go_error option) \<times> sseStream" where
  "sse_loop s =
     (case read_line (ss_text s) of
        None \<Rightarrow> ((done_delta s, Some (ss_end s)), s\<lparr>ss_text := []\<rparr>)
      | Some (raw, rest) \<Rightarrow>
          (case line_step raw (s\<lparr>ss_text := rest\<rparr>) of
             (Some d, s1) \<Rightarrow> ((d, None), s1)
           | (None, s1) \<Rightarrow> sse_loop s1))"
  by auto
termination
proof (relation "measure (\<lambda>s. length (ss_text s))")
  fix s ln raw rest x1 s1
  assume r: "read_line (ss_text s) = Some ln" "(raw, rest) = ln"
    and l: "(x1, s1) = line_step raw (s\<lparr>ss_text := rest\<rparr>)"
  then have "ss_text s1 = rest" using line_step_text [of raw "s\<lparr>ss_text := rest\<rparr>"] by (cases "line_step raw (s\<lparr>ss_text := rest\<rparr>)") simp
  moreover have "length rest < length (ss_text s)" using r by (auto simp: read_line_def Let_def split: if_splits)
  ultimately show "(s1, s) \<in> measure (\<lambda>s. length (ss_text s))" by simp
qed simp

declare sse_loop.simps [simp del]

definition sse_Recv :: "sseStream \<Rightarrow> (Delta \<times> go_error option) \<times> sseStream" where
  "sse_Recv s =
     (case pop_flush s of (Some d, s1) \<Rightarrow> ((d, None), s1) | (None, s1) \<Rightarrow> sse_loop s1)"

text \<open>Reading a closed body fails.\<close>

definition sse_Close :: "sseStream \<Rightarrow> sseStream" where
  "sse_Close s = s\<lparr>ss_text := [], ss_end := ErrNew ''http: read on closed response body''\<rparr>"

end
