(* ===== verification/SseText.thy ===== *)
theory SseText
  imports Sse
begin

text \<open>
  What the stream of \<open>Sse\<close> makes of a well-formed answer: the text the gateway sends for a list of
  pieces (text, or fragments of tool calls), read line by line.
\<close>

section \<open>The text of an answer\<close>

datatype piece = Text string | Calls "fragment list"

definition fragment_json :: "fragment \<Rightarrow> json" where
  "fragment_json f =
     JObj [(''index'', JNum (show_int (fg_Index f))), (''id'', JStr (fg_ID f)),
           (''function'', JObj [(''name'', JStr (fg_Name f)), (''arguments'', JStr (fg_Arguments f))])]"

definition chunk_json :: "(string \<times> json) list \<Rightarrow> json" where
  "chunk_json choice = JObj [(''model'', JStr []), (''choices'', JArr [JObj choice])]"

fun piece_json :: "piece \<Rightarrow> json" where
  "piece_json (Text t) = chunk_json [(''delta'', JObj [(''content'', JStr t)])]"
| "piece_json (Calls fs) = chunk_json [(''delta'', JObj [(''tool_calls'', JArr (map fragment_json fs))])]"

definition finish_json :: "string \<Rightarrow> json" where
  "finish_json reason = chunk_json [(''delta'', JObj []), (''finish_reason'', JStr reason)]"

definition usage_json :: "string \<Rightarrow> int \<Rightarrow> int \<Rightarrow> json" where
  "usage_json model p c =
     JObj [(''model'', JStr model), (''choices'', JArr []),
           (''usage'', JObj [(''prompt_tokens'', JNum (show_int p)), (''completion_tokens'', JNum (show_int c))])]"

definition event_text :: "json \<Rightarrow> string" where
  "event_text v = ''data: '' @ json_text v @ newline @ newline"

definition done_text :: string where
  "done_text = ''data: [DONE]'' @ newline @ newline"

definition pieces_text :: "piece list \<Rightarrow> string" where
  "pieces_text ps = concat (map (event_text \<circ> piece_json) ps)"

section \<open>Numbers that are read back\<close>

lemma dec_val_snoc: "dec_val (s @ [c]) = 10 * dec_val s + digit_val c"
  by (simp add: dec_val_def)

lemma dec_val_show_nat [simp]: "dec_val (show_nat n) = n"
proof (induction n rule: show_nat.induct)
  case (1 n)
  have d: "digit_val (char_of (48 + k)) = k" if "k < 10" for k :: nat using that by (simp add: digit_val_def)
  show ?case
  proof (cases "n < 10")
    case True
    then show ?thesis by (subst show_nat.simps) (simp add: d dec_val_def)
  next
    case False
    then have "show_nat n = show_nat (n div 10) @ [char_of (48 + n mod 10)]" by (subst show_nat.simps) simp
    with 1 False show ?thesis by (simp add: dec_val_snoc d)
  qed
qed

lemma parse_int_show_int [simp]: "parse_int (show_int i) = Some i"
proof -
  have "num_sign (show_nat n) = ([], show_nat n)" for n using show_nat_literal(4) [of n "[]"] by simp
  moreover have "num_sign (CHR ''-'' # s) = (''-'', s)" for s by (simp add: num_sign_def)
  moreover have "show_nat n \<noteq> [] \<and> list_all is_digit (show_nat n)" for n using show_nat_digits by blast
  ultimately show ?thesis by (simp add: parse_int_def show_int_def del: list_all_iff)
qed

definition in_int64 :: "int \<Rightarrow> bool" where
  "in_int64 i \<longleftrightarrow> - (2 ^ 63) \<le> i \<and> i < 2 ^ 63"

lemma int_value_show_int [simp]: "in_int64 i \<Longrightarrow> int_value 64 (show_int i) = Some i"
  by (simp add: int_value_def in_int64_def)

section \<open>Chunks that are read back\<close>

lemma field_matches_chunk [simp]:
  "\<not> field_matches ''model'' ''choices''" "\<not> field_matches ''model'' ''usage''" "\<not> field_matches ''choices'' ''model''"
  "\<not> field_matches ''choices'' ''usage''" "\<not> field_matches ''usage'' ''model''" "\<not> field_matches ''usage'' ''choices''"
  "\<not> field_matches ''index'' ''id''" "\<not> field_matches ''index'' ''function''" "\<not> field_matches ''id'' ''index''"
  "\<not> field_matches ''function'' ''index''" "\<not> field_matches ''finish_reason'' ''delta''"
  "\<not> field_matches ''delta'' ''finish_reason''" "\<not> field_matches ''tool_calls'' ''content''"
  "\<not> field_matches ''prompt_tokens'' ''completion_tokens''" "\<not> field_matches ''completion_tokens'' ''prompt_tokens''"
  by (simp add: field_matches_def; code_simp)+

lemma fragment_reads_back [simp]: "in_int64 (fg_Index f) \<Longrightarrow> fragment_of_json (fragment_json f) = Some f"
  by (simp add: fragment_of_json_def fragment_json_def struct_of_json_def fields_error_def)

lemma fragments_read_back:
  "\<forall>f \<in> set fs. in_int64 (fg_Index f) \<Longrightarrow> those (map (fragment_of_json \<circ> fragment_json) fs) = Some fs"
  by (induction fs) simp_all

definition piece_choice :: "piece \<Rightarrow> sse_choice" where
  "piece_choice p =
     (case p of Text t \<Rightarrow> \<lparr>sc_Content = t, sc_ToolCalls = [], sc_Finish = None\<rparr>
      | Calls fs \<Rightarrow> \<lparr>sc_Content = [], sc_ToolCalls = fs, sc_Finish = None\<rparr>)"

definition fine_piece :: "piece \<Rightarrow> bool" where
  "fine_piece p = (case p of Text t \<Rightarrow> t \<noteq> [] | Calls fs \<Rightarrow> \<forall>f \<in> set fs. in_int64 (fg_Index f))"

lemma plain_fragment [simp]: "plain (fragment_json f)"
  using plain_int by (simp add: fragment_json_def)

lemma plain_piece: "plain (piece_json p)"
  by (cases p) (simp_all add: chunk_json_def list_all_iff)

lemma chunk_reads_back:
  assumes "plain (JObj choice)" and "sse_choice_of_json (JObj choice) = Some ch"
  shows "decode_chunk (json_text (chunk_json choice)) = Some \<lparr>ck_Model = [], ck_Choices = [ch], ck_Usage = None\<rparr>"
proof -
  have "plain (chunk_json choice)" using assms(1) by (simp add: chunk_json_def)
  from parse_plain_text [OF this] assms(2) show ?thesis
    by (simp add: decode_chunk_def chunk_json_def struct_of_json_def fields_error_def array_of_json_def usage_of_json_def)
qed

lemma piece_reads_back:
  assumes "fine_piece p"
  shows "decode_chunk (json_text (piece_json p)) = Some \<lparr>ck_Model = [], ck_Choices = [piece_choice p], ck_Usage = None\<rparr>"
proof (cases p)
  case (Text t)
  then show ?thesis
    by (simp add: chunk_reads_back piece_choice_def sse_choice_of_json_def struct_of_json_def fields_error_def array_of_json_def)
next
  case (Calls fs)
  with assms have "those (map (fragment_of_json \<circ> fragment_json) fs) = Some fs"
    by (simp add: fine_piece_def fragments_read_back)
  then have "sse_choice_of_json (JObj [(''delta'', JObj [(''tool_calls'', JArr (map fragment_json fs))])]) = Some (piece_choice p)"
    by (simp add: Calls piece_choice_def sse_choice_of_json_def struct_of_json_def fields_error_def array_of_json_def)
  moreover have "plain (JObj [(''delta'', JObj [(''tool_calls'', JArr (map fragment_json fs))])])" by (simp add: list_all_iff)
  ultimately show ?thesis using chunk_reads_back by (simp add: Calls)
qed

lemma finish_reads_back:
  "decode_chunk (json_text (finish_json reason)) =
     Some \<lparr>ck_Model = [], ck_Choices = [\<lparr>sc_Content = [], sc_ToolCalls = [], sc_Finish = Some reason\<rparr>], ck_Usage = None\<rparr>"
  unfolding finish_json_def
  by (rule chunk_reads_back) (simp_all add: sse_choice_of_json_def struct_of_json_def fields_error_def array_of_json_def)

lemma usage_reads_back:
  assumes "in_int64 p" "in_int64 c"
  shows "decode_chunk (json_text (usage_json model p c)) =
    Some \<lparr>ck_Model = model, ck_Choices = [], ck_Usage = Some (p, c)\<rparr>"
proof -
  have "plain (usage_json model p c)" using plain_int by (simp add: usage_json_def)
  from parse_plain_text [OF this] assms show ?thesis
    by (simp add: decode_chunk_def usage_json_def struct_of_json_def fields_error_def array_of_json_def usage_of_json_def
        usage_fields_def)
qed

section \<open>Lines\<close>

text \<open>JSON text holds no newline, and an object's starts and ends with its braces.\<close>

lemma num_chars: "parse_num lit = Some (lit, []) \<Longrightarrow> CHR 0x0A \<notin> set lit"
proof -
  have nl: "\<not> is_digit (CHR 0x0A)" by (simp add: is_digit_def)
  have d: "CHR 0x0A \<notin> set (takeWhile is_digit s)" for s by (auto dest!: set_takeWhileD simp: is_digit_def)
  have i: "CHR 0x0A \<notin> set x" if "num_int s = Some (x, t)" for s x t
    using that d by (auto simp: num_int_def Let_def split: if_splits)
  have f: "CHR 0x0A \<notin> set x" if "num_frac s = Some (x, t)" for s x t
    using that d by (auto simp: num_frac_def Let_def split: if_splits)
  have e: "CHR 0x0A \<notin> set x" if "num_exp s = Some (x, t)" for s x t
    using that d nl by (cases s; cases "drop 1 s") (auto simp: num_exp_def Let_def split: if_splits)
  assume "parse_num lit = Some (lit, [])"
  then obtain sg s1 ip s2 fr s3 ex where "num_sign lit = (sg, s1)" "num_int s1 = Some (ip, s2)"
    "num_frac s2 = Some (fr, s3)" "num_exp s3 = Some (ex, [])" "lit = sg @ ip @ fr @ ex"
    by (auto simp: parse_num_def split: prod.splits option.splits)
  with i f e show ?thesis by (auto simp: num_sign_def split: if_splits)
qed

lemma hex_digit_newline: "n < 16 \<Longrightarrow> hex_digit n \<noteq> CHR 0x0A"
proof
  assume n: "n < 16" and "hex_digit n = CHR 0x0A"
  then have "(of_char (hex_digit n) :: nat) = of_char (CHR 0x0A)" by (simp only:)
  with n show False by (simp add: hex_digit_def split: if_splits)
qed

lemma quote_char_newline: "CHR 0x0A \<notin> set (quote_char c)"
proof (cases "c = CHR 0x0A")
  case True
  then show ?thesis by (simp add: quote_simple(5))
next
  case False
  moreover have "(of_char c :: nat) div 16 < 16" using of_char_less_256 [of c] by (simp add: div_less_iff_less_mult)
  ultimately show ?thesis using hex_digit_newline by (auto simp: quote_char_def Let_def dest: sym)
qed

lemma quote_body_newline: "CHR 0x0A \<notin> set (quote_body s)"
  by (induction s rule: quote_body.induct) (auto simp: quote_char_newline)

lemma set_join: "x \<in> set (join sep xs) \<Longrightarrow> x \<in> set sep \<or> (\<exists>y \<in> set xs. x \<in> set y)"
  by (induction sep xs rule: join.induct) auto

lemma json_text_newline: "plain v \<Longrightarrow> CHR 0x0A \<notin> set (json_text v)"
proof (induction v)
  case (JArr vs)
  then show ?case by (auto simp: list_all_iff dest!: set_join)
next
  case (JObj kvs)
  then show ?case by (fastforce simp: list_all_iff json_quote_def quote_body_newline dest!: set_join)
qed (auto simp: num_chars json_quote_def quote_body_newline)

lemma trim_space_line:
  assumes "\<not> is_space c" and "\<not> is_space d"
  shows "trim_space (c # s @ [d] @ newline) = c # s @ [d]" "trim_space (c # s @ [d]) = c # s @ [d]"
    "trim_space (CHR '' '' # c # s @ [d]) = c # s @ [d]"
proof -
  have "is_space (CHR 0x0A)" "is_space (CHR '' '')" by (simp_all add: is_space_def)
  with assms show "trim_space (c # s @ [d] @ newline) = c # s @ [d]" "trim_space (c # s @ [d]) = c # s @ [d]"
    "trim_space (CHR '' '' # c # s @ [d]) = c # s @ [d]"
    by (simp_all add: trim_space_def newline_def)
qed

lemma read_line_line: "CHR 0x0A \<notin> set l \<Longrightarrow> read_line (l @ CHR 0x0A # rest) = Some (l @ newline, rest)"
proof -
  assume l: "CHR 0x0A \<notin> set l"
  then have "takeWhile (\<lambda>c. c \<noteq> CHR 0x0A) (l @ CHR 0x0A # rest) = l" by (induction l) auto
  then show ?thesis by (simp add: read_line_def)
qed

lemma sse_loop_skip: "sse_loop (s\<lparr>ss_text := newline @ rest\<rparr>) = sse_loop (s\<lparr>ss_text := rest\<rparr>)"
proof -
  have "trim_space newline = []" by (simp add: trim_space_def newline_def is_space_def)
  then have "line_step newline s' = (None, s')" for s' by (simp add: line_step_def)
  moreover have "read_line (newline @ rest) = Some (newline, rest)" using read_line_line [of "[]" rest] by (simp add: newline_def)
  ultimately show ?thesis by (subst sse_loop.simps) simp
qed

text \<open>An event of the gateway is one line, whose chunk takes its step; the empty line after it is skipped.\<close>

lemma sse_loop_event:
  assumes "plain (JObj kvs)" and "decode_chunk (json_text (JObj kvs)) = Some ck"
  shows "sse_loop (s\<lparr>ss_text := event_text (JObj kvs) @ rest\<rparr>) =
    (case chunk_step ck (s\<lparr>ss_text := newline @ rest\<rparr>) of (Some d, s1) \<Rightarrow> ((d, None), s1) | (None, s1) \<Rightarrow> sse_loop s1)"
proof -
  define b where "b = join '','' (map (\<lambda>(k, v). json_quote k @ '':'' @ json_text v) kvs)"
  have j: "json_text (JObj kvs) = CHR ''{'' # b @ [CHR ''}'']" by (simp add: b_def)
  define raw where "raw = CHR ''d'' # (''ata: {'' @ b) @ [CHR ''}''] @ newline"
  have sp: "\<not> is_space (CHR ''d'')" "\<not> is_space (CHR ''{'')" "\<not> is_space (CHR ''}'')" by (simp_all add: is_space_def)
  have t: "trim_space raw = CHR ''d'' # (''ata: {'' @ b) @ [CHR ''}'']" unfolding raw_def by (rule trim_space_line(1) [OF sp(1,3)])
  have "trim_space (trim_prefix (CHR ''d'' # (''ata: {'' @ b) @ [CHR ''}'']) ''data:'') = json_text (JObj kvs)"
    unfolding j using trim_space_line(3) [OF sp(2,3), of b] by (simp add: trim_prefix_def)
  with t assms(2) have step: "line_step raw s' = chunk_step ck s'" for s'
    unfolding line_step_def Let_def t by (simp add: j)
  have "CHR 0x0A \<notin> set (CHR ''d'' # (''ata: {'' @ b) @ [CHR ''}''])"
    using json_text_newline [OF assms(1)] unfolding j by auto
  from read_line_line [OF this, of "newline @ rest"]
  have "read_line (event_text (JObj kvs) @ rest) = Some (raw, newline @ rest)"
    unfolding event_text_def j by (simp add: newline_def raw_def)
  then show ?thesis by (subst sse_loop.simps) (simp add: step)
qed

lemma sse_loop_done: "sse_loop (s\<lparr>ss_text := done_text @ rest\<rparr>) = ((done_delta s, None), s\<lparr>ss_text := newline @ rest\<rparr>)"
proof -
  have sp: "\<not> is_space (CHR ''d'')" "\<not> is_space (CHR ''['')" "\<not> is_space (CHR '']'')" by (simp_all add: is_space_def)
  have "trim_space (''data: [DONE]'' @ newline) = ''data: [DONE]''" "trim_space '' [DONE]'' = ''[DONE]''"
    using trim_space_line(1) [OF sp(1,3), of "''ata: [DONE''"] trim_space_line(3) [OF sp(2,3), of "''DONE''"] by simp_all
  then have "line_step (''data: [DONE]'' @ newline) s' = (Some (done_delta s'), s')" for s'
    by (simp add: line_step_def trim_prefix_def)
  moreover have "read_line (done_text @ rest) = Some (''data: [DONE]'' @ newline, newline @ rest)"
    using read_line_line [of "''data: [DONE]''" "newline @ rest"] by (simp add: done_text_def newline_def)
  ultimately show ?thesis by (subst sse_loop.simps) (simp add: done_delta_def)
qed

section \<open>Putting tool calls together\<close>

text \<open>
  What the fragments of one index amount to: the last id and the last name that are not empty, and
  the arguments in sequence.
\<close>

definition last_set :: "string list \<Rightarrow> string" where
  "last_set xs = foldl (\<lambda>cur x. if x \<noteq> [] then x else cur) [] xs"

definition assembled_call :: "int \<Rightarrow> fragment list \<Rightarrow> ToolCall" where
  "assembled_call i fs =
     (let own = filter (\<lambda>f. fg_Index f = i) fs
      in \<lparr>tc_ID = last_set (map fg_ID own), tc_Name = last_set (map fg_Name own), tc_Args = concat (map fg_Arguments own)\<rparr>)"

definition assembled :: "fragment list \<Rightarrow> ToolCall list" where
  "assembled fs = map (\<lambda>i. assembled_call i fs) (sorted_list_of_set (fg_Index ` set fs))"

definition collects :: "fragment list \<Rightarrow> (int \<times> ToolCall) list \<Rightarrow> bool" where
  "collects fs pending \<longleftrightarrow> distinct (map fst pending) \<and>
     map_of pending = (\<lambda>i. if i \<in> fg_Index ` set fs then Some (assembled_call i fs) else None)"

lemma last_set_snoc: "last_set (xs @ [x]) = (if x \<noteq> [] then x else last_set xs)"
  by (simp add: last_set_def)

lemma assembled_call_none: "i \<notin> fg_Index ` set fs \<Longrightarrow> assembled_call i fs = \<lparr>tc_ID = [], tc_Name = [], tc_Args = []\<rparr>"
proof -
  assume "i \<notin> fg_Index ` set fs"
  then have "filter (\<lambda>f. fg_Index f = i) fs = []" by (auto simp: filter_empty_conv)
  then show ?thesis by (simp add: assembled_call_def last_set_def)
qed

lemma assembled_call_snoc:
  "assembled_call i (fs @ [f]) =
     (if fg_Index f = i
      then (let c = assembled_call i fs
            in \<lparr>tc_ID = if fg_ID f \<noteq> [] then fg_ID f else tc_ID c, tc_Name = if fg_Name f \<noteq> [] then fg_Name f else tc_Name c,
                tc_Args = tc_Args c @ fg_Arguments f\<rparr>)
      else assembled_call i fs)"
  by (simp add: assembled_call_def last_set_snoc Let_def)

lemma collects_snoc: "collects fs pending \<Longrightarrow> collects (fs @ [f]) (take_fragment f pending)"
proof -
  assume c: "collects fs pending"
  then have cur: "(case map_of pending (fg_Index f) of Some tc \<Rightarrow> tc | None \<Rightarrow> \<lparr>tc_ID = [], tc_Name = [], tc_Args = []\<rparr>) =
      assembled_call (fg_Index f) fs"
    by (simp add: collects_def assembled_call_none)
  have "take_fragment f pending = AList.update (fg_Index f) (assembled_call (fg_Index f) (fs @ [f])) pending"
    unfolding take_fragment_def cur
    by (cases "assembled_call (fg_Index f) fs") (simp add: Let_def assembled_call_snoc)
  with c show ?thesis by (auto simp: collects_def distinct_update update_conv' assembled_call_snoc)
qed

lemma collects_append: "collects fs pending \<Longrightarrow> collects (fs @ gs) (fold take_fragment gs pending)"
proof (induction gs arbitrary: fs pending)
  case (Cons g gs)
  from Cons.IH [OF collects_snoc [OF Cons.prems, of g]] show ?case by simp
qed simp

lemma collects_queue:
  assumes "collects fs pending"
  shows "map snd (sort_key fst pending) = assembled fs"
proof -
  let ?p = "sort_key fst pending"
  have d: "distinct (map fst ?p)" "sorted (map fst ?p)"
    using assms sorted_distinct_map_sort_key [of fst pending] by (auto simp: collects_def)
  have "dom (map_of pending) = fg_Index ` set fs" using assms by (auto simp: collects_def dom_def)
  then have "set (map fst ?p) = fg_Index ` set fs" by (simp add: dom_map_of_conv_image_fst)
  with d have keys: "map fst ?p = sorted_list_of_set (fg_Index ` set fs)"
    by (metis sorted_list_of_set.idem_if_sorted_distinct)
  have "map_of ?p = map_of pending" using assms d(1) by (intro map_of_inject_set [THEN iffD2]) (auto simp: collects_def)
  moreover have "map_of ?p (fst kv) = Some (snd kv)" if "kv \<in> set ?p" for kv
    using that by (intro map_of_is_SomeI [OF d(1)]) simp
  ultimately have "snd kv = assembled_call (fst kv) fs" if "kv \<in> set ?p" for kv
    using that assms unfolding collects_def by (metis (no_types, lifting) option.inject option.distinct(1))
  then have "map snd ?p = map (\<lambda>i. assembled_call i fs) (map fst ?p)" by simp
  then show ?thesis by (simp only: keys assembled_def)
qed

section \<open>The events of an answer\<close>

text \<open>The answer: its pieces, the reason it finished, the usage and the end.\<close>

definition answer_text :: "piece list \<Rightarrow> string \<Rightarrow> string \<Rightarrow> int \<Rightarrow> int \<Rightarrow> string" where
  "answer_text ps reason model p c =
     pieces_text ps @ event_text (finish_json reason) @ event_text (usage_json model p c) @ done_text"

definition texts :: "piece list \<Rightarrow> string" where
  "texts ps = concat (map (\<lambda>p. case p of Text t \<Rightarrow> t | Calls fs \<Rightarrow> []) ps)"

definition fragments :: "piece list \<Rightarrow> fragment list" where
  "fragments ps = concat (map (\<lambda>p. case p of Text t \<Rightarrow> [] | Calls fs \<Rightarrow> fs) ps)"

lemma sse_loop_newline [simp]: "ss_text s = newline @ rest \<Longrightarrow> sse_loop s = sse_loop (s\<lparr>ss_text := rest\<rparr>)"
  using sse_loop_skip [where s = s and rest = rest] by (metis (no_types, lifting) sseStream.surjective sseStream.update_convs(1))

lemma sse_loop_Text:
  assumes "t \<noteq> []"
  shows "sse_loop (s\<lparr>ss_text := event_text (piece_json (Text t)) @ rest\<rparr>) = ((text_delta t, None), s\<lparr>ss_text := newline @ rest\<rparr>)"
proof -
  obtain kvs where k: "piece_json (Text t) = JObj kvs" by (simp add: chunk_json_def)
  from sse_loop_event [where kvs = kvs and s = s and rest = rest] piece_reads_back [of "Text t"] plain_piece [of "Text t"] assms show ?thesis
    unfolding k by (simp add: fine_piece_def chunk_step_def piece_choice_def)
qed

lemma sse_loop_Calls:
  assumes "\<forall>f \<in> set fs. in_int64 (fg_Index f)"
  shows "sse_loop (s\<lparr>ss_text := event_text (piece_json (Calls fs)) @ rest\<rparr>) =
    sse_loop (s\<lparr>ss_pending := fold take_fragment fs (ss_pending s), ss_text := rest\<rparr>)"
proof -
  obtain kvs where k: "piece_json (Calls fs) = JObj kvs" by (simp add: chunk_json_def)
  from sse_loop_event [where kvs = kvs and s = s and rest = rest] piece_reads_back [of "Calls fs"] plain_piece [of "Calls fs"] assms show ?thesis
    unfolding k by (simp add: fine_piece_def chunk_step_def piece_choice_def)
qed

lemma sse_loop_finish:
  assumes "collects fs (ss_pending s)" and "ss_flush s = []" and "reason \<noteq> ''tool_calls'' \<longrightarrow> fs = []"
  shows "sse_loop (s\<lparr>ss_text := event_text (finish_json reason) @ rest\<rparr>) =
    (case assembled fs of
       [] \<Rightarrow> sse_loop (s\<lparr>ss_text := rest, ss_pending := []\<rparr>)
     | tc # tcs \<Rightarrow> ((call_delta tc, None), s\<lparr>ss_text := newline @ rest, ss_pending := [], ss_flush := tcs\<rparr>))"
proof -
  obtain kvs where k: "finish_json reason = JObj kvs" by (simp add: finish_json_def chunk_json_def)
  have "plain (finish_json reason)" by (simp add: finish_json_def chunk_json_def)
  note e = sse_loop_event [where kvs = kvs and s = s and rest = rest, OF this [unfolded k] finish_reads_back [of reason, unfolded k]]
  show ?thesis
  proof (cases "reason = ''tool_calls''")
    case True
    have "s\<lparr>ss_flush := [], ss_pending := [], ss_text := rest\<rparr> = s\<lparr>ss_text := rest, ss_pending := []\<rparr>"
      using assms(2) by (cases s) simp
    with True e collects_queue [OF assms(1)] assms(2) show ?thesis
      unfolding k by (cases "assembled fs") (simp_all add: chunk_step_def queuePending_def pop_flush_def)
  next
    case False
    with assms have fs: "fs = []" by simp
    with assms(1) have "ss_pending s = []" by (simp add: collects_def)
    then have "s\<lparr>ss_text := rest, ss_pending := []\<rparr> = s\<lparr>ss_text := rest\<rparr>" by (cases s) simp
    with e False fs show ?thesis unfolding k by (simp add: chunk_step_def assembled_def)
  qed
qed

lemma sse_loop_usage:
  assumes "in_int64 p" "in_int64 c"
  shows "sse_loop (s\<lparr>ss_text := event_text (usage_json model p c) @ rest\<rparr>) =
    sse_loop (s\<lparr>ss_lastUsage := Some \<lparr>u_InputTokens = p, u_OutputTokens = c, u_CostCents = 0, u_Model = model\<rparr>, ss_text := rest\<rparr>)"
proof -
  obtain kvs where k: "usage_json model p c = JObj kvs" by (simp add: usage_json_def)
  have "plain (usage_json model p c)" using plain_int by (simp add: usage_json_def)
  from sse_loop_event [where kvs = kvs and s = s and rest = rest, OF this [unfolded k] usage_reads_back [OF assms, of model, unfolded k]]
  show ?thesis unfolding k by (simp add: chunk_step_def)
qed

text \<open>Every delta that is not the last takes something from the text or from the queue.\<close>

lemma read_line_shorter: "read_line t = Some (raw, rest) \<Longrightarrow> length rest < length t"
  by (auto simp: read_line_def Let_def split: if_splits)

lemma sse_loop_shorter: "sse_loop s = ((d, None), s') \<Longrightarrow> length (ss_text s') < length (ss_text s)"
proof (induction s rule: sse_loop.induct)
  case (1 s)
  from 1(2) obtain raw rest where l: "read_line (ss_text s) = Some (raw, rest)"
    by (subst (asm) sse_loop.simps) (auto split: option.splits)
  note shorter = read_line_shorter [OF l]
  obtain r s1 where st: "line_step raw (s\<lparr>ss_text := rest\<rparr>) = (r, s1)" by fastforce
  with line_step_text [of raw "s\<lparr>ss_text := rest\<rparr>"] have t: "ss_text s1 = rest" by simp
  show ?case
  proof (cases r)
    case None
    with 1(2) l st have "sse_loop s1 = ((d, None), s')" by (subst (asm) sse_loop.simps) simp
    from 1(1) [OF l refl _ None this] st t shorter show ?thesis by simp
  next
    case (Some x)
    with 1(2) l st t shorter show ?thesis by (subst (asm) sse_loop.simps) simp
  qed
qed

end
