(* ===== verification/PortkeyTurn.thy ===== *)
theory PortkeyTurn
  imports SseText Startup
begin

text \<open>
  The gateway as the provider of the agent. The state of an open stream is an object of the program;
  the world holds those objects in a table (a \<open>slot\<close>), and a stream is its index.
\<close>

section \<open>The provider\<close>

record 'w slot =
  sl_get :: "'w \<Rightarrow> sseStream list"
  sl_set :: "sseStream list \<Rightarrow> 'w \<Rightarrow> 'w"

definition slot_stream :: "'w slot \<Rightarrow> nat \<Rightarrow> 'w Stream" where
  "slot_stream sl i =
     \<lparr>Recv = (\<lambda>w. case sse_Recv (sl_get sl w ! i) of (r, s) \<Rightarrow> (r, sl_set sl ((sl_get sl w)[i := s]) w)),
      Close = (\<lambda>w. sl_set sl ((sl_get sl w)[i := sse_Close (sl_get sl w ! i)]) w)\<rparr>"

definition Portkey_Stream ::
  "'w slot \<Rightarrow> 'w Gateway \<Rightarrow> Portkey \<Rightarrow> Request \<Rightarrow> 'w \<Rightarrow> (go_error + 'w Stream) \<times> 'w" where
  "Portkey_Stream sl g p req w =
     (case newRequest g p req True of
        Inl e \<Rightarrow> (Inl e, w)
      | Inr http \<Rightarrow>
          (case send_request g ''portkey'' (http\<lparr>hp_Headers := hp_Headers http @ [(''Accept'', ''text/event-stream'')]\<rparr>) w of
             (Inl e, w1) \<Rightarrow> (Inl e, w1)
           | (Inr b, w1) \<Rightarrow>
               (Inr (slot_stream sl (length (sl_get sl w1))), sl_set sl (sl_get sl w1 @ [new_sse b]) w1)))"

definition portkey_provider :: "'w slot \<Rightarrow> 'w Gateway \<Rightarrow> Portkey \<Rightarrow> 'w Provider" where
  "portkey_provider sl g p =
     \<lparr>p_Chat = Portkey_Chat g p, p_Stream = Portkey_Stream sl g p, p_Embed = Portkey_Embed g p,
      p_Name = ''portkey'', p_Models = pk_models p\<rparr>"

text \<open>The provider of the program, from the settings of a started session.\<close>

definition main_provider :: "'w slot \<Rightarrow> 'w Gateway \<Rightarrow> Started \<Rightarrow> 'w Provider" where
  "main_provider sl g s =
     portkey_provider sl g
       (NewPortkey (ai_BaseURL (ac_AI (rn_cfg s))) (rn_apiKey s) (ai_EmbeddingModel (ac_AI (rn_cfg s)))
         (modelCatalog (rn_cfg s)))"

section \<open>Streams in a table\<close>

locale stream_slot =
  fixes sl :: "'w slot"
  assumes get_set: "sl_get sl (sl_set sl ss w) = ss"
begin

lemma Recv_slot:
  assumes "sse_Recv (sl_get sl w ! i) = (r, s)" and "i < length (sl_get sl w)"
  shows "Recv (slot_stream sl i) w = (r, sl_set sl ((sl_get sl w)[i := s]) w)"
    and "sl_get sl (sl_set sl ((sl_get sl w)[i := s]) w) ! i = s"
    and "length (sl_get sl (sl_set sl ((sl_get sl w)[i := s]) w)) = length (sl_get sl w)"
  using assms by (simp_all add: slot_stream_def get_set)

text \<open>A stream ends from any state, since every delta but the last takes something away.\<close>

lemma slot_stream_ends:
  assumes emit: "\<And>e w. sl_get sl (cf_Emit c e w) = sl_get sl w" and i: "i < length (sl_get sl w)"
  shows "ends c (slot_stream sl i) w"
  using i
proof (induction "sl_get sl w ! i" arbitrary: w
    rule: wf_induct_rule [OF wf_inv_image [OF wf_lex_prod [OF wf_less_than wf_less_than], of "\<lambda>s. (length (ss_text s), length (ss_flush s))"]])
  case (1 w)
  let ?s = "sl_get sl w ! i"
  obtain d err s' where r: "sse_Recv ?s = ((d, err), s')" by (metis prod.exhaust)
  note slot = Recv_slot [OF r 1(2)]
  show ?case
  proof (cases "err \<noteq> None \<or> dl_Done d")
    case True
    then show ?thesis by (rule ends.stop [OF slot(1)])
  next
    case False
    then have e: "err = None" "\<not> dl_Done d" by simp_all
    have "(s', ?s) \<in> inv_image (less_than <*lex*> less_than) (\<lambda>s. (length (ss_text s), length (ss_flush s)))"
      using r e sse_loop_shorter [of ?s d s']
      by (auto simp: sse_Recv_def pop_flush_def split: list.splits)
    moreover have "sl_get sl (after_delta c d (sl_set sl ((sl_get sl w)[i := s']) w)) = (sl_get sl w)[i := s']"
      by (simp add: after_delta_def emit get_set)
    moreover have "i < length ((sl_get sl w)[i := s'])" "(sl_get sl w)[i := s'] ! i = s'" using 1(2) by simp_all
    ultimately have "ends c (slot_stream sl i) (after_delta c d (sl_set sl ((sl_get sl w)[i := s']) w))"
      using 1(1) by metis
    then show ?thesis using slot(1) e by (metis ends.more)
  qed
qed

text \<open>What a delta without error does to the loop of the agent.\<close>

lemma streamLoop_delta:
  assumes emit: "\<And>e w. sl_get sl (cf_Emit c e w) = sl_get sl w"
    and i: "i < length (sl_get sl (world (ag_st a)))"
    and r: "sse_Recv (sl_get sl (world (ag_st a)) ! i) = ((d, None), s')" and "\<not> dl_Done d"
  obtains a' where "streamLoop c (slot_stream sl i) m u final a =
      streamLoop c (slot_stream sl i) (fst (take_delta c d (m, final, a)))
        (case dl_Usage d of Some u' \<Rightarrow> u' | None \<Rightarrow> u) (fst (snd (take_delta c d (m, final, a)))) a'"
    "i < length (sl_get sl (world (ag_st a')))" "sl_get sl (world (ag_st a')) ! i = s'"
proof -
  note slot = Recv_slot [OF r i]
  define a1 where "a1 = on_world (\<lambda>_. sl_set sl ((sl_get sl (world (ag_st a)))[i := s']) (world (ag_st a))) a"
  obtain m' final' a2 where t: "take_delta c d (m, final, a1) = (m', final', a2)" by (metis prod.exhaust)
  have mf: "fst (take_delta c d (m, final, a)) = m'" "fst (snd (take_delta c d (m, final, a))) = final'"
    using t by (auto simp: take_delta_def split: if_splits option.splits)
  have "world (ag_st a2) = after_delta c d (world (ag_st a1))" by (rule take_delta_world [OF t])
  then have w: "sl_get sl (world (ag_st a2)) = (sl_get sl (world (ag_st a)))[i := s']"
    by (simp add: after_delta_def emit a1_def on_world_def get_set)
  have "streamLoop c (slot_stream sl i) m u final a =
      streamLoop c (slot_stream sl i) m' (case dl_Usage d of Some u' \<Rightarrow> u' | None \<Rightarrow> u) final' a2"
    by (subst streamLoop_code) (simp add: slot(1) assms(4) t flip: a1_def)
  then show ?thesis using that [of a2] i w mf by simp
qed

lemma pieces_stage:
  assumes emit: "\<And>e w. sl_get sl (cf_Emit c e w) = sl_get sl w" and "list_all fine_piece ps"
    and "i < length (sl_get sl (world (ag_st a)))"
    and "sse_Recv (sl_get sl (world (ag_st a)) ! i) = sse_loop (s\<lparr>ss_text := pieces_text ps @ tail\<rparr>)"
    and "collects acc (ss_pending s)" and "ss_flush s = []"
  shows "\<exists>a' s'. streamLoop c (slot_stream sl i) m u final a =
      streamLoop c (slot_stream sl i) (m\<lparr>m_Content := m_Content m @ texts ps\<rparr>) u (final @ texts ps) a' \<and>
    i < length (sl_get sl (world (ag_st a'))) \<and> sse_Recv (sl_get sl (world (ag_st a')) ! i) = sse_loop (s'\<lparr>ss_text := tail\<rparr>) \<and>
    collects (acc @ fragments ps) (ss_pending s') \<and> ss_flush s' = []"
  using assms(2-)
proof (induction ps arbitrary: a s acc m final)
  case Nil
  then show ?case by (intro exI [of _ a] exI [of _ s]) (simp add: texts_def fragments_def pieces_text_def)
next
  case (Cons p ps)
  have whole: "pieces_text (p # ps) @ tail = event_text (piece_json p) @ pieces_text ps @ tail" by (simp add: pieces_text_def)
  show ?case
  proof (cases p)
    case (Text t)
    with Cons.prems(1) have "t \<noteq> []" by (simp add: fine_piece_def)
    let ?s = "s\<lparr>ss_text := newline @ pieces_text ps @ tail\<rparr>"
    from Cons.prems(3) have "sse_Recv (sl_get sl (world (ag_st a)) ! i) = ((text_delta t, None), ?s)"
      unfolding whole unfolding Text sse_loop_Text [OF \<open>t \<noteq> []\<close>] .
    then obtain a1 where a1: "streamLoop c (slot_stream sl i) m u final a =
        streamLoop c (slot_stream sl i) (m\<lparr>m_Content := m_Content m @ t\<rparr>) u (final @ t) a1"
      "i < length (sl_get sl (world (ag_st a1)))" "sl_get sl (world (ag_st a1)) ! i = ?s"
      using streamLoop_delta [OF emit Cons.prems(2), of "text_delta t" ?s m u final] \<open>t \<noteq> []\<close>
      by (auto simp: text_delta_def take_delta_def)
    have "sse_Recv (sl_get sl (world (ag_st a1)) ! i) = sse_loop (s\<lparr>ss_text := pieces_text ps @ tail\<rparr>)"
      using Cons.prems(5) by (simp add: a1(3) sse_Recv_def pop_flush_def)
    from Cons.IH [OF _ a1(2) this Cons.prems(4,5), of "m\<lparr>m_Content := m_Content m @ t\<rparr>" "final @ t"] Cons.prems(1) a1(1)
    show ?thesis by (simp add: Text texts_def fragments_def)
  next
    case (Calls fs)
    with Cons.prems(1) have "\<forall>f \<in> set fs. in_int64 (fg_Index f)" by (simp add: fine_piece_def)
    from sse_loop_Calls [OF this] Cons.prems(3)
    have "sse_Recv (sl_get sl (world (ag_st a)) ! i) =
        sse_loop ((s\<lparr>ss_pending := fold take_fragment fs (ss_pending s)\<rparr>)\<lparr>ss_text := pieces_text ps @ tail\<rparr>)"
      unfolding whole unfolding Calls by simp
    from Cons.IH [OF _ Cons.prems(2) this, of "acc @ fs" m final] collects_append [OF Cons.prems(4)] Cons.prems(1,5)
    show ?thesis by (simp add: Calls texts_def fragments_def)
  qed
qed

lemma flush_stage:
  assumes emit: "\<And>e w. sl_get sl (cf_Emit c e w) = sl_get sl w"
    and "i < length (sl_get sl (world (ag_st a)))" and "sl_get sl (world (ag_st a)) ! i = s\<lparr>ss_flush := tcs\<rparr>"
  shows "\<exists>a'. streamLoop c (slot_stream sl i) m u final a =
      streamLoop c (slot_stream sl i) (m\<lparr>m_ToolCalls := m_ToolCalls m @ tcs\<rparr>) u final a' \<and>
    i < length (sl_get sl (world (ag_st a'))) \<and> sl_get sl (world (ag_st a')) ! i = s\<lparr>ss_flush := []\<rparr>"
  using assms(2-)
proof (induction tcs arbitrary: a m)
  case (Cons tc tcs)
  have "sse_Recv (sl_get sl (world (ag_st a)) ! i) = ((call_delta tc, None), s\<lparr>ss_flush := tcs\<rparr>)"
    by (simp add: Cons.prems(2) sse_Recv_def pop_flush_def)
  then obtain a1 where a1: "streamLoop c (slot_stream sl i) m u final a =
      streamLoop c (slot_stream sl i) (m\<lparr>m_ToolCalls := m_ToolCalls m @ [tc]\<rparr>) u final a1"
    "i < length (sl_get sl (world (ag_st a1)))" "sl_get sl (world (ag_st a1)) ! i = s\<lparr>ss_flush := tcs\<rparr>"
    using streamLoop_delta [OF emit Cons.prems(1), of "call_delta tc" "s\<lparr>ss_flush := tcs\<rparr>" m u final]
    by (auto simp: call_delta_def take_delta_def)
  from Cons.IH [OF a1(2,3), of "m\<lparr>m_ToolCalls := m_ToolCalls m @ [tc]\<rparr>"] a1(1) show ?case by simp
qed auto

lemma answer_stage:
  assumes emit: "\<And>e w. sl_get sl (cf_Emit c e w) = sl_get sl w" and ps: "list_all fine_piece ps"
    and i: "i < length (sl_get sl (world (ag_st a)))"
    and s: "sl_get sl (world (ag_st a)) ! i = new_sse \<lparr>by_text = answer_text ps reason model p k, by_end = e\<rparr>"
    and reason: "reason \<noteq> ''tool_calls'' \<longrightarrow> fragments ps = []" and int: "in_int64 p" "in_int64 k"
  shows "\<exists>a'. streamLoop c (slot_stream sl i) m u final a =
    Some ((m\<lparr>m_Content := m_Content m @ texts ps, m_ToolCalls := m_ToolCalls m @ assembled (fragments ps)\<rparr>,
           \<lparr>u_InputTokens = p, u_OutputTokens = k, u_CostCents = 0, u_Model = model\<rparr>, final @ texts ps, None), a')"
proof -
  let ?S = "slot_stream sl i" and ?m1 = "m\<lparr>m_Content := m_Content m @ texts ps\<rparr>" and ?f1 = "final @ texts ps"
  let ?us = "\<lparr>u_InputTokens = p, u_OutputTokens = k, u_CostCents = 0, u_Model = model\<rparr>"
  define after where "after = event_text (usage_json model p k) @ done_text"
  define s0 where "s0 = new_sse \<lparr>by_text = [], by_end = e\<rparr>"
  have s0: "collects [] (ss_pending s0)" "ss_flush s0 = []" by (simp_all add: s0_def new_sse_def collects_def)
  have "sse_Recv (sl_get sl (world (ag_st a)) ! i) = sse_loop (s0\<lparr>ss_text := pieces_text ps @ event_text (finish_json reason) @ after\<rparr>)"
    by (simp add: s sse_Recv_def pop_flush_def new_sse_def s0_def answer_text_def after_def)
  from pieces_stage [OF emit ps i this s0, of m u final] obtain a1 s1 where
    1: "streamLoop c ?S m u final a = streamLoop c ?S ?m1 u ?f1 a1" and i1: "i < length (sl_get sl (world (ag_st a1)))"
    and r1: "sse_Recv (sl_get sl (world (ag_st a1)) ! i) = sse_loop (s1\<lparr>ss_text := event_text (finish_json reason) @ after\<rparr>)"
    and c1: "collects (fragments ps) (ss_pending s1)" and f1: "ss_flush s1 = []" by auto
  note fin = sse_loop_finish [OF c1 f1 reason, where rest = after]
  have rest: "\<exists>a'. streamLoop c ?S m2 u ?f1 a2 = Some ((m2, ?us, ?f1, None), a')"
    if i2: "i < length (sl_get sl (world (ag_st a2)))" and r: "sse_Recv (sl_get sl (world (ag_st a2)) ! i) = sse_loop (s2\<lparr>ss_text := after\<rparr>)" for m2 a2 s2
  proof -
    let ?s3 = "s2\<lparr>ss_lastUsage := Some ?us\<rparr>"
    have "sse_Recv (sl_get sl (world (ag_st a2)) ! i) = ((done_delta ?s3, None), ?s3\<lparr>ss_text := newline\<rparr>)"
      using sse_loop_done [where s = ?s3 and rest = "[]"] r by (simp add: after_def sse_loop_usage [OF int])
    from Recv_slot(1) [OF this i2] show ?thesis
      by (subst streamLoop_code) (simp add: done_delta_def take_delta_def)
  qed
  show ?thesis
  proof (cases "assembled (fragments ps)")
    case Nil
    with fin r1 have r2: "sse_Recv (sl_get sl (world (ag_st a1)) ! i) = sse_loop (s1\<lparr>ss_text := after, ss_pending := []\<rparr>)"
      by simp
    have swap: "s1\<lparr>ss_text := after, ss_pending := []\<rparr> = (s1\<lparr>ss_pending := []\<rparr>)\<lparr>ss_text := after\<rparr>" by (cases s1) simp
    from rest [OF i1 r2 [unfolded swap], of ?m1] 1 Nil show ?thesis by simp
  next
    case (Cons tc tcs)
    let ?s2 = "s1\<lparr>ss_text := newline @ after, ss_pending := []\<rparr>"
    from Cons fin r1 have "sse_Recv (sl_get sl (world (ag_st a1)) ! i) = ((call_delta tc, None), ?s2\<lparr>ss_flush := tcs\<rparr>)" by simp
    then obtain a2 where 2: "streamLoop c ?S ?m1 u ?f1 a1 = streamLoop c ?S (?m1\<lparr>m_ToolCalls := m_ToolCalls m @ [tc]\<rparr>) u ?f1 a2"
      "i < length (sl_get sl (world (ag_st a2)))" "sl_get sl (world (ag_st a2)) ! i = ?s2\<lparr>ss_flush := tcs\<rparr>"
      using streamLoop_delta [OF emit i1, of "call_delta tc" "?s2\<lparr>ss_flush := tcs\<rparr>" ?m1 u ?f1]
      by (auto simp: call_delta_def take_delta_def)
    from flush_stage [OF emit 2(2,3), of "?m1\<lparr>m_ToolCalls := m_ToolCalls m @ [tc]\<rparr>" u ?f1] obtain a3 where
      3: "streamLoop c ?S ?m1 u ?f1 a1 = streamLoop c ?S (?m1\<lparr>m_ToolCalls := m_ToolCalls m @ tc # tcs\<rparr>) u ?f1 a3"
      "i < length (sl_get sl (world (ag_st a3)))" "sl_get sl (world (ag_st a3)) ! i = ?s2\<lparr>ss_flush := []\<rparr>"
      using 2(1) by auto
    have "sse_Recv (sl_get sl (world (ag_st a3)) ! i) = sse_loop ((s1\<lparr>ss_pending := [], ss_flush := []\<rparr>)\<lparr>ss_text := after\<rparr>)"
      by (simp add: 3(3) sse_Recv_def pop_flush_def)
    from rest [OF 3(2) this, of "?m1\<lparr>m_ToolCalls := m_ToolCalls m @ tc # tcs\<rparr>"] 1 3(1) Cons show ?thesis by simp
  qed
qed

text \<open>A connection that breaks in the middle looks like the end of the answer.\<close>

lemma broken_stage:
  assumes emit: "\<And>e w. sl_get sl (cf_Emit c e w) = sl_get sl w" and ps: "list_all fine_piece ps"
    and i: "i < length (sl_get sl (world (ag_st a)))"
    and s: "sl_get sl (world (ag_st a)) ! i = new_sse \<lparr>by_text = pieces_text ps, by_end = e\<rparr>"
  shows "\<exists>a'. streamLoop c (slot_stream sl i) m u final a =
    Some ((m\<lparr>m_Content := m_Content m @ texts ps\<rparr>, u, final @ texts ps, None), a')"
proof -
  define s0 where "s0 = new_sse \<lparr>by_text = [], by_end = e\<rparr>"
  have s0: "collects [] (ss_pending s0)" "ss_flush s0 = []" by (simp_all add: s0_def new_sse_def collects_def)
  have "sse_Recv (sl_get sl (world (ag_st a)) ! i) = sse_loop (s0\<lparr>ss_text := pieces_text ps @ []\<rparr>)"
    by (simp add: s sse_Recv_def pop_flush_def new_sse_def s0_def)
  from pieces_stage [OF emit ps i this s0, of m u final] obtain a1 s1 where
    1: "streamLoop c (slot_stream sl i) m u final a =
      streamLoop c (slot_stream sl i) (m\<lparr>m_Content := m_Content m @ texts ps\<rparr>) u (final @ texts ps) a1"
    "i < length (sl_get sl (world (ag_st a1)))" "sse_Recv (sl_get sl (world (ag_st a1)) ! i) = sse_loop (s1\<lparr>ss_text := []\<rparr>)" by auto
  have "sse_loop (s1\<lparr>ss_text := []\<rparr>) = ((done_delta s1, Some (ss_end s1)), s1\<lparr>ss_text := []\<rparr>)"
    by (subst sse_loop.simps) (simp add: read_line_def done_delta_def)
  with 1(3) have "sse_Recv (sl_get sl (world (ag_st a1)) ! i) = ((done_delta s1, Some (ss_end s1)), s1\<lparr>ss_text := []\<rparr>)" by simp
  from Recv_slot(1) [OF this 1(2)] show ?thesis
    unfolding 1(1) by (subst streamLoop_code) (simp add: done_delta_def)
qed

text \<open>A new stream is the last of the table.\<close>

lemma opened:
  assumes "Portkey_Stream sl g p req w = (Inr st, w')"
  obtains i b where "st = slot_stream sl i" "i < length (sl_get sl w')" "sl_get sl w' ! i = new_sse b"
  using assms by (auto simp: Portkey_Stream_def get_set nth_append split: sum.splits prod.splits)

end

section \<open>The program's table of streams\<close>

text \<open>The streams are part of what the host holds beside the store.\<close>

record 'u Net =
  nt_streams :: "sseStream list"
  nt_rest :: 'u

definition host_slot :: "'u Net Host slot" where
  "host_slot =
     \<lparr>sl_get = (\<lambda>h. nt_streams (hs_rest h)), sl_set = (\<lambda>ss h. h\<lparr>hs_rest := (hs_rest h)\<lparr>nt_streams := ss\<rparr>\<rparr>)\<rparr>"

interpretation host: stream_slot host_slot
  by unfold_locales (simp add: host_slot_def)

lemma host_slot_get: "sl_get host_slot h = nt_streams (hs_rest h)"
  by (simp add: host_slot_def)

lemma portkey_streams_end:
  assumes "cf_Provider c = portkey_provider host_slot g p"
    and "\<forall>e h. nt_streams (hs_rest (cf_Emit c e h)) = nt_streams (hs_rest h)"
    and "p_Stream (cf_Provider c) req w = (Inr st, w1)"
  shows "ends c st w1"
proof -
  from assms(1,3) have "Portkey_Stream host_slot g p req w = (Inr st, w1)" by (simp add: portkey_provider_def)
  then obtain i b where "st = slot_stream host_slot i" "i < length (sl_get host_slot w1)" by (rule host.opened)
  with host.slot_stream_ends [of c i w1] assms(2) show ?thesis by (simp add: host_slot_get)
qed

section \<open>Properties\<close>

text \<open>C23: Every turn over the gateway returns: whatever the gateway answers, however its streams are cut or
  garbled, with the program's own provider no inference hangs, and the turn ends with an answer or an
  error.\<close>

theorem gateway_turns_return:
  assumes "cf_Provider c = portkey_provider host_slot g p"
    and "\<forall>e h. nt_streams (hs_rest (cf_Emit c e h)) = nt_streams (hs_rest h)"
  shows "\<exists>out err a'. Run c userMsg a = Some ((out, err), a')"
proof -
  have "steps c userMsg (nat (ag_maxSteps a)) False [] (assemble c userMsg a) \<noteq> None"
    by (rule steps_return) (rule portkey_streams_end [OF assms])
  then show ?thesis by (auto simp: runLoop_def)
qed

text \<open>C12: The agent acts on what the gateway streamed: from the text of a well-formed answer (pieces of text and
  fragments of tool calls in any interleaving, then the reason, the usage and the end) an inference
  makes the one assistant message with the whole text and, in the order of their indexes, the tool
  calls put together from their fragments; it reports the usage of the answer and no error.\<close>

theorem streamed_answer_is_reassembled:
  assumes "cf_Provider c = portkey_provider host_slot g p"
    and "\<forall>e h. nt_streams (hs_rest (cf_Emit c e h)) = nt_streams (hs_rest h)"
    and "newRequest g p req True = Inr http" and "status < 300"
    and "gw_Do g (http\<lparr>hp_Headers := hp_Headers http @ [(''Accept'', ''text/event-stream'')]\<rparr>) (world (ag_st a)) =
      (Inr (status, \<lparr>by_text = answer_text ps reason model tin tout, by_end = e\<rparr>), w1)"
    and "list_all fine_piece ps" and "in_int64 tin" and "in_int64 tout"
    and "reason \<noteq> ''tool_calls'' \<longrightarrow> fragments ps = []"
  shows "\<exists>a'. streamTurn c req final a =
    Some ((\<lparr>m_Role = RoleAssistant, m_Content = texts ps, m_ToolCalls = assembled (fragments ps), m_ToolCallID = [], m_Name = []\<rparr>,
           \<lparr>u_InputTokens = tin, u_OutputTokens = tout, u_CostCents = 0, u_Model = model\<rparr>, final @ texts ps, None), a')"
proof -
  let ?i = "length (sl_get host_slot w1)" and ?b = "\<lparr>by_text = answer_text ps reason model tin tout, by_end = e\<rparr>"
  let ?w2 = "sl_set host_slot (sl_get host_slot w1 @ [new_sse ?b]) w1"
  have st: "p_Stream (cf_Provider c) req (world (ag_st a)) = (Inr (slot_stream host_slot ?i), ?w2)"
    using assms(3-5) by (simp add: assms(1) portkey_provider_def Portkey_Stream_def send_request_def)
  define a1 where "a1 = (on_world (\<lambda>_. ?w2) a)\<lparr>ag_requests := ag_requests a @ [req]\<rparr>"
  have w: "sl_get host_slot (world (ag_st a1)) = sl_get host_slot w1 @ [new_sse ?b]"
    by (simp add: a1_def on_world_def host.get_set)
  have "sl_get host_slot (cf_Emit c ev h) = sl_get host_slot h" for ev h using assms(2) by (simp add: host_slot_get)
  from host.answer_stage [OF this assms(6) _ _ assms(9,7,8), of ?i a1 model e "msg RoleAssistant []" zero_Usage final] w
  show ?thesis by (auto simp: streamTurn_def st msg_def simp flip: a1_def)
qed

section \<open>An answer to try it on\<close>

text \<open>Text, then two tool calls whose fragments arrive out of order and interleaved.\<close>

definition demo_pieces :: "piece list" where
  "demo_pieces =
     [Text ''Looking'',
      Calls [\<lparr>fg_Index = 1, fg_ID = ''c2'', fg_Name = ''kubectl_logs'', fg_Arguments = ''{''\<rparr>,
             \<lparr>fg_Index = 0, fg_ID = ''c1'', fg_Name = ''kubectl_get'', fg_Arguments = ''{''\<rparr>],
      Text ''...'',
      Calls [\<lparr>fg_Index = 0, fg_ID = [], fg_Name = [], fg_Arguments = '' }''\<rparr>,
             \<lparr>fg_Index = 1, fg_ID = [], fg_Name = [], fg_Arguments = ''}''\<rparr>]]"

lemma demo_assembled:
  "texts demo_pieces = ''Looking...''"
  "assembled (fragments demo_pieces) =
     [\<lparr>tc_ID = ''c1'', tc_Name = ''kubectl_get'', tc_Args = ''{ }''\<rparr>, \<lparr>tc_ID = ''c2'', tc_Name = ''kubectl_logs'', tc_Args = ''{}''\<rparr>]"
  by code_simp+

definition demo_body :: body where
  "demo_body = \<lparr>by_text = answer_text demo_pieces ''tool_calls'' ''gpt-5'' 20 10, by_end = ErrNew ''EOF''\<rparr>"

definition net_gateway :: "unit Net Host Gateway" where
  "net_gateway = \<lparr>gw_Request = (\<lambda>url. None), gw_Do = (\<lambda>http w. (Inr (200, demo_body), w))\<rparr>"

definition net_config :: "unit Net Host Config" where
  "net_config =
     \<lparr>cf_Provider = portkey_provider host_slot net_gateway demo_portkey, cf_Router = demo_router,
      cf_Registry = NewRegistry None None None None, cf_Clusters = (\<lambda>_. demo_clusters), cf_Api = silent_api,
      cf_Session = demo_session ''propose'', cf_MaxSteps = 0, cf_BudgetCents = 0, cf_Persist = None, cf_RecordUsage = None,
      cf_Memory = None, cf_OnTurn = None, cf_Emit = (\<lambda>ev w. w), cf_Clock = (\<lambda>_. 0), cf_Done = (\<lambda>_. None)\<rparr>"

definition net_start :: "unit Net Host st" where
  "net_start =
     \<lparr>world = \<lparr>hs_db = empty_DB, hs_env = (\<lambda>n. at_time [] 0), hs_calls = 0, hs_gauges = (\<lambda>_. None), hs_log = [],
        hs_rest = \<lparr>nt_streams = [], nt_rest = ()\<rparr>\<rparr>, trace = []\<rparr>"

lemma net_config_simps:
  "cf_Provider net_config = portkey_provider host_slot net_gateway demo_portkey"
  "\<forall>e h. nt_streams (hs_rest (cf_Emit net_config e h)) = nt_streams (hs_rest h)"
  by (simp_all add: net_config_def)

theorem gateway_turns_return_witness:
  "\<exists>out err a'. Run net_config ''why?'' (New net_config net_start) = Some ((out, err), a')"
  by (rule gateway_turns_return) (rule net_config_simps)+

theorem streamed_answer_is_reassembled_witness:
  "\<exists>a'. streamTurn net_config demo_request [] (New net_config net_start) =
    Some ((\<lparr>m_Role = RoleAssistant, m_Content = ''Looking...'',
            m_ToolCalls = [\<lparr>tc_ID = ''c1'', tc_Name = ''kubectl_get'', tc_Args = ''{ }''\<rparr>,
                           \<lparr>tc_ID = ''c2'', tc_Name = ''kubectl_logs'', tc_Args = ''{}''\<rparr>],
            m_ToolCallID = [], m_Name = []\<rparr>,
           \<lparr>u_InputTokens = 20, u_OutputTokens = 10, u_CostCents = 0, u_Model = ''gpt-5''\<rparr>, ''Looking...'', None), a')"
proof -
  obtain http where h: "newRequest net_gateway demo_portkey demo_request True = Inr http"
    by (simp add: newRequest_def net_gateway_def Let_def)
  have g: "gw_Do net_gateway r w = (Inr (200, \<lparr>by_text = answer_text demo_pieces ''tool_calls'' ''gpt-5'' 20 10, by_end = ErrNew ''EOF''\<rparr>), w)" for r w
    by (simp add: net_gateway_def demo_body_def)
  have "list_all fine_piece demo_pieces" by (simp add: demo_pieces_def fine_piece_def in_int64_def)
  from streamed_answer_is_reassembled [OF net_config_simps h _ g this, where final = "[]" and a = "New net_config net_start"]
  show ?thesis by (simp add: demo_assembled in_int64_def)
qed

end
