(* ===== verification/Postgres.thy ===== *)
theory Postgres
  imports StoreInv Migrate
begin

text \<open>
  The Postgres store (internal/store/postgres.go), over the same tables as \<open>Store\<close>. What differs from
  SQLite: rows have no insertion order, so a query without a complete ORDER BY gives its rows in any
  order (\<open>pg_order\<close>, a parameter); an \<open>INTEGER\<close> column holds 32 bits; a failed statement aborts its
  transaction; and an id drawn from a sequence is not given back by a rollback. \<open>now()\<close> counts
  microseconds.
\<close>

section \<open>The server\<close>

record pg_order =
  po_users :: "UserRow list \<Rightarrow> UserRow list"
  po_sessions :: "SessionRow list \<Rightarrow> SessionRow list"
  po_messages :: "MessageRow list \<Rightarrow> MessageRow list"
  po_memories :: "MemoryRow list \<Rightarrow> MemoryRow list"

definition permutes :: "('a list \<Rightarrow> 'a list) \<Rightarrow> bool" where
  "permutes f \<longleftrightarrow> (\<forall>xs. mset (f xs) = mset xs)"

definition any_order :: "pg_order \<Rightarrow> bool" where
  "any_order ord \<longleftrightarrow>
     permutes (po_users ord) \<and> permutes (po_sessions ord) \<and> permutes (po_messages ord) \<and> permutes (po_memories ord)"

definition fits_integer :: "int \<Rightarrow> bool" where
  "fits_integer i \<longleftrightarrow> - (2 ^ 31) \<le> i \<and> i < 2 ^ 31"

definition range_error :: go_error where
  "range_error = ErrNew ''value is out of range for type integer''"

definition aborted_error :: go_error where
  "aborted_error = ErrNew ''current transaction is aborted, commands ignored until end of transaction block''"

section \<open>Migrations\<close>

text \<open>A line that is blank or a comment is dropped before the text is split at the semicolons.\<close>

definition sql_line :: "string \<Rightarrow> bool" where
  "sql_line l = (let t = trim_space l in t \<noteq> [] \<and> \<not> has_prefix t ''--'')"

definition splitSQL :: "string \<Rightarrow> string list" where
  "splitSQL s =
     (let clean = concat (map (\<lambda>l. l @ newline) (filter sql_line (split_on (CHR 0x0A) s)))
      in filter (\<lambda>raw. trim_space raw \<noteq> []) (split_on (CHR '';'') clean))"

fun exec_each :: "(string \<Rightarrow> 's \<Rightarrow> go_error option \<times> 's) \<Rightarrow> string list \<Rightarrow> 's \<Rightarrow> go_error option \<times> 's" where
  "exec_each exec [] sc = (None, sc)"
| "exec_each exec (q # qs) sc =
     (case exec q sc of (Some e, sc1) \<Rightarrow> (Some e, sc1) | (None, sc1) \<Rightarrow> exec_each exec qs sc1)"

fun pg_apply_all ::
  "(string \<Rightarrow> 's \<Rightarrow> go_error option \<times> 's) \<Rightarrow> (statement \<Rightarrow> go_error option) \<Rightarrow> files \<Rightarrow> string list \<Rightarrow> 's Schema \<Rightarrow>
   go_error option \<times> 's Schema" where
  "pg_apply_all exec fault fs [] s = (None, s)"
| "pg_apply_all exec fault fs (n # ns) s =
     (case fault (Count n) of
        Some e \<Rightarrow> (Some e, s)
      | None \<Rightarrow>
          if n \<in> set (applied s) then pg_apply_all exec fault fs ns s
          else
            (case fault (ReadFile n) of
               Some e \<Rightarrow> (Some e, s)
             | None \<Rightarrow>
                 (case exec_each exec (splitSQL (body_of fs n)) (schema s) of
                    (Some e, sc) \<Rightarrow> (Some (errorf_prefix (''apply migration '' @ n) e), s\<lparr>schema := sc\<rparr>)
                  | (None, sc) \<Rightarrow>
                      (case fault (Insert n) of
                         Some e \<Rightarrow> (Some e, s\<lparr>schema := sc\<rparr>)
                       | None \<Rightarrow> pg_apply_all exec fault fs ns (s\<lparr>schema := sc, applied := applied s @ [n]\<rparr>)))))"

definition pg_migrate ::
  "(string \<Rightarrow> 's \<Rightarrow> go_error option \<times> 's) \<Rightarrow> (statement \<Rightarrow> go_error option) \<Rightarrow> files \<Rightarrow> 's Schema \<Rightarrow>
   go_error option \<times> 's Schema" where
  "pg_migrate exec fault fs s =
     (case fault CreateTable of
        Some e \<Rightarrow> (Some (errorf_prefix ''create schema_migrations'' e), s)
      | None \<Rightarrow>
          (case fault ReadDir of
             Some e \<Rightarrow> (Some e, s)
           | None \<Rightarrow> pg_apply_all exec fault fs (sql_names fs) s))"

text \<open>The runner is that of SQLite for scripts that run statement by statement.\<close>

lemma pg_apply_all_eq: "pg_apply_all exec fault fs ns s = apply_all (\<lambda>b. exec_each exec (splitSQL b)) fault fs ns s"
  by (induction ns arbitrary: s) (auto simp: Let_def split: option.split prod.split)

lemma pg_migrate_eq: "pg_migrate exec fault fs s = migrate (\<lambda>b. exec_each exec (splitSQL b)) fault fs s"
  by (simp add: pg_migrate_def migrate_def pg_apply_all_eq split: option.split)

lemma splitSQL_statements:
  assumes "q \<in> set (splitSQL s)"
  shows "CHR '';'' \<notin> set q \<and> trim_space q \<noteq> []"
  using assms split_on_no_sep by (auto simp: splitSQL_def Let_def)

text \<open>Opening: connecting (the driver and the ping), then the migrations.\<close>

definition OpenPostgres ::
  "(string \<Rightarrow> go_error option) \<Rightarrow> (string \<Rightarrow> go_error option) \<Rightarrow> ('s Schema \<Rightarrow> go_error option \<times> 's Schema) \<Rightarrow>
   string \<Rightarrow> 's Schema \<Rightarrow> go_error option \<times> 's Schema" where
  "OpenPostgres driver ping mig dsn s =
     (case driver dsn of
        Some e \<Rightarrow> (Some e, s)
      | None \<Rightarrow> (case ping dsn of Some e \<Rightarrow> (Some (errorf_prefix ''connect postgres'' e), s) | None \<Rightarrow> mig s))"

section \<open>Users, clusters and sessions\<close>

definition pg_EnsureUser :: "pg_order \<Rightarrow> env \<Rightarrow> string \<Rightarrow> string \<Rightarrow> string \<Rightarrow> DB \<Rightarrow> (go_error + string) \<times> DB" where
  "pg_EnsureUser ord e subject email role db =
     (case env_fault e 0 of
        Some err \<Rightarrow> (Inl err, db)
      | None \<Rightarrow>
          (case find (\<lambda>u. ur_subject u = subject) (po_users ord (db_users db)) of
             Some u \<Rightarrow> (Inr (ur_id u), db)
           | None \<Rightarrow>
               (let role' = (if role = [] then ''reader'' else role);
                    row = \<lparr>ur_id = env_uuid e, ur_subject = subject, ur_email = nullStr email, ur_role = role'\<rparr>
                in case env_fault e 1 of
                     Some err \<Rightarrow> (Inl err, db)
                   | None \<Rightarrow>
                       if env_uuid e \<in> set (map ur_id (db_users db)) then (Inl constraint_error, db)
                       else (Inr (env_uuid e), db\<lparr>db_users := db_users db @ [row]\<rparr>))))"

definition pg_UpsertCluster :: "env \<Rightarrow> string \<Rightarrow> string \<Rightarrow> string \<Rightarrow> DB \<Rightarrow> (go_error + string) \<times> DB" where
  "pg_UpsertCluster e name kubeContext provider db =
     (case env_fault e 0 of
        Some err \<Rightarrow> (Inl err, db)
      | None \<Rightarrow>
          (case find (\<lambda>c. cr_name c = name) (db_clusters db) of
             Some c \<Rightarrow> (Inr (cr_id c), db)
           | None \<Rightarrow>
               (let row = \<lparr>cr_id = env_uuid e, cr_name = name, cr_context = nullStr kubeContext,
                           cr_provider = nullStr provider\<rparr>
                in case env_fault e 1 of
                     Some err \<Rightarrow> (Inl err, db)
                   | None \<Rightarrow>
                       if env_uuid e \<in> set (map cr_id (db_clusters db)) then (Inl constraint_error, db)
                       else (Inr (env_uuid e), db\<lparr>db_clusters := db_clusters db @ [row]\<rparr>))))"

interpretation pg_clusters: get_or_create "\<lambda>(e, ctx, prov) name. pg_UpsertCluster e name ctx prov" cluster_id
  by unfold_locales
    (auto simp: pg_UpsertCluster_def cluster_id_def Let_def find_append fun_eq_iff
      split: option.splits if_splits prod.splits)

definition pg_CreateSession ::
  "env \<Rightarrow> string \<Rightarrow> string \<Rightarrow> string \<Rightarrow> string list \<Rightarrow> int \<Rightarrow> DB \<Rightarrow> (go_error + string) \<times> DB" where
  "pg_CreateSession e userID clusterID mode enabledTools budget db =
     (case env_fault e 0 of
        Some err \<Rightarrow> (Inl err, db)
      | None \<Rightarrow>
          if \<not> fits_integer budget then (Inl range_error, db)
          else if env_uuid e \<in> set (map sr_id (db_sessions db))
             \<or> \<not> fk_ok (nullStr userID) (map ur_id (db_users db)) \<or> \<not> fk_ok (nullStr clusterID) (map cr_id (db_clusters db))
          then (Inl constraint_error, db)
          else (Inr (env_uuid e), db\<lparr>db_sessions := db_sessions db @
            [new_session_row e userID clusterID mode enabledTools budget]\<rparr>))"

definition pg_GetSession :: "env \<Rightarrow> string \<Rightarrow> DB \<Rightarrow> go_error + SessionInfo" where
  "pg_GetSession e i db =
     (case env_fault e 0 of
        Some err \<Rightarrow> Inl err
      | None \<Rightarrow>
          (case find (\<lambda>r. sr_id r = i) (db_sessions db) of
             None \<Rightarrow> Inl ErrSessionNotFound
           | Some r \<Rightarrow> Inr (session_info db r)))"

text \<open>\<open>ORDER BY created_at DESC LIMIT n\<close>: sessions of the same instant in any order.\<close>

definition pg_ListSessions :: "pg_order \<Rightarrow> env \<Rightarrow> int \<Rightarrow> DB \<Rightarrow> go_error + SessionSummary list" where
  "pg_ListSessions ord e limit db =
     (let n = (if limit \<le> 0 then 20 else nat limit)
      in case env_fault e 0 of
           Some err \<Rightarrow> Inl err
         | None \<Rightarrow> Inr (map (session_summary db)
                     (take n (sort_key (\<lambda>r. - sr_created r) (po_sessions ord (db_sessions db))))))"

section \<open>Messages and memories\<close>

definition pg_AppendMessage :: "Encryptor option \<Rightarrow> env \<Rightarrow> string \<Rightarrow> Message \<Rightarrow> DB \<Rightarrow> go_error option \<times> DB" where
  "pg_AppendMessage cph e sessionID m db =
     (case store_enc cph (env_rand e 0) (m_Content m) of
        Inl err \<Rightarrow> (Some err, db)
      | Inr content \<Rightarrow>
          (case env_fault e 0 of
             Some err \<Rightarrow> (Some err, db)
           | None \<Rightarrow>
               if env_uuid e \<in> set (map mr_id (db_messages db)) \<or> sessionID \<notin> set (map sr_id (db_sessions db))
               then (Some constraint_error, db)
               else (None, db\<lparr>db_messages := db_messages db @
                      [\<lparr>mr_id = env_uuid e, mr_session = sessionID, mr_role = m_Role m, mr_content = content,
                        mr_tool = message_payload m, mr_created = env_now e\<rparr>]\<rparr>)))"

text \<open>\<open>ORDER BY created_at\<close>: messages of the same instant in any order.\<close>

definition pg_LoadMessages :: "pg_order \<Rightarrow> Encryptor option \<Rightarrow> env \<Rightarrow> string \<Rightarrow> DB \<Rightarrow> go_error + Message list" where
  "pg_LoadMessages ord cph e sessionID db =
     (case env_fault e 0 of
        Some err \<Rightarrow> Inl err
      | None \<Rightarrow> rows_messages cph
          (sort_key mr_created (po_messages ord (filter (\<lambda>r. mr_session r = sessionID) (db_messages db)))))"

definition pg_SaveMemory :: "Encryptor option \<Rightarrow> env \<Rightarrow> Memory \<Rightarrow> DB \<Rightarrow> go_error option \<times> DB" where
  "pg_SaveMemory cph e m db =
     (let i = (if me_ID m = [] then env_uuid e else me_ID m)
      in case store_enc cph (env_rand e 0) (me_Text m) of
           Inl err \<Rightarrow> (Some err, db)
         | Inr text' \<Rightarrow>
             (case env_fault e 0 of
                Some err \<Rightarrow> (Some err, db)
              | None \<Rightarrow>
                  if i \<in> set (map yr_id (db_memories db)) \<or>
                     \<not> fk_ok (nullStr (me_SessionID m)) (map sr_id (db_sessions db))
                  then (Some constraint_error, db)
                  else (None, db\<lparr>db_memories := db_memories db @
                         [\<lparr>yr_id = i, yr_session = nullStr (me_SessionID m), yr_kind = me_Kind m, yr_text = text',
                           yr_embedding = encodeVector (me_Embedding m), yr_created = env_now e\<rparr>]\<rparr>)))"

definition pg_RecallMemories ::
  "(32 word \<Rightarrow> real) \<Rightarrow> pg_order \<Rightarrow> Encryptor option \<Rightarrow> env \<Rightarrow> string \<Rightarrow> embedding \<Rightarrow> int \<Rightarrow> DB \<Rightarrow> go_error + Memory list" where
  "pg_RecallMemories val ord cph e sessionID query k db =
     (case env_fault e 0 of
        Some err \<Rightarrow> Inl err
      | None \<Rightarrow>
          (case rows_memories cph sessionID
             (sort_key (\<lambda>r. - yr_created r)
               (po_memories ord (filter (\<lambda>r. sessionID = [] \<or> yr_session r = Some sessionID) (db_memories db)))) of
             Inl err \<Rightarrow> Inl err
           | Inr ms \<Rightarrow> Inr (top_k k (rank_memories val query ms))))"

section \<open>Audit, findings and usage\<close>

text \<open>
  The transaction of \<open>Record\<close>. A failing lookup of the cluster is ignored by the code, but the server
  then refuses the statements that follow.
\<close>

definition pg_insert_exec :: "bool \<Rightarrow> env \<Rightarrow> ToolExecRow \<Rightarrow> DB \<Rightarrow> go_error + DB" where
  "pg_insert_exec aborted en row db =
     (if aborted then Inl aborted_error
      else
        (case env_fault en 2 of
           Some err \<Rightarrow> Inl err
         | None \<Rightarrow>
             if \<not> fits_integer (xr_duration_ms row) then Inl range_error
             else if xr_id row \<in> set (map xr_id (db_execs db)) \<or> xr_session row = []
                \<or> xr_session row \<notin> set (map sr_id (db_sessions db)) \<or> \<not> fk_ok (xr_cluster row) (map cr_id (db_clusters db))
             then Inl constraint_error
             else Inr (db\<lparr>db_execs := db_execs db @ [row]\<rparr>)))"

text \<open>The chained row after a given head, and the head as the transaction reads it.\<close>

definition append_after ::
  "(string \<Rightarrow> string) \<Rightarrow> Encryptor option \<Rightarrow> env \<Rightarrow> AuditEntry \<Rightarrow> string \<Rightarrow> DB \<Rightarrow> go_error + DB" where
  "append_after H cph en e prev db =
     (let payload = entry_payload e; cur = H (prev @ payload)
      in case store_enc cph (env_rand en 2) payload of
           Inl err \<Rightarrow> Inl err
         | Inr storedPayload \<Rightarrow>
             (case env_fault en 4 of
                Some err \<Rightarrow> Inl err
              | None \<Rightarrow>
                  Inr (insert_audit
                        \<lparr>al_id = 0, al_actor = entry_actor e, al_action = ''tool:'' @ ae_Tool e,
                         al_payload = storedPayload, al_hash_prev = prev, al_hash_curr = cur\<rparr> db)))"

definition pg_Record ::
  "(string \<Rightarrow> string) \<Rightarrow> Encryptor option \<Rightarrow> env \<Rightarrow> AuditEntry \<Rightarrow> DB \<Rightarrow> go_error option \<times> DB" where
  "pg_Record H cph en e db =
     (case env_fault en 0 of
        Some err \<Rightarrow> (Some err, db)
      | None \<Rightarrow>
          (let clusterID = resolve_cluster en e db; aborted = (ae_Cluster e \<noteq> [] \<and> env_fault en 1 \<noteq> None)
           in case store_enc cph (env_rand en 0) (entry_args e) of
                Inl err \<Rightarrow> (Some err, db)
              | Inr encArgs \<Rightarrow>
                  (case enc_opt cph (env_rand en 1) (ae_Diff e) of
                     Inl err \<Rightarrow> (Some err, db)
                   | Inr encDiff \<Rightarrow>
                       (case pg_insert_exec aborted en (exec_row en e encArgs encDiff clusterID) db of
                          Inl err \<Rightarrow> (Some (errorf_prefix ''insert tool_execution'' err), db)
                        | Inr db1 \<Rightarrow>
                            (case env_fault en 3 of
                               Some err \<Rightarrow> (Some err, db)
                             | None \<Rightarrow>
                                 (case append_after H cph en e (chain_head db1) db1 of
                                    Inl err \<Rightarrow> (Some err, db)
                                  | Inr db2 \<Rightarrow>
                                      (case env_fault en 5 of
                                         Some err \<Rightarrow> (Some err, db\<lparr>db_audit_seq := db_audit_seq db2\<rparr>)
                                       | None \<Rightarrow> (None, db2))))))))"

definition pg_VerifyAuditChain :: "(string \<Rightarrow> string) \<Rightarrow> Encryptor option \<Rightarrow> env \<Rightarrow> DB \<Rightarrow> go_error + nat" where
  "pg_VerifyAuditChain H cph en db =
     (case env_fault en 0 of
        Some err \<Rightarrow> Inl err
      | None \<Rightarrow> verify_rows H (store_dec cph) [] (sort_key al_id (db_audit db)))"

definition pg_SaveFinding :: "env \<Rightarrow> string \<Rightarrow> Finding \<Rightarrow> DB \<Rightarrow> go_error option \<times> DB" where
  "pg_SaveFinding e clusterID f db =
     (case env_fault e 0 of
        Some err \<Rightarrow> (Some err, db)
      | None \<Rightarrow>
          if DedupKey f \<in> set (map fr_dedup (db_findings db))
          then (None, db\<lparr>db_findings :=
                 map (\<lambda>r. if fr_dedup r = DedupKey f then refresh_finding e f r else r) (db_findings db)\<rparr>)
          else if env_uuid e \<in> set (map fr_id (db_findings db)) \<or>
                  \<not> fk_ok (nullStr clusterID) (map cr_id (db_clusters db))
          then (Some constraint_error, db)
          else (None, db\<lparr>db_findings := db_findings db @ [new_finding e clusterID f]\<rparr>))"

definition pg_OpenFindingCount :: "env \<Rightarrow> DB \<Rightarrow> go_error + nat" where
  "pg_OpenFindingCount e db =
     (case env_fault e 0 of
        Some err \<Rightarrow> Inl err
      | None \<Rightarrow> Inr (length (filter (\<lambda>r. fr_status r \<noteq> ''resolved'') (db_findings db))))"

definition pg_RecordUsage :: "env \<Rightarrow> string \<Rightarrow> string \<Rightarrow> Usage \<Rightarrow> string \<Rightarrow> DB \<Rightarrow> go_error option \<times> DB" where
  "pg_RecordUsage e sessionID provider u routeReason db =
     (case env_fault e 0 of
        Some err \<Rightarrow> (Some err, db)
      | None \<Rightarrow>
          if \<not> fits_integer (u_InputTokens u) \<or> \<not> fits_integer (u_OutputTokens u) then (Some range_error, db)
          else if env_uuid e \<in> set (map gr_id (db_usage db)) \<or> \<not> fk_ok (nullStr sessionID) (map sr_id (db_sessions db))
          then (Some constraint_error, db)
          else (None, db\<lparr>db_usage := db_usage db @
            [\<lparr>gr_id = env_uuid e, gr_session = nullStr sessionID, gr_provider = provider, gr_model = u_Model u,
              gr_in = u_InputTokens u, gr_out = u_OutputTokens u, gr_cost = u_CostCents u,
              gr_reason = nullStr routeReason\<rparr>]\<rparr>))"

end
