(* ===== verification/Backends.thy ===== *)
theory Backends
  imports Postgres
begin

text \<open>
  The two backends behind the store interface (internal/store/interface.go): one datatype of calls and
  answers, one step function per backend, and when they agree. Then the audit log of a shared
  Postgres database, whose recorders are separate processes.
\<close>

section \<open>Calls and answers\<close>

datatype call =
    EnsureUserCall string string string
  | UpsertClusterCall string string string
  | CreateSessionCall string string string "string list" int
  | GetSessionCall string
  | ListSessionsCall int
  | AppendMessageCall string Message
  | LoadMessagesCall string
  | SaveMemoryCall Memory
  | RecallMemoriesCall string embedding int
  | RecordCall AuditEntry
  | VerifyAuditChainCall
  | SaveFindingCall string Finding
  | OpenFindingCountCall
  | RecordUsageCall string string Usage string

datatype answer =
    IdAnswer "go_error + string"
  | ErrAnswer "go_error option"
  | SessionAnswer "go_error + SessionInfo"
  | ListAnswer "go_error + SessionSummary list"
  | MessagesAnswer "go_error + Message list"
  | MemoriesAnswer "go_error + Memory list"
  | CountAnswer "go_error + nat"

record codecs =
  co_hash :: "string \<Rightarrow> string"
  co_cipher :: "Encryptor option"
  co_float :: "32 word \<Rightarrow> real"

fun sqlite_step :: "codecs \<Rightarrow> env \<Rightarrow> call \<Rightarrow> DB \<Rightarrow> answer \<times> DB" where
  "sqlite_step co e (EnsureUserCall subject email role) db = apfst IdAnswer (EnsureUser e subject email role db)"
| "sqlite_step co e (UpsertClusterCall n ctx p) db = apfst IdAnswer (UpsertCluster e n ctx p db)"
| "sqlite_step co e (CreateSessionCall u c mode ts b) db = apfst IdAnswer (CreateSession e u c mode ts b db)"
| "sqlite_step co e (GetSessionCall i) db = (SessionAnswer (GetSession e i db), db)"
| "sqlite_step co e (ListSessionsCall n) db = (ListAnswer (ListSessions e n db), db)"
| "sqlite_step co e (AppendMessageCall sid m) db = apfst ErrAnswer (AppendMessage (co_cipher co) e sid m db)"
| "sqlite_step co e (LoadMessagesCall sid) db = (MessagesAnswer (LoadMessages (co_cipher co) e sid db), db)"
| "sqlite_step co e (SaveMemoryCall m) db = apfst ErrAnswer (SaveMemory (co_cipher co) e m db)"
| "sqlite_step co e (RecallMemoriesCall sid q k) db =
     (MemoriesAnswer (RecallMemories (co_float co) (co_cipher co) e sid q k db), db)"
| "sqlite_step co e (RecordCall a) db = apfst ErrAnswer (Record (co_hash co) (co_cipher co) e a db)"
| "sqlite_step co e VerifyAuditChainCall db = (CountAnswer (VerifyAuditChain (co_hash co) (co_cipher co) e db), db)"
| "sqlite_step co e (SaveFindingCall c f) db = apfst ErrAnswer (SaveFinding e c f db)"
| "sqlite_step co e OpenFindingCountCall db = (CountAnswer (OpenFindingCount e db), db)"
| "sqlite_step co e (RecordUsageCall sid p u reason) db = apfst ErrAnswer (RecordUsage e sid p u reason db)"

fun pg_step :: "codecs \<Rightarrow> pg_order \<Rightarrow> env \<Rightarrow> call \<Rightarrow> DB \<Rightarrow> answer \<times> DB" where
  "pg_step co ord e (EnsureUserCall subject email role) db = apfst IdAnswer (pg_EnsureUser ord e subject email role db)"
| "pg_step co ord e (UpsertClusterCall n ctx p) db = apfst IdAnswer (pg_UpsertCluster e n ctx p db)"
| "pg_step co ord e (CreateSessionCall u c mode ts b) db = apfst IdAnswer (pg_CreateSession e u c mode ts b db)"
| "pg_step co ord e (GetSessionCall i) db = (SessionAnswer (pg_GetSession e i db), db)"
| "pg_step co ord e (ListSessionsCall n) db = (ListAnswer (pg_ListSessions ord e n db), db)"
| "pg_step co ord e (AppendMessageCall sid m) db = apfst ErrAnswer (pg_AppendMessage (co_cipher co) e sid m db)"
| "pg_step co ord e (LoadMessagesCall sid) db = (MessagesAnswer (pg_LoadMessages ord (co_cipher co) e sid db), db)"
| "pg_step co ord e (SaveMemoryCall m) db = apfst ErrAnswer (pg_SaveMemory (co_cipher co) e m db)"
| "pg_step co ord e (RecallMemoriesCall sid q k) db =
     (MemoriesAnswer (pg_RecallMemories (co_float co) ord (co_cipher co) e sid q k db), db)"
| "pg_step co ord e (RecordCall a) db = apfst ErrAnswer (pg_Record (co_hash co) (co_cipher co) e a db)"
| "pg_step co ord e VerifyAuditChainCall db = (CountAnswer (pg_VerifyAuditChain (co_hash co) (co_cipher co) e db), db)"
| "pg_step co ord e (SaveFindingCall c f) db = apfst ErrAnswer (pg_SaveFinding e c f db)"
| "pg_step co ord e OpenFindingCountCall db = (CountAnswer (pg_OpenFindingCount e db), db)"
| "pg_step co ord e (RecordUsageCall sid p u reason) db = apfst ErrAnswer (pg_RecordUsage e sid p u reason db)"

text \<open>A run makes its calls in order, each with its environment and the order the server happens to use.\<close>

type_synonym timed_call = "env \<times> pg_order \<times> call"

fun sqlite_run :: "codecs \<Rightarrow> timed_call list \<Rightarrow> DB \<Rightarrow> answer list \<times> DB" where
  "sqlite_run co [] db = ([], db)"
| "sqlite_run co ((e, ord, k) # ks) db =
     (case sqlite_step co e k db of (a, db1) \<Rightarrow> apfst ((#) a) (sqlite_run co ks db1))"

fun pg_run :: "codecs \<Rightarrow> timed_call list \<Rightarrow> DB \<Rightarrow> answer list \<times> DB" where
  "pg_run co [] db = ([], db)"
| "pg_run co ((e, ord, k) # ks) db =
     (case pg_step co ord e k db of (a, db1) \<Rightarrow> apfst ((#) a) (pg_run co ks db1))"

text \<open>The calls on which they agree: the numbers fit, and the driver does not fail inside \<open>Record\<close>.\<close>

definition ordinary :: "timed_call \<Rightarrow> bool" where
  "ordinary = (\<lambda>(e, ord, k). any_order ord \<and>
     (case k of
        CreateSessionCall u c mode ts b \<Rightarrow> fits_integer b
      | RecordCall a \<Rightarrow> (\<forall>n. env_fault e n = None) \<and> (ae_Duration a < 0 \<or> fits_integer (ae_Duration a div 1000000)) \<and>
          (ae_Duration a < 0 \<longrightarrow> fits_integer (- ((- ae_Duration a) div 1000000)))
      | RecordUsageCall sid p u reason \<Rightarrow> fits_integer (u_InputTokens u) \<and> fits_integer (u_OutputTokens u)
      | _ \<Rightarrow> True))"

section \<open>Agreement\<close>

text \<open>Instants and subjects identify the rows of a table whose order is not complete.\<close>

definition ticked :: "int \<Rightarrow> DB \<Rightarrow> bool" where
  "ticked t db \<longleftrightarrow> distinct (map ur_subject (db_users db)) \<and>
     distinct (map sr_created (db_sessions db)) \<and> distinct (map mr_created (db_messages db)) \<and>
     distinct (map yr_created (db_memories db)) \<and>
     (\<forall>r \<in> set (db_sessions db). sr_created r < t) \<and> (\<forall>r \<in> set (db_messages db). mr_created r < t) \<and>
     (\<forall>r \<in> set (db_memories db). yr_created r < t)"

lemma permutes_sort:
  assumes "permutes f" and "distinct (map k xs)"
  shows "sort_key k (f xs) = sort_key k xs"
proof (rule sort_key_perm_eq)
  show m: "mset (f xs) = mset xs" using assms(1) by (simp add: permutes_def)
  show "inj_on k (set (f xs))" using assms(2) mset_eq_setD [OF m] by (simp add: distinct_map)
qed

lemma find_SomeD: "find P zs = Some y \<Longrightarrow> y \<in> set zs \<and> P y"
  by (induction zs) (auto split: if_splits)

lemma permutes_find:
  assumes "permutes f" and "distinct (map k xs)"
  shows "find (\<lambda>x. k x = c) (f xs) = find (\<lambda>x. k x = c) xs"
proof -
  have m: "mset (f xs) = mset xs" using assms(1) by (simp add: permutes_def)
  then have s: "set (f xs) = set xs" by (rule mset_eq_setD)
  show ?thesis
  proof (cases "find (\<lambda>x. k x = c) xs")
    case None
    then have "find (\<lambda>x. k x = c) (f xs) = None" using s by (simp add: find_None_iff)
    with None show ?thesis by simp
  next
    case (Some x)
    from find_SomeD [OF Some] have x: "x \<in> set xs" "k x = c" by simp_all
    have "find (\<lambda>x. k x = c) (f xs) \<noteq> None" using x s by (auto simp: find_None_iff)
    then obtain y where y: "find (\<lambda>x. k x = c) (f xs) = Some y" by blast
    from find_SomeD [OF y] s have "y \<in> set xs" "k y = c" by simp_all
    with x assms(2) have "y = x" by (auto simp: distinct_map dest: inj_onD)
    with Some y show ?thesis by simp
  qed
qed

lemma distinct_uminus: "distinct (map (\<lambda>x. - f x :: int) xs) \<longleftrightarrow> distinct (map f xs)"
  by (induction xs) auto

lemma sort_rev_perm:
  assumes "permutes f" and "distinct (map k xs)"
  shows "sort_key k (f xs) = sort_key k (rev xs)"
  using permutes_sort [OF assms] sort_key_perm_eq [of "rev xs" xs k] assms(2) by (simp add: distinct_map)

lemma Record_agrees:
  assumes "ordinary (e, ord, RecordCall a)"
  shows "pg_Record H cph e a db = Record H cph e a db"
proof -
  have f: "env_fault e n = None" for n using assms by (simp add: ordinary_def)
  have d: "fits_integer (xr_duration_ms (exec_row e a x y z))" for x y z
    using assms by (auto simp: ordinary_def exec_row_def)
  show ?thesis
    by (simp add: pg_Record_def Record_def pg_insert_exec_def insert_exec_def append_after_def append_chain_def f d Let_def
        split: sum.split)
qed

lemma step_agrees:
  assumes "ordinary (e, ord, k)" and "ticked t db"
  shows "pg_step co ord e k db = sqlite_step co e k db"
proof -
  have ord: "permutes (po_users ord)" "permutes (po_sessions ord)" "permutes (po_messages ord)" "permutes (po_memories ord)"
    using assms(1) by (simp_all add: ordinary_def any_order_def)
  show ?thesis
  proof (cases k)
    case (EnsureUserCall subject email role)
    have *: "find (\<lambda>u. ur_subject u = subject) (po_users ord (db_users db)) = find (\<lambda>u. ur_subject u = subject) (db_users db)"
      by (rule permutes_find [OF ord(1)]) (use assms(2) in \<open>simp add: ticked_def\<close>)
    show ?thesis unfolding EnsureUserCall pg_step.simps sqlite_step.simps pg_EnsureUser_def EnsureUser_def * by (rule refl)
  next
    case (CreateSessionCall u c mode ts b)
    then have "fits_integer b" using assms(1) by (simp add: ordinary_def)
    then show ?thesis
      by (simp add: CreateSessionCall pg_CreateSession_def CreateSession_def new_session_row_def Let_def split: option.split)
  next
    case (ListSessionsCall n)
    have *: "sort_key (\<lambda>r. - sr_created r) (po_sessions ord (db_sessions db)) = sort_key (\<lambda>r. - sr_created r) (rev (db_sessions db))"
      by (rule sort_rev_perm [OF ord(2)]) (use assms(2) in \<open>simp add: ticked_def distinct_uminus\<close>)
    show ?thesis unfolding ListSessionsCall pg_step.simps sqlite_step.simps pg_ListSessions_def ListSessions_def * by (rule refl)
  next
    case (LoadMessagesCall sid)
    have *: "sort_key mr_created (po_messages ord (filter (\<lambda>r. mr_session r = sid) (db_messages db))) =
        sort_key mr_created (filter (\<lambda>r. mr_session r = sid) (db_messages db))"
      by (rule permutes_sort [OF ord(3)]) (use assms(2) in \<open>auto simp: ticked_def\<close>)
    show ?thesis unfolding LoadMessagesCall pg_step.simps sqlite_step.simps pg_LoadMessages_def LoadMessages_def * by (rule refl)
  next
    case (RecallMemoriesCall sid q n)
    let ?rows = "filter (\<lambda>r. sid = [] \<or> yr_session r = Some sid) (db_memories db)"
    have *: "sort_key (\<lambda>r. - yr_created r) (po_memories ord ?rows) = sort_key (\<lambda>r. - yr_created r) ?rows"
      by (rule permutes_sort [OF ord(4)]) (use assms(2) in \<open>auto simp: ticked_def distinct_uminus\<close>)
    show ?thesis
      unfolding RecallMemoriesCall pg_step.simps sqlite_step.simps pg_RecallMemories_def RecallMemories_def memory_rows_def
      * by (rule refl)
  next
    case (RecordCall a)
    with assms(1) Record_agrees show ?thesis by simp
  next
    case (RecordUsageCall sid p u reason)
    then show ?thesis using assms(1)
      by (simp add: ordinary_def pg_RecordUsage_def RecordUsage_def split: option.split)
  qed (simp_all add: pg_UpsertCluster_def UpsertCluster_def pg_GetSession_def GetSession_def pg_AppendMessage_def
      AppendMessage_def pg_SaveMemory_def SaveMemory_def pg_VerifyAuditChain_def VerifyAuditChain_def
      pg_SaveFinding_def SaveFinding_def pg_OpenFindingCount_def OpenFindingCount_def)
qed

lemma ticked_mono: "ticked t db \<Longrightarrow> t \<le> t' \<Longrightarrow> ticked t' db"
  by (auto simp: ticked_def)

lemma Record_tables:
  "db_users (snd (Record H cph e a db)) = db_users db" "db_sessions (snd (Record H cph e a db)) = db_sessions db"
  "db_messages (snd (Record H cph e a db)) = db_messages db" "db_memories (snd (Record H cph e a db)) = db_memories db"
  by (auto simp: Record_def insert_exec_def append_chain_def insert_audit_def Let_def split: option.split sum.split)

lemma ticked_rows:
  "ticked t db \<Longrightarrow> t \<le> sr_created r \<Longrightarrow> sr_created r < t' \<Longrightarrow> ticked t' (db\<lparr>db_sessions := db_sessions db @ [r]\<rparr>)"
  "ticked t db \<Longrightarrow> t \<le> mr_created m \<Longrightarrow> mr_created m < t' \<Longrightarrow> ticked t' (db\<lparr>db_messages := db_messages db @ [m]\<rparr>)"
  "ticked t db \<Longrightarrow> t \<le> yr_created y \<Longrightarrow> yr_created y < t' \<Longrightarrow> ticked t' (db\<lparr>db_memories := db_memories db @ [y]\<rparr>)"
proof -
  have d: "distinct (map f (xs @ [x]))" if "distinct (map f xs)" "\<forall>y \<in> set xs. f y < t" "t \<le> f x" for f :: "'a \<Rightarrow> int" and xs x t
    using that by force
  show "ticked t db \<Longrightarrow> t \<le> sr_created r \<Longrightarrow> sr_created r < t' \<Longrightarrow> ticked t' (db\<lparr>db_sessions := db_sessions db @ [r]\<rparr>)"
    "ticked t db \<Longrightarrow> t \<le> mr_created m \<Longrightarrow> mr_created m < t' \<Longrightarrow> ticked t' (db\<lparr>db_messages := db_messages db @ [m]\<rparr>)"
    "ticked t db \<Longrightarrow> t \<le> yr_created y \<Longrightarrow> yr_created y < t' \<Longrightarrow> ticked t' (db\<lparr>db_memories := db_memories db @ [y]\<rparr>)"
    by (force simp: ticked_def)+
qed

lemma ticked_other:
  assumes "ticked t db" and "db_users db' = db_users db" and "db_sessions db' = db_sessions db"
    and "db_messages db' = db_messages db" and "db_memories db' = db_memories db"
  shows "ticked t db'"
  using assms by (simp add: ticked_def)

lemma step_ticked:
  assumes "ticked t db" and "t \<le> env_now e"
  shows "ticked (env_now e + 1) (snd (sqlite_step co e k db))"
proof -
  have m: "ticked (env_now e + 1) db" using ticked_mono [OF assms(1)] assms(2) by simp
  show ?thesis
  proof (cases k)
    case (EnsureUserCall subject email role)
    with m show ?thesis by (auto simp: EnsureUser_def ticked_def Let_def find_None_iff split: option.split)
  next
    case (UpsertClusterCall n ctx p)
    show ?thesis
      by (rule ticked_other [OF m]) (simp_all add: UpsertClusterCall UpsertCluster_def Let_def split: option.split)
  next
    case (CreateSessionCall u c mode ts i)
    with m ticked_rows(1) [OF assms(1)] assms(2) show ?thesis
      by (simp add: CreateSession_def Let_def split: option.split)
  next
    case (AppendMessageCall sid x)
    with m ticked_rows(2) [OF assms(1)] assms(2) show ?thesis
      by (simp add: AppendMessage_def split: option.split sum.split)
  next
    case (SaveMemoryCall x)
    with m ticked_rows(3) [OF assms(1)] assms(2) show ?thesis
      by (simp add: SaveMemory_def Let_def split: option.split sum.split)
  next
    case (RecordCall a)
    show ?thesis by (rule ticked_other [OF m]) (simp_all add: RecordCall Record_tables)
  next
    case (SaveFindingCall c f)
    show ?thesis by (rule ticked_other [OF m]) (simp_all add: SaveFindingCall SaveFinding_def split: option.split)
  next
    case (RecordUsageCall sid p u reason)
    show ?thesis by (rule ticked_other [OF m]) (simp_all add: RecordUsageCall RecordUsage_def split: option.split)
  qed (use m in simp_all)
qed

lemma run_agrees:
  assumes "list_all ordinary ks" and "sorted_wrt (<) (map (env_now \<circ> fst) ks)" and "ticked t db"
    and "\<forall>u \<in> set (map (env_now \<circ> fst) ks). t \<le> u"
  shows "pg_run co ks db = sqlite_run co ks db"
  using assms
proof (induction ks arbitrary: t db)
  case (Cons c ks)
  obtain e ord k where c: "c = (e, ord, k)" by (cases c)
  obtain a db1 where s: "sqlite_step co e k db = (a, db1)" by fastforce
  with step_agrees [of e ord k t db co] Cons.prems(1,3) c have p: "pg_step co ord e k db = (a, db1)" by simp
  have "ticked (env_now e + 1) db1" using step_ticked [OF Cons.prems(3), of e co k] Cons.prems(4) c s by simp
  moreover have "\<forall>u \<in> set (map (env_now \<circ> fst) ks). env_now e + 1 \<le> u" using Cons.prems(2) c by auto
  ultimately have "pg_run co ks db1 = sqlite_run co ks db1" using Cons.IH Cons.prems(1,2) by simp
  then show ?case by (simp add: c s p)
qed simp

section \<open>Recorders that share a database\<close>

text \<open>
  The mutex of the store orders the recorders of one process. Another process on the same database is
  only kept apart by the transactions, which (read committed, the server's default) let both read the
  same head of the chain before either appends. A state is what each process has read, and the tables.
\<close>

type_synonym recorders = "(nat \<Rightarrow> string option) \<times> DB"

inductive recorders_step ::
  "bool \<Rightarrow> (string \<Rightarrow> string) \<Rightarrow> Encryptor option \<Rightarrow> recorders \<Rightarrow> recorders \<Rightarrow> bool"
  for shared H cph where
  reads: "hold p = None \<Longrightarrow> (\<not> shared \<Longrightarrow> \<forall>q. hold q = None) \<Longrightarrow>
    recorders_step shared H cph (hold, db) (hold(p \<mapsto> chain_head db), db)"
| appends: "hold p = Some prev \<Longrightarrow> append_after H cph en e prev db = Inr db' \<Longrightarrow>
    recorders_step shared H cph (hold, db) (hold(p := None), db')"
| rolls_back: "hold p = Some prev \<Longrightarrow> recorders_step shared H cph (hold, db) (hold(p := None), db)"

definition recorded_by :: "bool \<Rightarrow> (string \<Rightarrow> string) \<Rightarrow> Encryptor option \<Rightarrow> recorders \<Rightarrow> bool" where
  "recorded_by shared H cph s \<longleftrightarrow> (recorders_step shared H cph)\<^sup>*\<^sup>* (\<lambda>_. None, empty_DB) s"

text \<open>With one process at a time, whoever has read the head still holds it.\<close>

definition exclusive :: "(string \<Rightarrow> string) \<Rightarrow> Encryptor option \<Rightarrow> recorders \<Rightarrow> bool" where
  "exclusive H cph = (\<lambda>(hold, db). wf_audit H cph db \<and> (\<forall>p prev. hold p = Some prev \<longrightarrow> prev = chain_head db) \<and>
     (\<forall>p q. hold p \<noteq> None \<longrightarrow> hold q \<noteq> None \<longrightarrow> p = q))"

lemma append_after_chain:
  "append_after H cph en e (chain_head db) db = Inr db' \<Longrightarrow> append_chain H cph (en\<lparr>env_fault := (env_fault en)(3 := None)\<rparr>) e db = Inr db'"
  by (cases "env_fault en 4") (simp_all add: append_after_def append_chain_def Let_def split: sum.splits)

lemma exclusive_step:
  assumes "recorders_step False H cph s s'" and "exclusive H cph s" and "encryptor (store_enc cph) (store_dec cph)"
  shows "exclusive H cph s'"
  using assms(1)
proof cases
  case (appends hold p prev en e db db')
  with assms(2) have wf: "wf_audit H cph db" and p: "prev = chain_head db" by (auto simp: exclusive_def)
  from append_after_chain [OF appends(4) [unfolded p]] append_chain_ok [OF assms(3) wf] have "wf_audit H cph db'" by blast
  moreover have "(hold(p := None)) q = None" for q using assms(2) appends(1,3) by (auto simp: exclusive_def)
  ultimately show ?thesis by (simp add: appends(2) exclusive_def)
qed (use assms(2) in \<open>auto simp: exclusive_def split: if_splits\<close>)

lemma recorded_exclusive:
  assumes "recorded_by False H cph s" and "encryptor (store_enc cph) (store_dec cph)"
  shows "exclusive H cph s"
  using assms(1) unfolding recorded_by_def
proof (induction rule: rtranclp_induct)
  case base
  show ?case by (simp add: exclusive_def wf_audit_def empty_DB_def)
next
  case (step s s')
  from exclusive_step [OF step(2,3) assms(2)] show ?case .
qed

text \<open>Two processes that read the same head leave two rows with the same predecessor.\<close>

definition plain_env :: env where
  "plain_env = at_time [] 0"

lemma append_after_plain:
  "append_after H None plain_env e prev db =
     Inr (insert_audit \<lparr>al_id = 0, al_actor = entry_actor e, al_action = ''tool:'' @ ae_Tool e,
       al_payload = entry_payload e, al_hash_prev = prev, al_hash_curr = H (prev @ entry_payload e)\<rparr> db)"
  by (simp add: append_after_def plain_env_def at_time_def store_enc_def Let_def)

lemma two_recorders:
  assumes "H (entry_payload e) \<noteq> []"
  shows "\<exists>hold db. recorded_by True H None (hold, db) \<and> VerifyAuditChain H None plain_env db = Inr 2"
proof -
  let ?ins = "\<lambda>db. insert_audit \<lparr>al_id = 0, al_actor = entry_actor e, al_action = ''tool:'' @ ae_Tool e,
       al_payload = entry_payload e, al_hash_prev = [], al_hash_curr = H (entry_payload e)\<rparr> db"
  have head: "chain_head empty_DB = []" by (simp add: chain_head_def empty_DB_def)
  have app: "append_after H None plain_env e [] db = Inr (?ins db)" for db using append_after_plain [of H e "[]" db] by simp
  let ?h1 = "(\<lambda>_. None)(0 := Some []) :: nat \<Rightarrow> string option" and ?h2 = "((\<lambda>_. None)(0 := Some [])) (1 := Some []) :: nat \<Rightarrow> string option"
  have 1: "recorders_step True H None (\<lambda>_. None, empty_DB) (?h1, empty_DB)"
    using recorders_step.reads [of "\<lambda>_. None" 0 True H None empty_DB] by (simp add: head)
  have 2: "recorders_step True H None (?h1, empty_DB) (?h2, empty_DB)"
    using recorders_step.reads [of ?h1 1 True H None empty_DB] by (simp add: head)
  have 3: "recorders_step True H None (?h2, empty_DB) (?h2(0 := None), ?ins empty_DB)"
    by (rule recorders_step.appends [OF _ app]) simp
  have 4: "recorders_step True H None (?h2(0 := None), ?ins empty_DB) (?h2(0 := None, 1 := None), ?ins (?ins empty_DB))"
    by (rule recorders_step.appends [OF _ app]) simp
  have "recorded_by True H None (?h2(0 := None, 1 := None), ?ins (?ins empty_DB))"
    unfolding recorded_by_def using 1 2 3 4 by (meson rtranclp.rtrancl_refl rtranclp.rtrancl_into_rtrancl)
  moreover have "VerifyAuditChain H None plain_env (?ins (?ins empty_DB)) = Inr 2"
    using assms by (simp add: VerifyAuditChain_def plain_env_def at_time_def insert_audit_def empty_DB_def store_dec_def)
  ultimately show ?thesis by blast
qed

section \<open>Properties\<close>


text \<open>C16: The audit chain needs one recorder at a time: whatever recorders do that never read the head while
  another one is between reading and appending (one process, with its mutex), the chain verifies;
  but two processes on one Postgres database, without any tampering, can reach a log in which the
  second row is reported as broken.\<close>

theorem chain_needs_one_recorder:
  assumes "cipher_ok cph" and "env_fault en 0 = None"
  shows "(recorded_by False H cph (hold, db) \<longrightarrow> VerifyAuditChain H cph en db = Inr 0) \<and>
    (H (entry_payload e) \<noteq> [] \<longrightarrow>
      (\<exists>hold db. recorded_by True H None (hold, db) \<and> VerifyAuditChain H None plain_env db = Inr 2))"
proof (intro conjI impI)
  assume "recorded_by False H cph (hold, db)"
  from recorded_exclusive [OF this cipher_ok_encryptor [OF assms(1)]] have "wf_audit H cph db" by (simp add: exclusive_def)
  then show "VerifyAuditChain H cph en db = Inr 0" by (rule Verify_wf) (rule assms(2))
next
  assume "H (entry_payload e) \<noteq> []"
  then show "\<exists>hold db. recorded_by True H None (hold, db) \<and> VerifyAuditChain H None plain_env db = Inr 2"
    by (rule two_recorders)
qed

text \<open>Calls of a first session, with a server that gives its rows backwards.\<close>

definition backwards :: pg_order where
  "backwards = \<lparr>po_users = rev, po_sessions = rev, po_messages = rev, po_memories = rev\<rparr>"

definition demo_calls :: "timed_call list" where
  "demo_calls =
     [(at_time ''u'' 1, backwards, EnsureUserCall ''root'' [] ''admin''),
      (at_time ''s'' 2, backwards, CreateSessionCall ''u'' [] ''propose'' [] 0),
      (at_time ''m'' 3, backwards, AppendMessageCall ''s'' (msg RoleUser ''hi'')),
      (at_time ''n'' 4, backwards, AppendMessageCall ''s'' (msg RoleAssistant ''hello'')),
      (at_time [] 5, backwards, LoadMessagesCall ''s'')]"

definition demo_codecs :: codecs where
  "demo_codecs = \<lparr>co_hash = demo_hash, co_cipher = None, co_float = (\<lambda>_. 0)\<rparr>"

lemmas call_evaluation =
  demo_calls_def demo_codecs_def at_time_def empty_DB_def backwards_def msg_def nullStr_def fk_ok_def store_enc_def store_dec_def
  EnsureUser_def CreateSession_def AppendMessage_def LoadMessages_def pg_CreateSession_def pg_AppendMessage_def
  pg_LoadMessages_def new_session_row_def fits_integer_def message_payload_def has_payload_def row_message_def


theorem chain_needs_one_recorder_witness:
  "VerifyAuditChain demo_hash demo_cipher plain_env empty_DB = Inr 0 \<and>
   (\<exists>hold db. recorded_by True demo_hash None (hold, db) \<and> VerifyAuditChain demo_hash None plain_env db = Inr 2)"
proof -
  have "cipher_ok demo_cipher" unfolding demo_cipher_def by (rule demo_cipher_ok)
  moreover have "env_fault plain_env 0 = None" by (simp add: plain_env_def at_time_def)
  moreover have "recorded_by False demo_hash demo_cipher (\<lambda>_. None, empty_DB)" by (simp add: recorded_by_def)
  moreover have "demo_hash x \<noteq> []" for x by (auto simp: demo_hash_def)
  ultimately show ?thesis
    using chain_needs_one_recorder [of demo_cipher plain_env demo_hash "\<lambda>_. None" empty_DB] by blast
qed

text \<open>Messages of the same instant: SQLite keeps the order they were appended in, Postgres need not.\<close>

definition same_instant_calls :: "timed_call list" where
  "same_instant_calls =
     [(at_time ''s'' 2, backwards, CreateSessionCall [] [] ''propose'' [] 0),
      (at_time ''m'' 3, backwards, AppendMessageCall ''s'' (msg RoleUser ''hi'')),
      (at_time ''n'' 3, backwards, AppendMessageCall ''s'' (msg RoleAssistant ''hello'')),
      (at_time [] 5, backwards, LoadMessagesCall ''s'')]"

lemma same_instant_loses_order:
  "last (fst (sqlite_run demo_codecs same_instant_calls empty_DB)) = MessagesAnswer (Inr [msg RoleUser ''hi'', msg RoleAssistant ''hello''])"
  "last (fst (pg_run demo_codecs same_instant_calls empty_DB)) = MessagesAnswer (Inr [msg RoleAssistant ''hello'', msg RoleUser ''hi''])"
  by (simp_all add: same_instant_calls_def call_evaluation)

end
