(* ===== verification/CleanResults.thy ===== *)
theory CleanResults
  imports Composition Redact
begin

text \<open>
  The redactor in the dispatch chain (internal/tools/registry.go, step 8, as cmd/voujr/main.go wires it): what
  a tool call returns to the agent, and with it to the model, and what it leaves in the audit log.
\<close>

lemma empty_Result_clean: "\<not> carries_credentials (res_ModelView empty_Result)" "\<not> carries_credentials (res_Summary empty_Result)"
proof -
  have "Scrub [] = []" by code_simp
  with Scrub_clean [of "[]"] show "\<not> carries_credentials (res_ModelView empty_Result)"
    "\<not> carries_credentials (res_Summary empty_Result)" by (simp_all add: empty_Result_def)
qed

lemma execute_step_clean:
  assumes "redactor reg = Some Scrub" and "execute_step clk reg t sp name args diff who start s = ((res, err), s')"
  shows "\<not> carries_credentials (res_ModelView res) \<and> \<not> carries_credentials (res_Summary res)"
  using assms Scrub_clean by (auto simp: execute_step_def Let_def redact_result_def split: prod.splits)

text \<open>Only a denial and a rejection are recorded without an execution.\<close>

lemma stopped_records:
  assumes "Dispatch clk reg sp name args s = ((res, err), s')" and "trace s' = trace s @ evs"
    and "EvRecord ent \<in> set evs" and "ae_Status ent \<notin> {''denied'', ''rejected''}"
  shows "ae_Summary ent = res_Summary res"
  using assms(1)
proof (cases rule: Dispatch_cases)
  case (refused e)
  with assms(2,3) show ?thesis by simp
next
  case (policy t e)
  from policy_step_Inl [OF policy(4)] assms(2-4) show ?thesis
    by (auto simp: entry_of_def evs_defs split: if_splits)
next
  case (dry t pd s1 e)
  with policy_step_Inr [OF dry(4)] dry_run_step_trace [OF dry(5)] assms(2,3) show ?thesis
    by (auto split: if_splits)
next
  case (approval t pd s1 diff s2 e)
  from policy_step_Inr [OF approval(4)] dry_run_step_trace [OF approval(5)] approval_step_Inl [OF approval(6)] assms(2-4)
  show ?thesis by (auto simp: entry_of_def evs_defs split: if_splits)
next
  case (executed t pd s1 diff s2 who s3)
  have before: "trace s3 = trace s @ evs_before reg sp t name args pd diff who"
    using policy_step_Inr [OF executed(2)] dry_run_step_trace [OF executed(3)] approval_step_Inr [OF executed(4)]
    by (auto simp: evs_before_def approval_request_def split: if_splits)
  from execute_step_trace [OF executed(5)] obtain ent' status where
    "entry_of t sp args diff who status (res_Summary res) ent'"
    "trace s' = trace s3 @ EvExecute (t_Name t) args False # evs_record reg ent' @ evs_tool reg name status" by blast
  with before assms(2,3) evs_before_no_record show ?thesis by (auto simp: entry_of_def evs_defs split: if_splits)
qed

text \<open>C14: On the registry the program wires, with the redactor it wires, no tool call hands a text with one of the
  credential shapes to the agent as its view or its summary, nor to the audit log as the summary of an
  execution.\<close>

theorem tool_results_are_clean:
  assumes "main_registry d ui sink Scrub ob = Some reg" and "Dispatch clk reg sp name args s = ((res, err), s')"
    and "trace s' = trace s @ evs"
  shows "\<not> carries_credentials (res_ModelView res) \<and> \<not> carries_credentials (res_Summary res) \<and>
    (\<forall>ent. EvRecord ent \<in> set evs \<and> ae_Status ent \<notin> {''denied'', ''rejected''} \<longrightarrow> \<not> carries_credentials (ae_Summary ent))"
proof -
  have "reg = wired_registry d ui sink Scrub ob" using assms(1) by (simp add: main_registry_ok)
  then have rd: "redactor reg = Some Scrub" by (simp add: wired_registry_def)
  from assms(2) have "\<not> carries_credentials (res_ModelView res) \<and> \<not> carries_credentials (res_Summary res)"
    by (cases rule: Dispatch_cases) (use empty_Result_clean execute_step_clean [OF rd] in auto)
  with stopped_records [OF assms(2,3)] show ?thesis by metis
qed

definition scrubbing_registry :: "(string \<Rightarrow> string \<Rightarrow> nat) Registry" where
  "scrubbing_registry = demo_wired\<lparr>redactor := Some Scrub\<rparr>"

theorem tool_results_are_clean_witness:
  "\<not> carries_credentials (res_Summary (fst (fst
      (Dispatch (\<lambda>_. 0) scrubbing_registry (demo_session ''apply'') ''kubectl_scale_deployment'' (demo_scale_args ''prod'') demo_world))))"
proof -
  obtain ui sink scrub ob where dw: "demo_wired = wired_registry demo_deps ui sink scrub ob"
    using demo_wired_main unfolding main_registry_ok option.inject by metis
  have main: "main_registry demo_deps ui sink Scrub ob = Some scrubbing_registry"
    unfolding scrubbing_registry_def main_registry_ok dw by (simp add: wired_registry_def)
  obtain res err s' where D: "Dispatch (\<lambda>_. 0) scrubbing_registry (demo_session ''apply'') ''kubectl_scale_deployment''
      (demo_scale_args ''prod'') demo_world = ((res, err), s')" by (metis prod.exhaust)
  have "trace s' = trace demo_world @ trace s'" by (simp add: demo_world_def)
  from tool_results_are_clean [OF main D this] D show ?thesis by simp
qed

end
