(* ===== verification/Tui.thy ===== *)
theory Tui
  imports AgentLoop
begin

text \<open>
  The terminal interface (internal/tui/app.go, styles.go): the model, its messages and commands, the update
  function, slash commands and the view. The text input, the viewport's rendering and the styles belong to
  third-party packages and are parameters. A command is what the runtime is asked to run next, a goroutine
  what the update starts by itself.
\<close>

section \<open>Messages and commands\<close>

datatype KeyType = KeyCtrlC | KeyEnter | KeyOther

record Key =
  key_Type :: KeyType
  key_String :: string

datatype tea_msg =
    WindowSizeMsg int int
  | KeyMsg Key
  | TokenMsg string
  | RoutingMsg string
  | ToolStartMsg string
  | ToolDoneMsg string "go_error option" string
  | ApprovalMsg ApprovalRequest
  | TurnDoneMsg "go_error option"
  | OtherMsg

datatype tea_cmd = NoCmd | Quit | WaitForEvent | WaitForApproval | InputCmd

datatype goroutine = SendAnswer bool | RunTurn string

fun translate :: "AgentEvent \<Rightarrow> tea_msg" where
  "translate e =
     (case evt_Kind e of
        EventToken \<Rightarrow> TokenMsg (evt_Text e)
      | EventRouting \<Rightarrow> RoutingMsg (evt_Text e)
      | EventToolStart \<Rightarrow> ToolStartMsg (evt_Tool e)
      | EventToolDone \<Rightarrow> ToolDoneMsg (evt_Tool e) (evt_Err e) (evt_Text e)
      | EventDone \<Rightarrow> TurnDoneMsg (evt_Err e)
      | EventError \<Rightarrow> TurnDoneMsg (evt_Err e))"

section \<open>The model\<close>

record 'i TextInput =
  ti_Value :: "'i \<Rightarrow> string"
  ti_Reset :: "'i \<Rightarrow> 'i"
  ti_SetWidth :: "int \<Rightarrow> 'i \<Rightarrow> 'i"
  ti_Update :: "tea_msg \<Rightarrow> 'i \<Rightarrow> 'i"
  ti_View :: "'i \<Rightarrow> string"

record Viewport =
  vp_Width :: int
  vp_Height :: int
  vp_Content :: string

record 'i Model =
  mo_clusters :: "ClusterRegistry option"
  mo_vp :: Viewport
  mo_input :: 'i
  mo_cluster :: string
  mo_transcript :: string
  mo_streaming :: bool
  mo_spinner :: string
  mo_pending :: "ApprovalRequest option"

definition tui_write :: "string \<Rightarrow> 'i Model \<Rightarrow> 'i Model" where
  "tui_write s m =
     m\<lparr>mo_transcript := mo_transcript m @ s, mo_vp := (mo_vp m)\<lparr>vp_Content := mo_transcript m @ s\<rparr>\<rparr>"

abbreviation Notice :: "string \<Rightarrow> 'i Model \<Rightarrow> 'i Model" where "Notice \<equiv> tui_write"

definition ActiveName :: "ClusterRegistry \<Rightarrow> string" where "ActiveName r = active r"

text \<open>\<open>New\<close>, with the focused input.\<close>

definition New_Model :: "'i \<Rightarrow> ClusterRegistry option \<Rightarrow> 'i Model" where
  "New_Model inp cl =
     (let act = (case cl of None \<Rightarrow> [] | Some r \<Rightarrow> ActiveName r)
      in tui_write (''Connected to '' @ act @ ''. Read-only by default '' @ em_dash @ '' mutations need your approval.'' @ newline)
           \<lparr>mo_clusters = cl, mo_vp = \<lparr>vp_Width = 0, vp_Height = 0, vp_Content = []\<rparr>, mo_input = inp, mo_cluster = act,
            mo_transcript = [], mo_streaming = False, mo_spinner = [], mo_pending = None\<rparr>)"

text \<open>The interface as the program starts it (cmd/voujr/main.go).\<close>

definition main_ui :: "'i \<Rightarrow> ClusterRegistry \<Rightarrow> string \<Rightarrow> Message list \<Rightarrow> string \<Rightarrow> 'i Model" where
  "main_ui inp cl resumeID resumed sessionID =
     (let m = New_Model inp (Some cl);
          m1 = (if resumeID \<noteq> []
                then Notice (''Resumed session '' @ em_dash @ '' '' @ show_nat (length resumed) @
                       '' prior messages restored as context.'' @ newline) m else m)
      in Notice (''session: '' @ sessionID @ ''  (resume later with --resume '' @ sessionID @ '')'' @ newline) m1)"

definition Init :: "tea_cmd list" where "Init = [InputCmd, WaitForApproval]"

section \<open>Slash commands\<close>

text \<open>\<open>strings.Fields\<close>\<close>

fun fields_from :: "string \<Rightarrow> string \<Rightarrow> string list" where
  "fields_from w [] = (if w = [] then [] else [w])"
| "fields_from w (c # s) =
     (if is_space c then (if w = [] then [] else [w]) @ fields_from [] s else fields_from (w @ [c]) s)"

definition ballot_cross :: string where "ballot_cross = [CHR 0xE2, CHR 0x9C, CHR 0x97]"
definition tick_mark :: string where "tick_mark = [CHR 0xE2, CHR 0x9C, CHR 0x93]"
definition cycle_mark :: string where "cycle_mark = [CHR 0xE2, CHR 0x9F, CHR 0xB3]"
definition pointer_mark :: string where "pointer_mark = [CHR 0xE2, CHR 0x96, CHR 0xB8]"

definition help_text :: string where
  "help_text = ''commands:'' @ newline @ ''  /cluster <name>  switch the active cluster'' @ newline @
     ''  /clusters        list registered clusters'' @ newline @ ''  /help            this help'' @ newline"

definition cluster_command :: "string list \<Rightarrow> 'i Model \<Rightarrow> 'i Model" where
  "cluster_command fs m =
     (case mo_clusters m of
        None \<Rightarrow> tui_write (''usage: /cluster <name>'' @ newline) m
      | Some r \<Rightarrow>
          if length fs < 2 then tui_write (''usage: /cluster <name>'' @ newline) m
          else
            (case Switch (fs ! 1) r of
               (Some e, r1) \<Rightarrow> tui_write (ballot_cross @ '' '' @ error_text e @ newline) (m\<lparr>mo_clusters := Some r1\<rparr>)
             | (None, r1) \<Rightarrow>
                 tui_write (right_arrow @ '' active cluster is now '' @ ActiveName r1 @ newline)
                   (m\<lparr>mo_clusters := Some r1, mo_cluster := ActiveName r1\<rparr>)))"

definition clusters_command :: "'i Model \<Rightarrow> 'i Model" where
  "clusters_command m =
     (case mo_clusters m of
        None \<Rightarrow> tui_write (''(no clusters registered)'' @ newline) m
      | Some r \<Rightarrow> tui_write (''clusters: '' @ join '', '' (Names r) @ ''   (active: '' @ ActiveName r @ '')'' @ newline) m)"

text \<open>The first field exists, since the input starts with a slash.\<close>

definition handleCommand :: "string \<Rightarrow> 'i Model \<Rightarrow> bool \<times> 'i Model" where
  "handleCommand inp m =
     (if \<not> has_prefix inp ''/'' then (False, m)
      else
        (let fs = fields_from [] inp; cmd = hd fs
         in (True,
             if cmd = ''/cluster'' then cluster_command fs m
             else if cmd = ''/clusters'' then clusters_command m
             else if cmd = ''/help'' then tui_write help_text m
             else tui_write (''unknown command '' @ cmd @ '' (try /help)'' @ newline) m)))"

section \<open>Update\<close>

definition resolveApproval :: "bool \<Rightarrow> 'i Model \<Rightarrow> 'i Model \<times> goroutine list" where
  "resolveApproval ok m =
     (tui_write (if ok then ''  '' @ right_arrow @ '' approved'' @ newline else ''  '' @ right_arrow @ '' rejected'' @ newline)
        (m\<lparr>mo_pending := None\<rparr>), [SendAnswer ok])"

definition submit :: "'i TextInput \<Rightarrow> 'i Model \<Rightarrow> 'i Model \<times> tea_cmd \<times> goroutine list" where
  "submit ti m =
     (let user = ti_Value ti (mo_input m);
          m1 = tui_write (newline @ ''> '' @ user @ newline @ newline) (m\<lparr>mo_input := ti_Reset ti (mo_input m)\<rparr>)
      in (m1\<lparr>mo_streaming := True\<rparr>, WaitForEvent, [RunTurn user]))"

definition approval_key :: "Key \<Rightarrow> bool option" where
  "approval_key k =
     (let s = to_lower (key_String k)
      in if s = ''y'' then Some True else if s = ''n'' \<or> s = ''esc'' then Some False else None)"

definition edit_input :: "'i TextInput \<Rightarrow> tea_msg \<Rightarrow> 'i Model \<Rightarrow> 'i Model \<times> tea_cmd \<times> goroutine list" where
  "edit_input ti tm m = (m\<lparr>mo_input := ti_Update ti tm (mo_input m)\<rparr>, InputCmd, [])"

definition key_update :: "'i TextInput \<Rightarrow> Key \<Rightarrow> 'i Model \<Rightarrow> 'i Model \<times> tea_cmd \<times> goroutine list" where
  "key_update ti k m =
     (if mo_pending m \<noteq> None then
        (case approval_key k of
           Some ok \<Rightarrow> (case resolveApproval ok m of (m1, gs) \<Rightarrow> (m1, WaitForApproval, gs))
         | None \<Rightarrow> (m, NoCmd, []))
      else
        (case key_Type k of
           KeyCtrlC \<Rightarrow> (m, Quit, [])
         | KeyEnter \<Rightarrow>
             (let inp = trim_space (ti_Value ti (mo_input m))
              in if mo_streaming m \<or> inp = [] then (m, NoCmd, [])
                 else if has_prefix inp ''/''
                 then (snd (handleCommand inp (m\<lparr>mo_input := ti_Reset ti (mo_input m)\<rparr>)), NoCmd, [])
                 else submit ti m)
         | KeyOther \<Rightarrow> edit_input ti (KeyMsg k) m))"

fun Update :: "'i TextInput \<Rightarrow> tea_msg \<Rightarrow> 'i Model \<Rightarrow> 'i Model \<times> tea_cmd \<times> goroutine list" where
  "Update ti (WindowSizeMsg w h) m =
     (m\<lparr>mo_vp := (mo_vp m)\<lparr>vp_Width := w, vp_Height := h - 3\<rparr>, mo_input := ti_SetWidth ti (w - 4) (mo_input m)\<rparr>, NoCmd, [])"
| "Update ti (KeyMsg k) m = key_update ti k m"
| "Update ti (TokenMsg s) m = (tui_write s m, WaitForEvent, [])"
| "Update ti (RoutingMsg s) m = (m\<lparr>mo_spinner := pointer_mark @ '' '' @ s\<rparr>, WaitForEvent, [])"
| "Update ti (ToolStartMsg s) m =
     (tui_write (newline @ ''  '' @ cycle_mark @ '' '' @ s @ ellipsis) m, WaitForEvent, [])"
| "Update ti (ToolDoneMsg tool err txt) m =
     (tui_write (case err of
          Some e \<Rightarrow> ''  '' @ ballot_cross @ '' '' @ tool @ '': '' @ error_text e @ newline
        | None \<Rightarrow> ''  '' @ tick_mark @ '' '' @ tool @ '' '' @ em_dash @ '' '' @ txt @ newline) m, WaitForEvent, [])"
| "Update ti (ApprovalMsg req) m = (m\<lparr>mo_pending := Some req\<rparr>, NoCmd, [])"
| "Update ti (TurnDoneMsg err) m =
     (tui_write ((case err of Some e \<Rightarrow> newline @ ''[error] '' @ error_text e @ newline | None \<Rightarrow> []) @ newline)
        (m\<lparr>mo_streaming := False, mo_spinner := []\<rparr>), NoCmd, [])"
| "Update ti OtherMsg m = edit_input ti OtherMsg m"

section \<open>View\<close>

record Styles =
  sy_faint :: "string \<Rightarrow> string"
  sy_warn :: "string \<Rightarrow> string"
  sy_dangerBox :: "string \<Rightarrow> string"
  sy_viewport :: "Viewport \<Rightarrow> string"

definition to_upper_char :: "char \<Rightarrow> char" where
  "to_upper_char c = (let n = (of_char c :: nat) in if 97 \<le> n \<and> n \<le> 122 then char_of (n - 32) else c)"

definition approvalView :: "Styles \<Rightarrow> ApprovalRequest \<Rightarrow> string" where
  "approvalView st req =
     sy_dangerBox st
       (sy_warn st ''APPROVE?'' @ ''  '' @ map to_upper_char (RiskLevel_String (req_Risk req)) @ '' on '' @ req_Cluster req @ newline @
        ''tool: '' @ req_Tool req @ ''   blast radius: '' @ req_BlastRadius req @ newline @
        (if req_Diff req \<noteq> [] then newline @ req_Diff req @ newline else []) @
        newline @ ''[y] apply   [n] reject'')"

definition View :: "Styles \<Rightarrow> 'i TextInput \<Rightarrow> 'i Model \<Rightarrow> string" where
  "View st ti m =
     sy_viewport st (mo_vp m) @ newline @
     (case mo_pending m of
        Some req \<Rightarrow> approvalView st req
      | None \<Rightarrow> if mo_streaming m then sy_faint st (mo_spinner m) else ti_View ti (mo_input m))"

text \<open>While a request is shown, a key answers it or does nothing: also Ctrl-C does not quit.\<close>

lemma modal_captures_keys:
  assumes "mo_pending m = Some req"
  shows "key_update ti k m =
    (case approval_key k of
       Some ok \<Rightarrow> (fst (resolveApproval ok m), WaitForApproval, [SendAnswer ok])
     | None \<Rightarrow> (m, NoCmd, []))"
  using assms by (simp add: key_update_def resolveApproval_def split: option.split)

lemma tui_write_sel [simp]:
  "mo_pending (tui_write s m) = mo_pending m" "mo_streaming (tui_write s m) = mo_streaming m"
  "mo_input (tui_write s m) = mo_input m" "mo_clusters (tui_write s m) = mo_clusters m"
  "mo_transcript (tui_write s m) = mo_transcript m @ s" "mo_cluster (tui_write s m) = mo_cluster m"
  by (simp_all add: tui_write_def)

lemma handleCommand_sel [simp]:
  "mo_pending (snd (handleCommand s m)) = mo_pending m" "mo_streaming (snd (handleCommand s m)) = mo_streaming m"
  by (auto simp: handleCommand_def cluster_command_def clusters_command_def Let_def split: option.split prod.split)

end
