(* ===== verification/TuiRun.thy ===== *)
theory TuiRun
  imports Tui AgentTurn
begin

text \<open>
  The running interface (internal/tui/app.go): the update loop, the commands it runs, the goroutine of each
  turn and the goroutines that hand over answers, which meet on the field \<open>events\<close> and on the two approval
  channels. An action is what one of them does next; a run is any interleaving.

  A turn reads \<open>m.events\<close> each time it sends, so a turn that is still returning sends on the channel
  of the next turn, if there is one already. The channels of the approvals have no buffer: a request passes
  to a listening command, an answer from its goroutine to some waiting turn. The logs of answers given
  and answers obtained are read by nothing.
\<close>

section \<open>The system\<close>

datatype runner =
    Running
  | Asking ApprovalRequest \<comment> \<open>sending on approvalReq\<close>
  | Awaiting ApprovalRequest \<comment> \<open>receiving on approvalResp\<close>
  | Ended \<comment> \<open>has emitted its last event\<close>
  | Closing \<comment> \<open>has sent its turnDoneMsg\<close>
  | Gone

record 'i System =
  sys_ui :: "'i Model"
  sys_quit :: bool
  sys_drainers :: nat \<comment> \<open>running waitForEvent commands\<close>
  sys_listeners :: nat \<comment> \<open>running waitForApproval commands\<close>
  sys_inbox :: "tea_msg list" \<comment> \<open>what finished commands have for the loop\<close>
  sys_events :: "(tea_msg list \<times> bool) option" \<comment> \<open>the buffer of the events channel and whether it is closed\<close>
  sys_senders :: "(ApprovalRequest \<times> bool) list" \<comment> \<open>answers on their way, with the request that was shown\<close>
  sys_runners :: "runner list"
  sys_cancelled :: bool
  sys_crashed :: bool
  sys_answers :: "(ApprovalRequest \<times> bool) list"
  sys_decided :: "(ApprovalRequest \<times> bool) list"

definition events_capacity :: nat where "events_capacity = 64"

definition started :: "'i Model \<Rightarrow> 'i System" where
  "started m =
     \<lparr>sys_ui = m, sys_quit = False, sys_drainers = 0, sys_listeners = length (filter ((=) WaitForApproval) Init),
      sys_inbox = [], sys_events = None, sys_senders = [], sys_runners = [], sys_cancelled = False,
      sys_crashed = False, sys_answers = [], sys_decided = []\<rparr>"

fun run_cmd :: "tea_cmd \<Rightarrow> 'i System \<Rightarrow> 'i System" where
  "run_cmd WaitForEvent s = s\<lparr>sys_drainers := Suc (sys_drainers s)\<rparr>"
| "run_cmd WaitForApproval s = s\<lparr>sys_listeners := Suc (sys_listeners s)\<rparr>"
| "run_cmd Quit s = s\<lparr>sys_quit := True\<rparr>"
| "run_cmd NoCmd s = s"
| "run_cmd InputCmd s = s"

fun start_goroutine :: "ApprovalRequest option \<Rightarrow> goroutine \<Rightarrow> 'i System \<Rightarrow> 'i System" where
  "start_goroutine (Some req) (SendAnswer ok) s =
     s\<lparr>sys_senders := sys_senders s @ [(req, ok)], sys_answers := sys_answers s @ [(req, ok)]\<rparr>"
| "start_goroutine None (SendAnswer ok) s = s"
| "start_goroutine shown (RunTurn user) s = s\<lparr>sys_runners := sys_runners s @ [Running], sys_events := Some ([], False)\<rparr>"

definition update_step :: "'i TextInput \<Rightarrow> tea_msg \<Rightarrow> 'i System \<Rightarrow> 'i System" where
  "update_step ti m s =
     (case Update ti m (sys_ui s) of
        (m1, cmd, gs) \<Rightarrow> run_cmd cmd (fold (start_goroutine (mo_pending (sys_ui s))) gs (s\<lparr>sys_ui := m1\<rparr>)))"

text \<open>A send on a closed channel, like closing it again, is a panic.\<close>

definition send_event :: "tea_msg \<Rightarrow> runner \<Rightarrow> nat \<Rightarrow> 'i System \<Rightarrow> 'i System option" where
  "send_event m next i s =
     (case sys_events s of
        None \<Rightarrow> None
      | Some (buf, True) \<Rightarrow> Some (s\<lparr>sys_crashed := True\<rparr>)
      | Some (buf, False) \<Rightarrow>
          if length buf < events_capacity
          then Some (s\<lparr>sys_events := Some (buf @ [m], False), sys_runners := (sys_runners s)[i := next]\<rparr>) else None)"

definition close_events :: "nat \<Rightarrow> 'i System \<Rightarrow> 'i System option" where
  "close_events i s =
     (case sys_events s of
        None \<Rightarrow> None
      | Some (buf, True) \<Rightarrow> Some (s\<lparr>sys_crashed := True\<rparr>)
      | Some (buf, False) \<Rightarrow> Some (s\<lparr>sys_events := Some (buf, True), sys_runners := (sys_runners s)[i := Gone]\<rparr>))"

definition waitForEvent :: "'i System \<Rightarrow> 'i System option" where
  "waitForEvent s =
     (case sys_events s of
        None \<Rightarrow> None
      | Some (m # buf, c) \<Rightarrow>
          Some (s\<lparr>sys_drainers := sys_drainers s - 1, sys_events := Some (buf, c), sys_inbox := sys_inbox s @ [m]\<rparr>)
      | Some ([], True) \<Rightarrow> Some (s\<lparr>sys_drainers := sys_drainers s - 1, sys_inbox := sys_inbox s @ [TurnDoneMsg None]\<rparr>)
      | Some ([], False) \<Rightarrow> None)"

section \<open>Actions\<close>

datatype action =
    Input tea_msg \<comment> \<open>a key, a new size or a message of the input\<close>
  | Deliver nat
  | Drain
  | Emit nat AgentEvent
  | Ask nat ApprovalRequest
  | HandOver nat
  | Decide nat nat
  | Cancel
  | GiveUp nat
  | Return nat "go_error option"
  | CloseEvents nat

definition from_outside :: "tea_msg \<Rightarrow> bool" where
  "from_outside m = (case m of WindowSizeMsg _ _ \<Rightarrow> True | KeyMsg _ \<Rightarrow> True | OtherMsg \<Rightarrow> True | _ \<Rightarrow> False)"

definition final_event :: "AgentEvent \<Rightarrow> bool" where
  "final_event e \<longleftrightarrow> evt_Kind e = EventDone \<or> evt_Kind e = EventError"

definition runner_is :: "'i System \<Rightarrow> nat \<Rightarrow> runner \<Rightarrow> bool" where
  "runner_is s i r \<longleftrightarrow> i < length (sys_runners s) \<and> sys_runners s ! i = r"

definition set_runner :: "nat \<Rightarrow> runner \<Rightarrow> 'i System \<Rightarrow> 'i System" where
  "set_runner i r s = s\<lparr>sys_runners := (sys_runners s)[i := r]\<rparr>"

definition remove_nth :: "nat \<Rightarrow> 'a list \<Rightarrow> 'a list" where
  "remove_nth i xs = take i xs @ drop (Suc i) xs"

text \<open>\<open>Approve\<close> is the actions \<open>Ask\<close>, \<open>HandOver\<close> and \<open>Decide\<close> of a turn, or \<open>GiveUp\<close> once the context is done.\<close>

fun requested :: "runner \<Rightarrow> ApprovalRequest option" where
  "requested (Asking req) = Some req"
| "requested (Awaiting req) = Some req"
| "requested _ = None"

fun do_action :: "'i TextInput \<Rightarrow> action \<Rightarrow> 'i System \<Rightarrow> 'i System option" where
  "do_action ti (Input m) s = (if from_outside m \<and> \<not> sys_quit s then Some (update_step ti m s) else None)"
| "do_action ti (Deliver k) s =
     (if k < length (sys_inbox s) \<and> \<not> sys_quit s
      then Some (update_step ti (sys_inbox s ! k) (s\<lparr>sys_inbox := remove_nth k (sys_inbox s)\<rparr>)) else None)"
| "do_action ti Drain s = (if 0 < sys_drainers s then waitForEvent s else None)"
| "do_action ti (Emit i e) s =
     (if runner_is s i Running then send_event (translate e) (if final_event e then Ended else Running) i s else None)"
| "do_action ti (Ask i req) s = (if runner_is s i Running then Some (set_runner i (Asking req) s) else None)"
| "do_action ti (HandOver i) s =
     (if i < length (sys_runners s) \<and> 0 < sys_listeners s
      then (case sys_runners s ! i of
              Asking req \<Rightarrow> Some (set_runner i (Awaiting req) (s\<lparr>sys_listeners := sys_listeners s - 1,
                              sys_inbox := sys_inbox s @ [ApprovalMsg req]\<rparr>))
            | _ \<Rightarrow> None)
      else None)"
| "do_action ti (Decide i k) s =
     (if i < length (sys_runners s) \<and> k < length (sys_senders s)
      then (case sys_runners s ! i of
              Awaiting req \<Rightarrow> Some (set_runner i Running (s\<lparr>sys_senders := remove_nth k (sys_senders s),
                                sys_decided := sys_decided s @ [(req, snd (sys_senders s ! k))]\<rparr>))
            | _ \<Rightarrow> None)
      else None)"
| "do_action ti Cancel s = Some (s\<lparr>sys_cancelled := True\<rparr>)"
| "do_action ti (GiveUp i) s =
     (if i < length (sys_runners s) \<and> sys_cancelled s \<and> requested (sys_runners s ! i) \<noteq> None
      then Some (set_runner i Running s) else None)"
| "do_action ti (Return i err) s =
     (if runner_is s i Running \<or> runner_is s i Ended then send_event (TurnDoneMsg err) Closing i s else None)"
| "do_action ti (CloseEvents i) s = (if runner_is s i Closing then close_events i s else None)"

text \<open>
  An orderly run: the context is not cancelled, and a turn starts only when the goroutines of the earlier
  turns have finished, not merely shown their end.
\<close>

definition orderly :: "'i TextInput \<Rightarrow> action \<Rightarrow> 'i System \<Rightarrow> bool" where
  "orderly ti a s \<longleftrightarrow> a \<noteq> Cancel \<and>
     (case a of
        Input m \<Rightarrow> sys_runners (update_step ti m s) = sys_runners s \<or> list_all ((=) Gone) (sys_runners s)
      | _ \<Rightarrow> True)"

fun run_ui :: "bool \<Rightarrow> 'i TextInput \<Rightarrow> action list \<Rightarrow> 'i System \<Rightarrow> 'i System option" where
  "run_ui tidy ti [] s = Some s"
| "run_ui tidy ti (a # as) s =
     (if sys_crashed s \<or> tidy \<and> \<not> orderly ti a s then None
      else (case do_action ti a s of None \<Rightarrow> None | Some s1 \<Rightarrow> run_ui tidy ti as s1))"

section \<open>What an update does to the system\<close>

definition is_event :: "tea_msg \<Rightarrow> bool" where
  "is_event m = (case m of TokenMsg _ \<Rightarrow> True | RoutingMsg _ \<Rightarrow> True | ToolStartMsg _ \<Rightarrow> True | ToolDoneMsg _ _ _ \<Rightarrow> True
     | TurnDoneMsg _ \<Rightarrow> True | _ \<Rightarrow> False)"

definition is_done :: "tea_msg \<Rightarrow> bool" where
  "is_done m = (case m of TurnDoneMsg _ \<Rightarrow> True | _ \<Rightarrow> False)"

definition is_request :: "tea_msg \<Rightarrow> bool" where
  "is_request m = (case m of ApprovalMsg _ \<Rightarrow> True | _ \<Rightarrow> False)"

lemmas msg_kinds = is_event_def is_done_def is_request_def from_outside_def

lemma translate_event [simp]: "is_event (translate e)" "is_done (translate e) = final_event e"
  by (simp_all add: msg_kinds final_event_def split: EventKind.split)

declare translate.simps [simp del]

lemma update_event:
  assumes "is_event m"
  shows "\<exists>m1. update_step ti m s = s\<lparr>sys_ui := m1, sys_drainers := (if is_done m then sys_drainers s else Suc (sys_drainers s))\<rparr> \<and>
    mo_pending m1 = mo_pending (sys_ui s) \<and> mo_streaming m1 = (mo_streaming (sys_ui s) \<and> \<not> is_done m)"
  using assms by (cases m) (auto simp: update_step_def msg_kinds)

lemma update_request:
  "update_step ti (ApprovalMsg req) s = s\<lparr>sys_ui := (sys_ui s)\<lparr>mo_pending := Some req\<rparr>\<rparr>"
  by (simp add: update_step_def)

lemma update_outside:
  assumes "from_outside m"
  obtains
    (answer) req ok m1 where "mo_pending (sys_ui s) = Some req" "mo_pending m1 = None" "mo_streaming m1 = mo_streaming (sys_ui s)"
      "update_step ti m s = s\<lparr>sys_ui := m1, sys_listeners := Suc (sys_listeners s),
         sys_senders := sys_senders s @ [(req, ok)], sys_answers := sys_answers s @ [(req, ok)]\<rparr>"
  | (quiet) m1 q where "mo_pending m1 = mo_pending (sys_ui s)" "mo_streaming m1 = mo_streaming (sys_ui s)"
      "update_step ti m s = s\<lparr>sys_ui := m1, sys_quit := q\<rparr>"
  | (turn) m1 where "mo_pending (sys_ui s) = None" "\<not> mo_streaming (sys_ui s)" "mo_pending m1 = None" "mo_streaming m1"
      "update_step ti m s = s\<lparr>sys_ui := m1, sys_drainers := Suc (sys_drainers s),
         sys_runners := sys_runners s @ [Running], sys_events := Some ([], False)\<rparr>"
proof -
  have keep: "s\<lparr>sys_ui := m1\<rparr> = s\<lparr>sys_ui := m1, sys_quit := sys_quit s\<rparr>" for m1 by simp
  show thesis
  proof (cases m)
    case (WindowSizeMsg w h)
    then show thesis using quiet [of "fst (Update ti m (sys_ui s))" "sys_quit s"] by (simp add: update_step_def)
  next
    case OtherMsg
    then show thesis using quiet [of "fst (Update ti m (sys_ui s))" "sys_quit s"] by (simp add: update_step_def edit_input_def)
  next
    case (KeyMsg k)
    show thesis
    proof (cases "mo_pending (sys_ui s)")
      case (Some req)
      show thesis
      proof (cases "approval_key k")
        case None
        then show thesis using quiet [of "sys_ui s" "sys_quit s"] KeyMsg Some
          by (simp add: update_step_def modal_captures_keys)
      next
        case (Some ok)
        then show thesis using answer [of req "fst (resolveApproval ok (sys_ui s))" ok] KeyMsg \<open>mo_pending (sys_ui s) = Some req\<close>
          by (simp add: update_step_def modal_captures_keys resolveApproval_def)
      qed
    next
      case None
      let ?inp = "trim_space (ti_Value ti (mo_input (sys_ui s)))"
      show thesis
      proof (cases "key_Type k = KeyEnter \<and> \<not> mo_streaming (sys_ui s) \<and> ?inp \<noteq> [] \<and> \<not> has_prefix ?inp ''/''")
        case True
        then show thesis using turn [of "fst (submit ti (sys_ui s))"] KeyMsg None
          by (simp add: update_step_def key_update_def submit_def Let_def)
      next
        case False
        let ?m1 = "fst (Update ti m (sys_ui s))"
        have "update_step ti m s = s\<lparr>sys_ui := ?m1, sys_quit := (sys_quit s \<or> key_Type k = KeyCtrlC)\<rparr> \<and>
            mo_pending ?m1 = mo_pending (sys_ui s) \<and> mo_streaming ?m1 = mo_streaming (sys_ui s)"
          using False None KeyMsg
          by (cases "key_Type k") (auto simp: update_step_def key_update_def edit_input_def Let_def)
        then show thesis using quiet by blast
      qed
    qed
  qed (use assms in \<open>simp_all add: from_outside_def\<close>)
qed

section \<open>The invariant of orderly runs\<close>

definition current :: "runner list \<Rightarrow> runner" where
  "current rs = (if rs = [] then Gone else last rs)"

definition at_work :: "runner \<Rightarrow> bool" where
  "at_work r \<longleftrightarrow> r = Running \<or> requested r \<noteq> None"

text \<open>The request of the waiting turn is at exactly one place; otherwise the listener is armed and nothing is shown.\<close>

definition approvals_ok :: "runner \<Rightarrow> nat \<Rightarrow> tea_msg list \<Rightarrow> (ApprovalRequest \<times> bool) list \<Rightarrow> ApprovalRequest option \<Rightarrow> bool" where
  "approvals_ok r listeners reqs senders shown \<longleftrightarrow>
     (case r of
        Awaiting req \<Rightarrow>
          (listeners = 0 \<and> reqs = [ApprovalMsg req] \<and> senders = [] \<and> shown = None) \<or>
          (listeners = 0 \<and> reqs = [] \<and> senders = [] \<and> shown = Some req) \<or>
          (listeners = 1 \<and> reqs = [] \<and> (\<exists>ok. senders = [(req, ok)]) \<and> shown = None)
      | _ \<Rightarrow> listeners = 1 \<and> reqs = [] \<and> senders = [] \<and> shown = None)"

text \<open>While the interface streams, one command waits for the next event or one event waits for the loop.\<close>

definition events_ok :: "runner \<Rightarrow> nat \<Rightarrow> tea_msg list \<Rightarrow> (tea_msg list \<times> bool) option \<Rightarrow> bool \<Rightarrow> bool" where
  "events_ok r drainers evs ch streaming \<longleftrightarrow>
     drainers + length evs = (if streaming then 1 else 0) \<and>
     (\<forall>buf c. ch = Some (buf, c) \<longrightarrow> list_all is_event buf \<and> length buf \<le> events_capacity) \<and>
     (r \<noteq> Gone \<longrightarrow> (\<exists>buf. ch = Some (buf, False) \<and>
        (at_work r \<longrightarrow> streaming \<and> list_all (\<lambda>m. \<not> is_done m) (evs @ buf))))"

definition tidy_system :: "'i System \<Rightarrow> bool" where
  "tidy_system s \<longleftrightarrow> \<not> sys_crashed s \<and> \<not> sys_cancelled s \<and> list_all ((=) Gone) (butlast (sys_runners s)) \<and>
     list_all (\<lambda>m. is_event m \<or> is_request m) (sys_inbox s) \<and> sys_answers s = sys_decided s @ sys_senders s \<and>
     approvals_ok (current (sys_runners s)) (sys_listeners s) (filter is_request (sys_inbox s)) (sys_senders s) (mo_pending (sys_ui s)) \<and>
     events_ok (current (sys_runners s)) (sys_drainers s) (filter is_event (sys_inbox s)) (sys_events s) (mo_streaming (sys_ui s))"

lemma tidy_started:
  assumes "mo_pending m = None" and "\<not> mo_streaming m"
  shows "tidy_system (started m)"
  using assms by (simp add: tidy_system_def started_def current_def approvals_ok_def events_ok_def Init_def)

lemma kinds_excl [simp]: "is_request m \<Longrightarrow> \<not> is_event m" "is_event m \<Longrightarrow> \<not> is_request m"
  by (cases m; simp add: msg_kinds)+

lemma current_runner:
  assumes "list_all ((=) Gone) (butlast rs)" and "i < length rs" and "rs ! i \<noteq> Gone"
  shows "current rs = rs ! i" "current (rs[i := r]) = r" "butlast (rs[i := r]) = butlast rs"
proof -
  have "i = length rs - 1"
  proof (rule ccontr)
    assume "i \<noteq> length rs - 1"
    with assms(2) have "i < length (butlast rs)" by simp
    with assms(1,3) nth_butlast [OF this] show False by (metis list_all_length)
  qed
  with assms(2) show "current rs = rs ! i" "current (rs[i := r]) = r" "butlast (rs[i := r]) = butlast rs"
    by (auto simp: current_def last_conv_nth butlast_conv_take take_update_cancel)
qed

lemma tidy_update_event:
  assumes "tidy_system s" and "k < length (sys_inbox s)" and "is_event (sys_inbox s ! k)"
  shows "tidy_system (update_step ti (sys_inbox s ! k) (s\<lparr>sys_inbox := remove_nth k (sys_inbox s)\<rparr>))"
proof -
  let ?m = "sys_inbox s ! k" and ?s1 = "s\<lparr>sys_inbox := remove_nth k (sys_inbox s)\<rparr>"
  define ys zs where "ys = take k (sys_inbox s)" and "zs = drop (Suc k) (sys_inbox s)"
  have inbox: "sys_inbox s = ys @ ?m # zs" "remove_nth k (sys_inbox s) = ys @ zs"
    using assms(2) by (simp_all add: ys_def zs_def remove_nth_def id_take_nth_drop)
  from update_event [OF assms(3), of ti ?s1]
  obtain m1 where u: "update_step ti ?m ?s1 = ?s1\<lparr>sys_ui := m1, sys_drainers := (if is_done ?m then sys_drainers ?s1 else Suc (sys_drainers ?s1))\<rparr>"
    "mo_pending m1 = mo_pending (sys_ui ?s1)" "mo_streaming m1 = (mo_streaming (sys_ui ?s1) \<and> \<not> is_done ?m)" by blast
  have evs: "filter is_event (sys_inbox s) = filter is_event ys @ ?m # filter is_event zs"
    and rqs: "filter is_request (sys_inbox s) = filter is_request (ys @ zs)"
    using assms(3) by (subst inbox(1), simp)+
  have "sys_drainers s = 0 \<and> filter is_event ys = [] \<and> filter is_event zs = [] \<and> mo_streaming (sys_ui s)"
    using assms(1) unfolding tidy_system_def events_ok_def evs by (auto split: if_splits)
  moreover have "list_all (\<lambda>m. is_event m \<or> is_request m) (ys @ zs)"
    using assms(1) inbox(1) unfolding tidy_system_def by (metis list_all_append list.pred_inject(2))
  ultimately show ?thesis
    using assms(1) u(2,3) evs rqs unfolding u(1) tidy_system_def events_ok_def
    by (auto simp: inbox(2))
qed

lemma tidy_update_request:
  assumes "tidy_system s" and "k < length (sys_inbox s)" and "sys_inbox s ! k = ApprovalMsg req"
  shows "tidy_system (update_step ti (sys_inbox s ! k) (s\<lparr>sys_inbox := remove_nth k (sys_inbox s)\<rparr>))"
proof -
  define ys zs where "ys = take k (sys_inbox s)" and "zs = drop (Suc k) (sys_inbox s)"
  have inbox: "sys_inbox s = ys @ ApprovalMsg req # zs" "remove_nth k (sys_inbox s) = ys @ zs"
    using assms(2,3) by (simp_all add: ys_def zs_def remove_nth_def id_take_nth_drop flip: assms(3))
  have kind: "is_request (ApprovalMsg req)" by (simp add: msg_kinds)
  have evs: "filter is_event (sys_inbox s) = filter is_event (ys @ zs)"
    and rqs: "filter is_request (sys_inbox s) = filter is_request ys @ ApprovalMsg req # filter is_request zs"
    using kind by (subst inbox(1), simp)+
  have "current (sys_runners s) = Awaiting req \<and> sys_listeners s = 0 \<and> filter is_request ys = [] \<and>
      filter is_request zs = [] \<and> sys_senders s = [] \<and> mo_pending (sys_ui s) = None"
    using assms(1) unfolding tidy_system_def approvals_ok_def rqs by (auto split: runner.splits simp: append_eq_Cons_conv)
  moreover have "list_all (\<lambda>m. is_event m \<or> is_request m) (ys @ zs)"
    using assms(1) inbox(1) unfolding tidy_system_def by (metis list_all_append list.pred_inject(2))
  ultimately show ?thesis
    using assms(1) evs rqs unfolding assms(3) update_request tidy_system_def approvals_ok_def
    by (auto simp: inbox(2))
qed

lemma tidy_update_outside:
  assumes "tidy_system s" and "from_outside m"
    and "sys_runners (update_step ti m s) = sys_runners s \<or> list_all ((=) Gone) (sys_runners s)"
  shows "tidy_system (update_step ti m s)"
  using assms(2)
proof (cases rule: update_outside [where s = s and ti = ti])
  case (answer req ok m1)
  from assms(1) answer(1) obtain "current (sys_runners s) = Awaiting req" "sys_listeners s = 0"
    "filter is_request (sys_inbox s) = []" "sys_senders s = []"
    by (auto simp: tidy_system_def approvals_ok_def split: runner.splits)
  with assms(1) answer show ?thesis by (simp add: tidy_system_def approvals_ok_def)
next
  case (quiet m1 q)
  with assms(1) show ?thesis by (simp add: tidy_system_def)
next
  case (turn m1)
  with assms(3) have gone: "list_all ((=) Gone) (sys_runners s)" by auto
  then have "current (sys_runners s) = Gone" unfolding current_def list_all_iff by (metis last_in_set)
  with assms(1) turn gone show ?thesis
    by (auto simp: tidy_system_def current_def approvals_ok_def events_ok_def at_work_def)
qed

lemma tidy_drain:
  assumes "tidy_system s" and "0 < sys_drainers s" and "waitForEvent s = Some s'"
  shows "tidy_system s'"
proof -
  have "sys_drainers s + length (filter is_event (sys_inbox s)) = (if mo_streaming (sys_ui s) then 1 else 0)"
    using assms(1) by (simp add: tidy_system_def events_ok_def)
  with assms(2) have d: "sys_drainers s = 1" "filter is_event (sys_inbox s) = []" "mo_streaming (sys_ui s)"
    by (cases "mo_streaming (sys_ui s)"; cases "filter is_event (sys_inbox s)"; simp)+
  obtain buf c where ch: "sys_events s = Some (buf, c)" using assms(3) by (auto simp: waitForEvent_def split: option.splits)
  let ?r = "current (sys_runners s)"
  have e: "events_ok ?r 1 [] (Some (buf, c)) True" using assms(1) d ch by (simp add: tidy_system_def)
  show ?thesis
  proof (cases buf)
    case (Cons m rest)
    with assms(3) ch have s': "s' = s\<lparr>sys_drainers := sys_drainers s - 1, sys_events := Some (rest, c), sys_inbox := sys_inbox s @ [m]\<rparr>"
      by (simp add: waitForEvent_def)
    from e Cons have "is_event m" "events_ok ?r 0 [m] (Some (rest, c)) True" by (auto simp: events_ok_def)
    with assms(1) d show ?thesis unfolding s' by (simp add: tidy_system_def)
  next
    case Nil
    with assms(3) ch have c: "c" and s': "s' = s\<lparr>sys_drainers := sys_drainers s - 1, sys_inbox := sys_inbox s @ [TurnDoneMsg None]\<rparr>"
      by (auto simp: waitForEvent_def split: bool.splits)
    have "is_event (TurnDoneMsg None)" by (simp add: msg_kinds)
    moreover from e Nil c have "events_ok ?r 0 [TurnDoneMsg None] (Some ([], True)) True" by (auto simp: events_ok_def)
    ultimately show ?thesis using assms(1) d ch Nil c unfolding s' by (simp add: tidy_system_def)
  qed
qed

text \<open>A turn that is not gone is the current one, and its channel is open.\<close>

lemma tidy_open:
  assumes "tidy_system s" and "i < length (sys_runners s)" and "sys_runners s ! i \<noteq> Gone"
  shows "current (sys_runners s) = sys_runners s ! i \<and> (\<exists>buf. sys_events s = Some (buf, False))"
  using assms current_runner(1) [of "sys_runners s" i] by (auto simp: tidy_system_def events_ok_def)

lemma tidy_send:
  assumes "tidy_system s" and "runner_is s i r" and "r = Running \<or> r = Ended" and "is_event m"
    and "next = Running \<and> r = Running \<and> \<not> is_done m \<or> next = Ended \<or> next = Closing"
    and "send_event m next i s = Some s'"
  shows "tidy_system s'"
proof -
  have i: "i < length (sys_runners s)" "sys_runners s ! i = r" "r \<noteq> Gone" using assms(2,3) by (auto simp: runner_is_def)
  from tidy_open [OF assms(1) i(1)] i obtain buf where r: "current (sys_runners s) = r" "sys_events s = Some (buf, False)" by auto
  from assms(1) have "list_all ((=) Gone) (butlast (sys_runners s))" by (simp add: tidy_system_def)
  from current_runner(2,3) [OF this i(1)] i have n: "current ((sys_runners s)[i := next]) = next"
    "butlast ((sys_runners s)[i := next]) = butlast (sys_runners s)" by auto
  from assms(6) r have s': "s' = s\<lparr>sys_events := Some (buf @ [m], False), sys_runners := (sys_runners s)[i := next]\<rparr>"
    and len: "length buf < events_capacity" by (auto simp: send_event_def split: if_splits)
  have "approvals_ok next l q se p" if "approvals_ok r l q se p" for l q se p
    using that assms(3,5) by (auto simp: approvals_ok_def)
  moreover have "events_ok next d evs (Some (buf @ [m], False)) st" if "events_ok r d evs (Some (buf, False)) st" for d evs st
    using that assms(3-5) len by (auto simp: events_ok_def at_work_def)
  ultimately show ?thesis using assms(1) r n unfolding tidy_system_def s' by simp
qed

lemma tidy_close:
  assumes "tidy_system s" and "runner_is s i Closing" and "close_events i s = Some s'"
  shows "tidy_system s'"
proof -
  have i: "i < length (sys_runners s)" "sys_runners s ! i = Closing" using assms(2) by (auto simp: runner_is_def)
  from tidy_open [OF assms(1) i(1)] i obtain buf where r: "current (sys_runners s) = Closing" "sys_events s = Some (buf, False)" by auto
  from assms(1) have "list_all ((=) Gone) (butlast (sys_runners s))" by (simp add: tidy_system_def)
  from current_runner(2,3) [OF this i(1), of Gone] i have "current ((sys_runners s)[i := Gone]) = Gone"
    "butlast ((sys_runners s)[i := Gone]) = butlast (sys_runners s)" by auto
  moreover have "approvals_ok Gone l q se p" if "approvals_ok Closing l q se p" for l q se p
    using that by (simp add: approvals_ok_def)
  moreover have "events_ok Gone d evs (Some (buf, True)) st" if "events_ok Closing d evs (Some (buf, False)) st" for d evs st
    using that by (auto simp: events_ok_def)
  moreover have "s' = s\<lparr>sys_events := Some (buf, True), sys_runners := (sys_runners s)[i := Gone]\<rparr>"
    using assms(3) r by (simp add: close_events_def)
  ultimately show ?thesis using assms(1) r unfolding tidy_system_def by simp
qed

text \<open>A turn that changes its state between working states keeps the events.\<close>

lemma tidy_set_runner:
  assumes "tidy_system s" and "i < length (sys_runners s)" and "at_work (sys_runners s ! i)" and "at_work r"
    and "approvals_ok (sys_runners s ! i) (sys_listeners s) (filter is_request (sys_inbox s)) (sys_senders s) (mo_pending (sys_ui s)) \<Longrightarrow>
         approvals_ok r l (filter is_request inbox) se (mo_pending (sys_ui s))"
    and "filter is_event inbox = filter is_event (sys_inbox s)" and "list_all (\<lambda>m. is_event m \<or> is_request m) inbox"
    and "sys_answers s = d @ se"
  shows "tidy_system (set_runner i r (s\<lparr>sys_listeners := l, sys_inbox := inbox, sys_senders := se, sys_decided := d\<rparr>))"
proof -
  have ne: "sys_runners s ! i \<noteq> Gone" using assms(3) by (auto simp: at_work_def)
  from assms(1) have "list_all ((=) Gone) (butlast (sys_runners s))" by (simp add: tidy_system_def)
  from current_runner [OF this assms(2) ne] have cur: "current (sys_runners s) = sys_runners s ! i"
    "current ((sys_runners s)[i := r]) = r" "butlast ((sys_runners s)[i := r]) = butlast (sys_runners s)" by blast+
  have "approvals_ok (sys_runners s ! i) (sys_listeners s) (filter is_request (sys_inbox s)) (sys_senders s) (mo_pending (sys_ui s))"
    using assms(1) unfolding tidy_system_def cur by blast
  from assms(5) [OF this] have ap: "approvals_ok r l (filter is_request inbox) se (mo_pending (sys_ui s))" .
  have "events_ok (sys_runners s ! i) (sys_drainers s) (filter is_event (sys_inbox s)) (sys_events s) (mo_streaming (sys_ui s))"
    using assms(1) unfolding tidy_system_def cur by blast
  then have "events_ok r (sys_drainers s) (filter is_event (sys_inbox s)) (sys_events s) (mo_streaming (sys_ui s))"
    using ne assms(3) unfolding events_ok_def by blast
  with ap assms(1,6-8) cur show ?thesis by (simp add: set_runner_def tidy_system_def)
qed

lemma tidy_action:
  assumes "tidy_system s" and "orderly ti a s" and "do_action ti a s = Some s'"
  shows "tidy_system s'"
proof (cases a)
  case (Input m)
  with assms tidy_update_outside [OF assms(1), of m ti] show ?thesis by (auto simp: orderly_def split: if_splits)
next
  case (Deliver k)
  with assms(3) have k: "k < length (sys_inbox s)"
    and s': "s' = update_step ti (sys_inbox s ! k) (s\<lparr>sys_inbox := remove_nth k (sys_inbox s)\<rparr>)" by (auto split: if_splits)
  from assms(1) k have "is_event (sys_inbox s ! k) \<or> is_request (sys_inbox s ! k)"
    by (auto simp: tidy_system_def list_all_length)
  then show ?thesis unfolding s'
    using tidy_update_event [OF assms(1) k] tidy_update_request [OF assms(1) k]
    by (cases "sys_inbox s ! k") (auto simp: msg_kinds)
next
  case Drain
  with assms tidy_drain show ?thesis by (auto split: if_splits)
next
  case (Emit i e)
  with assms(3) have r: "runner_is s i Running" and snd: "send_event (translate e) (if final_event e then Ended else Running) i s = Some s'"
    by (auto split: if_splits)
  show ?thesis by (rule tidy_send [OF assms(1) r _ _ _ snd]) auto
next
  case (Ask i req)
  with assms(3) have i: "i < length (sys_runners s)" "sys_runners s ! i = Running" "s' = set_runner i (Asking req) s"
    by (auto simp: runner_is_def split: if_splits)
  have "tidy_system (set_runner i (Asking req) (s\<lparr>sys_listeners := sys_listeners s, sys_inbox := sys_inbox s,
      sys_senders := sys_senders s, sys_decided := sys_decided s\<rparr>))"
    using assms(1) i by (intro tidy_set_runner) (auto simp: at_work_def approvals_ok_def tidy_system_def)
  then show ?thesis by (simp add: i)
next
  case (HandOver i)
  with assms(3) obtain req where i: "i < length (sys_runners s)" "sys_runners s ! i = Asking req" "0 < sys_listeners s"
    and s': "s' = set_runner i (Awaiting req) (s\<lparr>sys_listeners := sys_listeners s - 1, sys_inbox := sys_inbox s @ [ApprovalMsg req]\<rparr>)"
    by (auto split: if_splits runner.splits)
  have "tidy_system (set_runner i (Awaiting req) (s\<lparr>sys_listeners := sys_listeners s - 1, sys_inbox := sys_inbox s @ [ApprovalMsg req],
      sys_senders := sys_senders s, sys_decided := sys_decided s\<rparr>))"
    using assms(1) i by (intro tidy_set_runner) (auto simp: at_work_def approvals_ok_def tidy_system_def msg_kinds)
  then show ?thesis by (simp add: s')
next
  case (Decide i k)
  with assms(3) obtain req where i: "i < length (sys_runners s)" "sys_runners s ! i = Awaiting req" "k < length (sys_senders s)"
    and s': "s' = set_runner i Running (s\<lparr>sys_senders := remove_nth k (sys_senders s),
                    sys_decided := sys_decided s @ [(req, snd (sys_senders s ! k))]\<rparr>)"
    by (auto split: if_splits runner.splits)
  have cur: "current (sys_runners s) = Awaiting req" using tidy_open [OF assms(1) i(1)] i(2) by simp
  with assms(1) i(3) obtain ok where se: "sys_senders s = [(req, ok)]" "k = 0"
    by (auto simp: tidy_system_def approvals_ok_def)
  have "tidy_system (set_runner i Running (s\<lparr>sys_listeners := sys_listeners s, sys_inbox := sys_inbox s,
      sys_senders := [], sys_decided := sys_decided s @ [(req, ok)]\<rparr>))"
    using assms(1) i se by (intro tidy_set_runner) (auto simp: at_work_def approvals_ok_def tidy_system_def)
  then show ?thesis by (simp add: s' se remove_nth_def)
next
  case Cancel
  with assms(2) show ?thesis by (simp add: orderly_def)
next
  case (GiveUp i)
  with assms show ?thesis by (auto simp: tidy_system_def split: if_splits)
next
  case (Return i err)
  with assms(3) obtain r where r: "runner_is s i r" "r = Running \<or> r = Ended" and snd: "send_event (TurnDoneMsg err) Closing i s = Some s'"
    by (auto split: if_splits)
  show ?thesis by (rule tidy_send [OF assms(1) r _ _ snd]) (auto simp: msg_kinds)
next
  case (CloseEvents i)
  with assms tidy_close show ?thesis by (auto split: if_splits)
qed

lemma tidy_run: "run_ui True ti as s = Some s' \<Longrightarrow> tidy_system s \<Longrightarrow> tidy_system s'"
proof (induction as arbitrary: s)
  case (Cons a as)
  then obtain s1 where "orderly ti a s" "do_action ti a s = Some s1" "run_ui True ti as s1 = Some s'"
    by (auto split: if_splits option.splits)
  with Cons.IH tidy_action [OF Cons.prems(2)] show ?case by blast
qed simp

end
