(* ===== verification/TuiSafety.thy ===== *)
theory TuiSafety
  imports TuiRun
begin

text \<open>
  What the interface promises the operator (internal/tui/app.go): the events of a turn of the agent, orderly
  runs, and what goes wrong when the goroutines of two turns overlap.
\<close>

section \<open>How a turn uses its events\<close>

text \<open>The agent's loop emits at most one final event, and that as its last: what \<open>Emit\<close> and \<open>Return\<close> allow a turn.\<close>

definition plain_events :: "'w Agent \<Rightarrow> 'w Agent \<Rightarrow> bool" where
  "plain_events a a' \<longleftrightarrow> (\<exists>evs. ag_events a' = ag_events a @ evs \<and> list_all (\<lambda>e. \<not> final_event e) evs)"

definition turn_events :: "go_error option \<Rightarrow> 'w Agent \<Rightarrow> 'w Agent \<Rightarrow> bool" where
  "turn_events err a a' \<longleftrightarrow> (\<exists>evs. ag_events a' = ag_events a @ evs \<and> list_all (\<lambda>e. \<not> final_event e) (butlast evs) \<and>
     (err = None \<longrightarrow> evs \<noteq> [] \<and> evt_Kind (last evs) = EventDone))"

lemma plain_refl: "ag_events a' = ag_events a \<Longrightarrow> plain_events a a'"
  by (simp add: plain_events_def)

lemma plain_trans: "plain_events a b \<Longrightarrow> plain_events b c \<Longrightarrow> plain_events a c"
  by (auto simp: plain_events_def)

lemma plain_emit: "kind \<noteq> EventDone \<Longrightarrow> kind \<noteq> EventError \<Longrightarrow> plain_events a (emit c (ui_event kind txt tool err) a)"
  by (simp add: plain_events_def final_event_def ui_event_def)

lemma plain_turn: "plain_events a b \<Longrightarrow> turn_events err b a' \<Longrightarrow> turn_events err a a'"
proof -
  assume "plain_events a b" and "turn_events err b a'"
  then obtain es evs where e: "ag_events b = ag_events a @ es" "list_all (\<lambda>e. \<not> final_event e) es"
    "ag_events a' = ag_events b @ evs" "list_all (\<lambda>e. \<not> final_event e) (butlast evs)"
    "err = None \<longrightarrow> evs \<noteq> [] \<and> evt_Kind (last evs) = EventDone" by (auto simp: plain_events_def turn_events_def)
  have "list_all (\<lambda>e. \<not> final_event e) (butlast (es @ evs))"
    using e(2,4) by (auto simp: butlast_append list_all_iff dest: in_set_butlastD)
  with e show "turn_events err a a'" unfolding turn_events_def by (intro exI [of _ "es @ evs"]) auto
qed

lemma turn_last: "kind = EventDone \<or> err \<noteq> None \<Longrightarrow> turn_events err a (emit c (ui_event kind txt tool e) a)"
  by (auto simp: turn_events_def ui_event_def)

lemma streamTurn_plain:
  assumes "streamTurn c req final a = Some ((m, usage, final', err), a')"
  shows "plain_events a a'"
proof -
  obtain r w1 where r: "p_Stream (cf_Provider c) req (world (ag_st a)) = (r, w1)" by fastforce
  let ?a1 = "(on_world (\<lambda>_. w1) a)\<lparr>ag_requests := ag_requests a @ [req]\<rparr>"
  show ?thesis
  proof (cases r)
    case (Inl e)
    with assms r show ?thesis by (auto simp: streamTurn_def intro: plain_refl)
  next
    case (Inr st)
    obtain a2 where loop: "streamLoop c st (msg RoleAssistant []) zero_Usage final ?a1 = Some ((m, usage, final', err), a2)"
      and a': "a' = on_world (Close st) a2"
      using assms r Inr by (auto simp: streamTurn_def split: option.splits)
    from streamLoop_streamed [OF loop] obtain evs where "ag_events a2 = ag_events a @ evs" "\<forall>ev \<in> set evs. evt_Kind ev = EventToken"
      by (auto simp: streamed_def)
    then show ?thesis unfolding plain_events_def a' by (intro exI [of _ evs]) (auto simp: list_all_iff final_event_def)
  qed
qed

lemma act_plain: "plain_events a (act c tcs a)"
proof (induction tcs arbitrary: a)
  case (Cons tc tcs)
  let ?a1 = "emit c (ui_event EventToolStart [] (tc_Name tc) None) a"
  obtain ob a2 where d: "dispatch c tc ?a1 = (ob, a2)" by fastforce
  have "plain_events a ?a1" by (rule plain_emit) simp_all
  moreover have "plain_events ?a1 a2" by (rule plain_refl) (simp add: dispatch_sel [OF d])
  moreover have "plain_events a2 (emit c (ui_event EventToolDone (ob_summary ob) (tc_Name tc) (ob_err ob)) a2)"
    by (rule plain_emit) simp_all
  moreover have "plain_events (emit c (ui_event EventToolDone (ob_summary ob) (tc_Name tc) (ob_err ob)) a2) (act_one c tc a)"
    by (rule plain_refl) (simp add: act_one_def Let_def d)
  ultimately have "plain_events a (act_one c tc a)" by (blast intro: plain_trans)
  with Cons.IH [of "act_one c tc a"] show ?case by (auto intro: plain_trans)
qed (simp add: plain_refl)

lemma steps_events: "steps c u n inLoop final a = Some ((txt, err), a') \<Longrightarrow> turn_events err a a'"
proof (induction n arbitrary: inLoop final a)
  case 0
  then show ?case by (auto intro: turn_last)
next
  case (Suc n)
  show ?case
  proof (cases "cf_Done c (world (ag_st a))")
    case (Some e)
    with Suc.prems have "err = Some e" "a' = a" by auto
    then show ?thesis by (simp add: turn_events_def)
  next
    case None
    let ?dec = "route_step c u inLoop a"
    let ?a1 = "emit c (ui_event EventRouting (ro_Model (de_Routing ?dec) @ '' '' @ em_dash @ '' '' @ ro_Reason (de_Routing ?dec)) [] None) a"
    obtain m usage final' err' a2 where st: "streamTurn c (step_request c ?dec ?a1) final ?a1 = Some ((m, usage, final', err'), a2)"
      using Suc.prems None by (auto simp: Let_def split: option.splits)
    have "plain_events a ?a1" by (rule plain_emit) simp_all
    from plain_trans [OF this streamTurn_plain [OF st]] have a2: "plain_events a a2" .
    let ?a3 = "observe_step c ?dec m usage a2"
    have a3: "plain_events a ?a3" by (rule plain_trans [OF a2]) (simp add: plain_refl observe_step_def Let_def)
    show ?thesis
    proof (cases err')
      case (Some e)
      with Suc.prems None st have "err = Some e" "a' = emit c (ui_event EventError [] [] (Some e)) a2" by (auto simp: Let_def)
      then show ?thesis by (simp add: plain_turn [OF a2] turn_last)
    next
      case ok: None
      show ?thesis
      proof (cases "m_ToolCalls m = []")
        case True
        with Suc.prems None st ok have "a' = emit c (ui_event EventDone [] [] None) ?a3" by (auto simp: Let_def)
        then show ?thesis by (simp add: plain_turn [OF a3] turn_last)
      next
        case False
        with Suc.prems None st ok have "steps c u n True final' (act c (m_ToolCalls m) ?a3) = Some ((txt, err), a')"
          by (simp add: Let_def)
        from Suc.IH [OF this] plain_trans [OF a3 act_plain] show ?thesis by (blast intro: plain_turn)
      qed
    qed
  qed
qed

lemma turn_ends_with_its_final_event:
  assumes "Run c u a = Some ((txt, err), a')"
  shows "turn_events err a a'"
proof -
  from assms obtain a1 where s: "steps c u (nat (ag_maxSteps a)) False [] (assemble c u a) = Some ((txt, err), a1)"
    and a': "a' = on_turn c (cf_Clock c (world (ag_st a))) a1" by (rule runLoop_steps)
  have "ag_events (assemble c u a) = ag_events a" using assemble_adds [of c u a] by blast
  then have "plain_events a (assemble c u a)" by (rule plain_refl)
  from plain_turn [OF this steps_events [OF s]] show ?thesis by (simp add: a' turn_events_def)
qed

section \<open>Properties\<close>

text \<open>C5: In an orderly run of the interface every answer the operator gives goes, once and in order, to the turn
  whose request was on the screen: the answers the turns obtained are those given, but for at most one on
  its way; what is shown is the request the turn waits for; the process does not panic; and while a
  turn streams, exactly one event is awaited or at hand, so its events keep being shown.\<close>

theorem operator_answers_reach_their_request:
  assumes "run_ui True ti as (started (main_ui inp cl resumeID resumed sid)) = Some s"
  shows "\<not> sys_crashed s \<and> (\<exists>rest. sys_answers s = sys_decided s @ rest \<and> length rest \<le> 1) \<and>
    (\<forall>req. mo_pending (sys_ui s) = Some req \<longrightarrow> current (sys_runners s) = Awaiting req) \<and>
    sys_drainers s + length (filter is_event (sys_inbox s)) = (if mo_streaming (sys_ui s) then 1 else 0)"
proof -
  have "tidy_system (started (main_ui inp cl resumeID resumed sid))"
    by (rule tidy_started) (simp_all add: main_ui_def New_Model_def Let_def)
  from tidy_run [OF assms this] have t: "tidy_system s" .
  then have "approvals_ok (current (sys_runners s)) (sys_listeners s) (filter is_request (sys_inbox s)) (sys_senders s) (mo_pending (sys_ui s))"
    by (simp add: tidy_system_def)
  then have "length (sys_senders s) \<le> 1 \<and> (\<forall>req. mo_pending (sys_ui s) = Some req \<longrightarrow> current (sys_runners s) = Awaiting req)"
    by (auto simp: approvals_ok_def split: runner.splits)
  with t show ?thesis by (auto simp: tidy_system_def events_ok_def)
qed

text \<open>A line editor, a turn that asks for approval, and the operator's keys.\<close>

definition demo_input :: "string TextInput" where
  "demo_input = \<lparr>ti_Value = (\<lambda>s. s), ti_Reset = (\<lambda>_. []), ti_SetWidth = (\<lambda>_ s. s),
     ti_Update = (\<lambda>m s. case m of KeyMsg k \<Rightarrow> s @ key_String k | _ \<Rightarrow> s), ti_View = (\<lambda>s. s)\<rparr>"

definition typed :: "string \<Rightarrow> action" where "typed s = Input (KeyMsg \<lparr>key_Type = KeyOther, key_String = s\<rparr>)"

definition enter :: action where "enter = Input (KeyMsg \<lparr>key_Type = KeyEnter, key_String = ''enter''\<rparr>)"

definition shown_request :: "string \<Rightarrow> ApprovalRequest" where
  "shown_request tool = \<lparr>req_Tool = tool, req_Cluster = ''prod'', req_Args = demo_args, req_Diff = [], req_Risk = Mutate,
     req_BlastRadius = ''namespace''\<rparr>"

definition approve_actions :: "nat \<Rightarrow> string \<Rightarrow> action list" where
  "approve_actions i tool = [Ask i (shown_request tool), HandOver i, Deliver 0, typed ''Y'']"

definition demo_ui :: "string Model" where
  "demo_ui = main_ui [] New_ClusterRegistry [] [] ''s1''"

theorem operator_answers_reach_their_request_witness:
  "\<exists>s. run_ui True demo_input ([typed ''fix it'', enter] @ approve_actions 0 ''scale'' @ [Decide 0 0]) (started demo_ui) = Some s \<and>
     sys_decided s = [(shown_request ''scale'', True)] \<and> sys_answers s = sys_decided s"
proof -
  have run: "map_option sys_decided (run_ui True demo_input ([typed ''fix it'', enter] @ approve_actions 0 ''scale'' @ [Decide 0 0])
      (started demo_ui)) = Some [(shown_request ''scale'', True)]" by code_simp
  then obtain s where s: "run_ui True demo_input ([typed ''fix it'', enter] @ approve_actions 0 ''scale'' @ [Decide 0 0])
      (started demo_ui) = Some s" "sys_decided s = [(shown_request ''scale'', True)]" by auto
  have "map_option (length \<circ> sys_answers) (run_ui True demo_input ([typed ''fix it'', enter] @ approve_actions 0 ''scale'' @ [Decide 0 0])
      (started demo_ui)) = Some 1" by code_simp
  with s operator_answers_reach_their_request [OF s(1) [unfolded demo_ui_def]] show ?thesis by auto
qed

definition routing_event :: "EventKind \<Rightarrow> AgentEvent" where "routing_event k = ui_event k [] [] None"

text \<open>
  The first turn has shown its end but not yet returned when the second starts, so its \<open>turnDoneMsg\<close> ends the
  second on the screen, and a third runs beside it.
\<close>

definition overlap_actions :: "action list" where
  "overlap_actions =
     [typed ''a'', enter, Emit 0 (routing_event EventDone), Drain, Deliver 0,
      typed ''b'', enter, Return 0 None, Drain, Deliver 0, typed ''c'', enter]"


end
