(* ===== verification/Spec2Isabelle.thy ===== *)
theory Spec2Isabelle
  imports AuditLog Migrate Composition AgentSafety SessionManager Commands PortkeyTurn Backends CleanResults TuiSafety
begin

text \<open>
  A verification development of voujr, a terminal-native operations copilot for Kubernetes: an agent that
  investigates clusters with tools a language model calls, proposes changes and applies them only through
  a chain of checks, a store that remembers, and a controller that audits a fleet on a schedule.

  THE PROGRAM AND ITS THEORIES

  One dispatch chain (internal/tools/registry.go) is the only path by which the agent affects the world. The
  agent's loop (internal/agent) sends the conversation to a provider (internal/ai), and each tool call of
  the answer goes through that chain, whose collaborators are the policy and the redactor
  (internal/security), the approver (internal/tui), the audit sink (internal/store) and the observer
  (internal/observability). The tools act on clusters (internal/k8s). The controller
  (internal/controller) runs the audit engine (internal/audit), stores findings and alerts
  (internal/incident). cmd/voujr/main.go puts the parts together.

  Prelude holds the Go notions shared by all: strings as byte lists, error values, package strings.

  GoJson, JsonText: the part of encoding/json the program uses, parser and printer.
  ToolApi, Registry, SecPolicy: the tool contract, argument checking, approvers, the dispatch chain with one
  definition per numbered step of the Go function, the policy.
  K8s, Kubectl, MoreTools, Wiring, Composition: cluster handles and the fleet registry, the nine tools, the
  registry the program builds, and what a call on it can do to a cluster.
  Redact, CleanResults: the credential patterns and the masking of Secrets, and the texts that reach the
  model and the audit log.
  Ai, Router, Portkey, Sse, SseText, PortkeyTurn: messages and costs, routing and failover, the gateway
  provider with its requests, its streams and the reassembly of tool calls, and turns over it.
  AgentLoop, AgentTurn, AgentSafety: the state of the agent, prompt assembly, the whole turn.
  SessionManager: the rolling window with its folded summary.
  Crypto, Store, AuditLog, MemoryStore, FindingStore, Migrate, StoreInv: field encryption and the SQLite
  store, one record of tables and one function per method of internal/store/sqlite.go.
  Postgres, Backends: the methods of internal/store/postgres.go over the same tables, and the two backends
  behind internal/store/interface.go.
  AuditEngine, Incident, Controller, ControllerStore: rules and scans, alerts, ticks and the loop.
  Tui, TuiRun, TuiSafety: the terminal interface, its update function, and the running system of update
  loop, turn goroutines and approval channels.
  Config, Startup, Resume, Commands, Metrics: settings, the start of a session, resuming one, the other
  commands, the collectors and the log level.

  HOW THE MODEL CORRESPONDS TO THE CODE

  A struct is a record, an interface a record of functions, a method a function that returns the new state;
  names are those of the source, with a prefix where they clash. An error is a value, an early return a
  branch, a panic \<open>None\<close> or a state of its own. Effects outside the repository act on a type variable, the
  world, and the calls on collaborators leave a trace of events. Every store method takes the
  environment of the call: the uuid, the instant, the random source of each encryption, and the
  statement at which the driver fails, if any; so a theorem about a method is one about all its failures.
  Interleaving is explicit: the wakes of the controller, the order in which audit rules finish, the recorders of a
  shared database, the actions of the running interface.

  Parameters stand for what is not in the repository: the API server and client-go, the HTTP client, the AEAD and
  the hash, the YAML decoder, the SQL driver and the order of rows without ORDER BY, the text input and the
  styles of the terminal. What the code relies on is a named hypothesis, such as \<open>cipher_ok\<close>,
  \<open>deps_laws\<close> or \<open>any_order\<close>, and witnesses discharge each of them on concrete functions.

  Interfaces are locales, interpreted on the model: \<open>encryptor\<close> (with and without a key), \<open>get_or_create\<close> (users and
  clusters of both stores), \<open>audit_sink\<close> (the SQLite log), \<open>kube_tool\<close> and \<open>kube_reader\<close> (the tools),
  \<open>deployment_rule\<close> (the six rules), \<open>finding_board\<close> and \<open>healthy_board\<close> (the controller's store),
  \<open>stream_slot\<close> (open gateway streams).

  WHAT THE PROPERTIES SHOW

  Authority: nothing is executed but the named, enabled tool on checked arguments, after the policy and, where
  due, the operator allowed exactly this call; each execution is recorded; protected namespaces are never
  written; the answer of the operator reaches the request that was shown, as long as the goroutines of two
  turns do not overlap, and what goes wrong when they do. Evidence: the audit chain always verifies,
  tampering with it is detected, it needs one recorder at a time. Confidentiality: what the redactor
  returns has no credential shape left; what is stored is encrypted. Conversation: a turn keeps it well
  formed, is bounded, returns over the gateway, and is what a later session restores. Storage: the schema
  holds in every reachable database, the backends agree. Audit and control: scans report exactly the
  violations, a tick refines an abstract board of findings, the controller lives until it is cancelled.

  BOUNDS

  There is no fuel in the model of a turn: the step budget of the code bounds it. \<open>streamLoop\<close> is partial, since a
  provider may stream for ever, and the properties that a turn returns are proved from the end of the stream,
  which the gateway's streams always have. The loop over a stream's lines recurses over the rest of a
  finite body; a body is a finite text and the error that ends it. The controller's loop consumes a list of
  wakes. A run of the interface is a list of actions, the buffer of its events channel has the 64 places of
  the code. Counters of restarts are 32 bit words, decoded numbers are checked against the range of the
  column or field that takes them; other Go ints are unbounded here, costs are rationals where the code
  rounds to float64, similarities reals.

  WHAT IS NOT MODELLED

  Flag parsing, signal handling and process exit of cmd/voujr/main.go; the exposition endpoint of the metrics and
  the handler of the logger, which only call libraries; the dynamic and metrics clients of a cluster, which
  nothing uses; the SQL text of the migrations and of the queries, whose meaning on the tables is written
  out per method; white space and case outside ASCII in \<open>trim_space\<close>, \<open>to_lower\<close> and
  \<open>fields_from\<close>; data races on Go memory other than the reads of the events field, which the
  running interface has as steps.
\<close>

end
